(* ===== verification/Prelude.thy ===== *)
theory Prelude
  imports Main "HOL-Library.Word" "HOL-Library.Monad_Syntax" "HOL-Library.Multiset"
begin

text \<open>
  What every component of the development shares: the widths of Go's integers, Go's maps
  (a nil map is not an empty map), a run-time panic as \<open>None\<close>, the retry loop around
  a closure, and lemmas on lists and maps that several components use.

  Conventions.  A Go function that can panic returns an \<open>option\<close>; \<open>None\<close> is the
  panic and nothing else.  A Go \<open>error\<close> is a value: it is returned as a
  \<open>go_error option\<close> (nil is \<open>None\<close>) or as the left part of a sum.  Times are
  nanoseconds since the zero time, durations are nanoseconds, both of type \<open>int\<close>;
  the operations that Go saturates or bounds are written out.
\<close>

section \<open>Hints shared by the component proofs\<close>

named_theorems frame_simps \<open>fields an operation leaves alone\<close>
named_theorems count_simps \<open>counting functions as lengths of filters\<close>

section \<open>Integers, times and durations\<close>

type_synonym int32 = "32 word"
type_synonym int64 = "64 word"
type_synonym gotime = int
type_synonym duration = int

definition second :: duration where
  "second = 1000000000"

definition max_int64 :: int where
  "max_int64 = 9223372036854775807"

definition min_int64 :: int where
  "min_int64 = - 9223372036854775808"

text \<open>\<open>time.Duration(n) * time.Second\<close> for an \<open>int32\<close>.\<close>

definition seconds32 :: "int32 \<Rightarrow> duration" where
  "seconds32 n = sint n * second"

text \<open>\<open>t.IsZero()\<close>, \<open>t.Add(d)\<close>, \<open>t.Before(u)\<close> and the saturating \<open>t.Sub(u)\<close>.\<close>

definition time_is_zero :: "gotime \<Rightarrow> bool" where
  "time_is_zero t \<longleftrightarrow> t = 0"

definition time_add :: "gotime \<Rightarrow> duration \<Rightarrow> gotime" where
  "time_add t d = t + d"

definition time_before :: "gotime \<Rightarrow> gotime \<Rightarrow> bool" where
  "time_before t u \<longleftrightarrow> t < u"

definition time_sub :: "gotime \<Rightarrow> gotime \<Rightarrow> duration" where
  "time_sub t u = max min_int64 (min max_int64 (t - u))"

lemmas time_defs = time_is_zero_def time_add_def time_before_def

lemma sint32_bounds: "- 2147483648 \<le> sint (n :: int32)" "sint (n :: int32) < 2147483648"
  using sint_greater_eq [of n] sint_lt [of n] by simp_all

text \<open>An \<open>int32\<close> number of seconds is always a representable duration.\<close>

lemma seconds32_in_int64: "min_int64 \<le> seconds32 n" "seconds32 n \<le> max_int64"
  using sint32_bounds [of n] by (simp_all add: seconds32_def second_def min_int64_def max_int64_def)

lemma sint_eq_0 [simp]: "sint (n :: int32) = 0 \<longleftrightarrow> n = 0"
  by (metis signed_0 signed_word_eqI)

lemma seconds32_eq_0 [simp]: "seconds32 n = 0 \<longleftrightarrow> n = 0"
  by (simp add: seconds32_def second_def)

lemma time_sub_in_int64: "min_int64 \<le> time_sub t u" "time_sub t u \<le> max_int64"
  by (simp_all add: time_sub_def min_int64_def max_int64_def)

lemma time_sub_pos [simp]: "0 < time_sub t u \<longleftrightarrow> u < t"
  by (simp add: time_sub_def min_int64_def max_int64_def) linarith

lemma unat_of_nat32: "n < 2 ^ 32 \<Longrightarrow> unat (of_nat n :: int32) = n"
  by (simp add: unat_of_nat)

section \<open>Go maps from strings to strings\<close>

text \<open>
  A nil map reads as if it were empty and panics when written; \<open>delete\<close> on it does
  nothing.  Reading a missing key gives the zero value of the element type.
\<close>

type_synonym gomap = "(string \<rightharpoonup> string) option"

definition map_get :: "gomap \<Rightarrow> string \<Rightarrow> string" where
  "map_get m k = (case m of None \<Rightarrow> '''' | Some f \<Rightarrow> (case f k of None \<Rightarrow> '''' | Some v \<Rightarrow> v))"

definition map_make :: "gomap \<Rightarrow> gomap" where
  "map_make m = (case m of None \<Rightarrow> Some Map.empty | Some f \<Rightarrow> Some f)"

definition map_put :: "gomap \<Rightarrow> string \<Rightarrow> string \<Rightarrow> gomap option" where
  "map_put m k v = (case m of None \<Rightarrow> None | Some f \<Rightarrow> Some (Some (f(k \<mapsto> v))))"

definition map_delete :: "gomap \<Rightarrow> string \<Rightarrow> gomap" where
  "map_delete m k = (case m of None \<Rightarrow> None | Some f \<Rightarrow> Some (f(k := None)))"

text \<open>The guard and the write of the code in one: \<open>if m == nil { m = make(..) }; m[k] = v\<close>.\<close>

definition map_set :: "gomap \<Rightarrow> string \<Rightarrow> string \<Rightarrow> gomap" where
  "map_set m k v = (case m of None \<Rightarrow> Some [k \<mapsto> v] | Some f \<Rightarrow> Some (f(k \<mapsto> v)))"

lemma map_put_make: "map_put (map_make m) k v = Some (map_set m k v)"
  by (cases m) (simp_all add: map_put_def map_make_def map_set_def)

lemma map_get_set [simp]: "map_get (map_set m k v) k' = (if k' = k then v else map_get m k')"
  by (cases m) (auto simp: map_get_def map_set_def)

lemma map_get_delete [simp]: "map_get (map_delete m k) k' = (if k' = k then '''' else map_get m k')"
  by (cases m) (auto simp: map_get_def map_delete_def)

lemma map_get_nil [simp]: "map_get None k = ''''"
  by (simp add: map_get_def)

lemma map_get_Some [simp]:
  "map_get (Some f) k = (case f k of None \<Rightarrow> '''' | Some v \<Rightarrow> v)"
  by (simp add: map_get_def)

lemma map_set_not_nil [simp]: "map_set m k v \<noteq> None"
  by (cases m) (simp_all add: map_set_def)

section \<open>Errors and retries\<close>

text \<open>
  The errors the code tells apart (\<open>errors.IsNotFound\<close>, \<open>errors.IsAlreadyExists\<close>, the
  conflicts of \<open>retry.RetryOnConflict\<close>), any other error of a client, and the errors the
  code builds itself with \<open>fmt.Errorf\<close>: the format's text and its arguments.
\<close>

datatype go_error =
    ErrNotFound
  | ErrAlreadyExists
  | ErrConflict
  | ErrOther string
  | ErrFmt string "string list"
  | ErrWrap string string go_error

text \<open>
  \<open>retry.RetryOnConflict\<close> is library code.  Its documented contract is: run the closure;
  a nil error ends the loop; another error ends it too, unless the library decides to run
  the closure again, which it does a bounded number of times.  The decision is the parameter
  \<open>again\<close> (given the attempts that are left and the error), the bound is \<open>n\<close>.
  The closure's captured variables are the state.
\<close>

fun retry_loop ::
  "(nat \<Rightarrow> go_error \<Rightarrow> bool) \<Rightarrow> nat \<Rightarrow> ('s \<Rightarrow> (go_error option \<times> 's) option) \<Rightarrow> 's \<Rightarrow>
   (go_error option \<times> 's) option" where
  "retry_loop again 0 f s = f s"
| "retry_loop again (Suc n) f s =
     (case f s of
        None \<Rightarrow> None
      | Some (None, s') \<Rightarrow> Some (None, s')
      | Some (Some e, s') \<Rightarrow>
          if again n e then retry_loop again n f s' else Some (Some e, s'))"

text \<open>An invariant of the closure is an invariant of the loop.\<close>

lemma retry_loop_invariant:
  assumes "retry_loop again n f s = Some (e, s')"
    and "P s"
    and "\<And>s e s'. f s = Some (e, s') \<Longrightarrow> P s \<Longrightarrow> P s'"
  shows "P s'"
  using assms(1,2)
proof (induction n arbitrary: s)
  case 0
  then show ?case using assms(3) by auto
next
  case (Suc n)
  then show ?case
    using assms(3) by (auto split: option.splits prod.splits if_splits)
qed

lemma retry_loop_no_panic:
  assumes "P s"
    and "\<And>s. P s \<Longrightarrow> f s \<noteq> None"
    and "\<And>s e s'. f s = Some (e, s') \<Longrightarrow> P s \<Longrightarrow> P s'"
  shows "retry_loop again n f s \<noteq> None"
  using assms(1)
proof (induction n arbitrary: s)
  case 0
  then show ?case using assms(2) by simp
next
  case (Suc n)
  from Suc.prems obtain e s' where "f s = Some (e, s')"
    using assms(2) [of s] by (cases "f s") auto
  with Suc show ?case using assms(3) by (cases e) auto
qed

text \<open>What the successful last run of the closure establishes.\<close>

lemma retry_loop_success:
  assumes "retry_loop again n f s = Some (None, s')"
    and "\<And>s s'. f s = Some (None, s') \<Longrightarrow> Q s'"
  shows "Q s'"
  using assms(1)
proof (induction n arbitrary: s)
  case 0
  then show ?case using assms(2) by simp
next
  case (Suc n)
  then show ?case
    using assms(2) by (auto split: option.splits prod.splits if_splits)
qed

section \<open>Lists\<close>

lemma filter_take_le: "length (filter P (take n xs)) \<le> length (filter P xs)"
proof -
  have "length (filter P (take n xs @ drop n xs)) = length (filter P xs)" by simp
  then show ?thesis unfolding filter_append by simp
qed

lemma length_filter_mono:
  "(\<And>x. x \<in> set xs \<Longrightarrow> P x \<Longrightarrow> Q x) \<Longrightarrow> length (filter P xs) \<le> length (filter Q xs)"
  by (induction xs) auto

lemma length_filter_pos: "0 < length (filter P xs) \<longleftrightarrow> (\<exists>x \<in> set xs. P x)"
  by (auto simp: filter_empty_conv)

text \<open>\<open>for \_, x := range xs { if p(x) { found = x; break } }\<close>\<close>

fun first_match :: "('a \<Rightarrow> bool) \<Rightarrow> 'a list \<Rightarrow> 'a option" where
  "first_match p [] = None"
| "first_match p (x # xs) = (if p x then Some x else first_match p xs)"

lemma first_match_None: "first_match p xs = None \<longleftrightarrow> (\<forall>x \<in> set xs. \<not> p x)"
  by (induction xs) auto

lemma first_match_Some: "first_match p xs = Some x \<Longrightarrow> x \<in> set xs \<and> p x"
  by (induction xs) (auto split: if_splits)

section \<open>Small numbers in 32-bit words\<close>

lemma sint_of_nat32: "n < 2 ^ 31 \<Longrightarrow> sint (of_nat n :: int32) = int n"
  by (simp add: signed_of_nat signed_take_bit_int_eq_self)

end
