(* ===== verification/Go_Strings.thy ===== *)
theory Go_Strings
  imports Prelude
begin

text \<open>
  The parts of Go's \<open>strings\<close> and \<open>strconv\<close> packages that the controllers use to build
  and to take apart the names of pods and claims: \<open>Split\<close>, \<open>Join\<close>, \<open>Atoi\<close>, \<open>Itoa\<close>.
  The last section proves the round trips the names rely on.
\<close>

section \<open>Split and join\<close>

text \<open>\<open>strings.Split(s, sep)\<close> with a separator of one byte, \<open>strings.Join(parts, sep)\<close>.\<close>

fun go_split :: "char \<Rightarrow> string \<Rightarrow> string list" where
  "go_split sep [] = [[]]"
| "go_split sep (c # cs) =
     (if c = sep then [] # go_split sep cs
      else (case go_split sep cs of [] \<Rightarrow> [[c]] | p # ps \<Rightarrow> (c # p) # ps))"

fun go_join :: "char \<Rightarrow> string list \<Rightarrow> string" where
  "go_join sep [] = []"
| "go_join sep [p] = p"
| "go_join sep (p # q # ps) = p @ sep # go_join sep (q # ps)"

lemma go_split_not_Nil [simp]: "go_split sep s \<noteq> []"
  by (induction s) (auto split: list.splits)

lemma go_split_no_sep: "sep \<notin> set s \<Longrightarrow> go_split sep s = [s]"
  by (induction s) auto

lemma go_join_Cons: "ps \<noteq> [] \<Longrightarrow> go_join sep (p # ps) = p @ sep # go_join sep ps"
  by (cases ps) simp_all

lemma go_join_hd: "go_join sep ((c # p) # ps) = c # go_join sep (p # ps)"
  by (cases ps) simp_all

lemma go_join_split: "go_join sep (go_split sep s) = s"
proof (induction s)
  case (Cons c cs)
  then show ?case
    by (cases "go_split sep cs") (auto simp: go_join_Cons go_join_hd)
qed simp

lemma go_split_append:
  "sep \<notin> set b \<Longrightarrow> go_split sep (a @ sep # b) = go_split sep a @ [b]"
proof (induction a)
  case Nil
  then show ?case by (simp add: go_split_no_sep)
next
  case (Cons c cs)
  then show ?case by (cases "go_split sep cs") auto
qed

section \<open>Itoa\<close>

definition digit_char :: "nat \<Rightarrow> char" where
  "digit_char d = char_of (48 + d)"

lemma digit_char_numerals [simp]:
  "digit_char 0 = CHR ''0''" "digit_char 1 = CHR ''1''" "digit_char (Suc 0) = CHR ''1''"
  "digit_char 2 = CHR ''2''" "digit_char 3 = CHR ''3''" "digit_char 4 = CHR ''4''"
  "digit_char 5 = CHR ''5''" "digit_char 6 = CHR ''6''" "digit_char 7 = CHR ''7''"
  "digit_char 8 = CHR ''8''" "digit_char 9 = CHR ''9''"
  by (simp_all add: digit_char_def char_of_def bit_0)

fun nat_dec :: "nat \<Rightarrow> string" where
  "nat_dec n = (if n < 10 then [digit_char n] else nat_dec (n div 10) @ [digit_char (n mod 10)])"

declare nat_dec.simps [simp del]

definition itoa :: "int \<Rightarrow> string" where
  "itoa i = (if i < 0 then CHR ''-'' # nat_dec (nat (- i)) else nat_dec (nat i))"

section \<open>Atoi\<close>

definition digit_val :: "char \<Rightarrow> nat option" where
  "digit_val c =
     (let n = (of_char c :: nat) in if 48 \<le> n \<and> n \<le> 57 then Some (n - 48) else None)"

fun atoi_digits :: "nat \<Rightarrow> string \<Rightarrow> nat option" where
  "atoi_digits acc [] = Some acc"
| "atoi_digits acc (c # cs) =
     (case digit_val c of None \<Rightarrow> None | Some d \<Rightarrow> atoi_digits (10 * acc + d) cs)"

text \<open>
  \<open>strconv.Atoi\<close>: an optional sign, at least one digit, nothing else, and a value that
  fits the 64-bit \<open>int\<close>; any failure is an error, here \<open>None\<close>.
\<close>

definition atoi :: "string \<Rightarrow> int option" where
  "atoi s =
     (let neg = (s \<noteq> [] \<and> hd s = CHR ''-'');
          body = (if s \<noteq> [] \<and> (hd s = CHR ''-'' \<or> hd s = CHR ''+'') then tl s else s)
      in if body = [] then None
         else case atoi_digits 0 body of
                None \<Rightarrow> None
              | Some n \<Rightarrow>
                  let i = (if neg then - int n else int n)
                  in if min_int64 \<le> i \<and> i \<le> max_int64 then Some i else None)"

section \<open>Round trips\<close>

lemma of_char_digit_char: "d < 10 \<Longrightarrow> (of_char (digit_char d) :: nat) = 48 + d"
  by (simp add: digit_char_def)

lemma digit_val_digit_char [simp]: "d < 10 \<Longrightarrow> digit_val (digit_char d) = Some d"
  by (simp add: digit_val_def of_char_digit_char)

lemma digit_char_neq_sign:
  "d < 10 \<Longrightarrow> digit_char d \<noteq> CHR ''-''" "d < 10 \<Longrightarrow> digit_char d \<noteq> CHR ''+''"
  by (auto dest: arg_cong [where f = "\<lambda>c. of_char c :: nat"] simp: of_char_digit_char)

lemma nat_dec_not_Nil [simp]: "nat_dec n \<noteq> []"
  by (subst nat_dec.simps) simp

lemma nat_dec_digits: "c \<in> set (nat_dec n) \<Longrightarrow> \<exists>d < 10. c = digit_char d"
proof (induction n rule: nat_dec.induct)
  case (1 n)
  then show ?case
    by (cases "n < 10")
      (auto simp: nat_dec.simps [of n] intro: exI [of _ "n mod 10"] exI [of _ n])
qed

lemma nat_dec_no_sign: "CHR ''-'' \<notin> set (nat_dec n)" "CHR ''+'' \<notin> set (nat_dec n)"
  using nat_dec_digits digit_char_neq_sign by metis+

lemma atoi_digits_append:
  "atoi_digits acc (a @ b) =
     (case atoi_digits acc a of None \<Rightarrow> None | Some n \<Rightarrow> atoi_digits n b)"
  by (induction a arbitrary: acc) (auto split: option.splits)

lemma atoi_digits_nat_dec: "atoi_digits 0 (nat_dec n) = Some n"
proof (induction n rule: nat_dec.induct)
  case (1 n)
  show ?case
  proof (cases "n < 10")
    case True
    then show ?thesis by (simp add: nat_dec.simps [of n])
  next
    case False
    then show ?thesis
      using 1 by (simp add: nat_dec.simps [of n] atoi_digits_append)
  qed
qed

lemma hd_nat_dec: "hd (nat_dec n) \<noteq> CHR ''-''" "hd (nat_dec n) \<noteq> CHR ''+''"
  using nat_dec_no_sign [of n] hd_in_set [OF nat_dec_not_Nil [of n]] by metis+

lemma atoi_nat_dec: "int n \<le> max_int64 \<Longrightarrow> atoi (nat_dec n) = Some (int n)"
  by (simp add: atoi_def hd_nat_dec atoi_digits_nat_dec min_int64_def)

lemma atoi_itoa: "min_int64 \<le> i \<Longrightarrow> i \<le> max_int64 \<Longrightarrow> atoi (itoa i) = Some i"
proof (cases "i < 0")
  case True
  assume "min_int64 \<le> i" "i \<le> max_int64"
  with True show ?thesis
    by (simp add: atoi_def itoa_def atoi_digits_nat_dec)
qed (simp add: itoa_def atoi_nat_dec)

lemma atoi_bounds: "atoi s = Some i \<Longrightarrow> min_int64 \<le> i \<and> i \<le> max_int64"
  by (auto simp: atoi_def Let_def split: if_splits option.splits)

text \<open>A string without a sign parses to a number that is not negative.\<close>

lemma atoi_nonneg: "atoi s = Some i \<Longrightarrow> CHR ''-'' \<notin> set s \<Longrightarrow> 0 \<le> i"
  by (cases s) (auto simp: atoi_def Let_def split: if_splits option.splits)

lemma itoa_no_dash: "0 \<le> i \<Longrightarrow> CHR ''-'' \<notin> set (itoa i)"
  by (simp add: itoa_def nat_dec_no_sign)

end
