(* ===== verification/Api_Types.thy ===== *)
theory Api_Types
  imports Go_Strings
begin

text \<open>
  The data the controllers, the scheduler plugins and the node daemon exchange with the
  API server.  The types of \<open>deployer/api/deployer/v1\<close> (App, ImageList) and of its
  package \<open>inplace\<close> are records with the source's fields.  The Kubernetes core types
  (Pod, PersistentVolumeClaim, ControllerRevision) are library types: their records hold
  the fields the program reads or writes, and one opaque field for the rest where the
  program copies it.  A pointer to a scalar is an \<open>option\<close>; the string enumerations
  of the API are datatypes with a constructor for any other string.
\<close>

section \<open>Kubernetes core types, as far as the program uses them\<close>

datatype pod_phase =
  PhaseUnset | PodPending | PodRunning | PodSucceeded | PodFailed | PodUnknown

datatype cond_status = ConditionTrue | ConditionFalse | ConditionUnknown

record pod_condition =
  pc_type :: string
  pc_status :: cond_status
  pc_transition :: gotime
  pc_reason :: string

record container =
  ctr_name :: string
  ctr_image :: string
  ctr_cpu_milli :: int64
  ctr_mem_bytes :: int64

record container_status =
  cs_name :: string
  cs_container_id :: string
  cs_image_id :: string
  cs_ready :: bool
  cs_running_since :: "gotime option"

record volume =
  vol_name :: string
  vol_claim :: "string option"
  vol_rest :: string

record pod =
  p_name :: string
  p_namespace :: string
  p_labels :: gomap
  p_annotations :: gomap
  p_deletion :: "gotime option"
  p_creation :: gotime
  p_volumes :: "volume list"
  p_hostname :: string
  p_subdomain :: string
  p_containers :: "container list"
  p_readiness_gates :: "string list"
  p_phase :: pod_phase
  p_conditions :: "pod_condition list"
  p_container_statuses :: "container_status list"

record pvc =
  pvc_name :: string
  pvc_namespace :: string
  pvc_labels :: gomap
  pvc_deletion :: "gotime option"
  pvc_rest :: string

record pod_template =
  tm_labels :: gomap
  tm_containers :: "container list"
  tm_rest :: string

record label_selector =
  sel_match_labels :: gomap
  sel_rest :: string

record controller_revision =
  rev_name :: string
  rev_namespace :: string
  rev_labels :: gomap
  rev_annotations :: gomap
  rev_controller :: "string option"
  rev_data :: string
  rev_revision :: int64

text \<open>A parsed selector is known by the text its \<open>String()\<close> prints.\<close>

type_synonym selector = string

section \<open>Package inplace\<close>

record inplace_strategy =
  grace_period_seconds :: int32

definition status_key :: string where
  "status_key = ''unicore.mcyou.cn/inplace-update-status''"

record inplace_status =
  ip_revision :: string
  ip_timestamp :: gotime
  ip_old_img_ids :: "(string \<times> string) list"

section \<open>The App resource\<close>

datatype update_strategy_type = RollingUpdateType | OnDeleteType | OtherStrategyType string

datatype pod_management_policy = OrderedReady | Parallel | OtherManagementPolicy string

datatype pod_update_policy = PolicyUnset | ReCreate | InPlaceIfPossible | OtherPolicy string

datatype int_or_string = IntVal int32 | StrVal string

record rolling_update =
  ru_partition :: "int32 option"
  ru_max_unavailable :: "int_or_string option"
  ru_pod_update_policy :: pod_update_policy
  ru_paused :: bool
  ru_unordered :: bool
  ru_inplace :: "inplace_strategy option"
  ru_min_ready_seconds :: "int32 option"

record update_strategy =
  us_type :: update_strategy_type
  us_rolling_update :: "rolling_update option"

record app_spec =
  sp_replicas :: "int32 option"
  sp_template :: pod_template
  sp_selector :: "label_selector option"
  sp_claim_templates :: "pvc list"
  sp_update_strategy :: update_strategy
  sp_service_name :: string
  sp_history_limit :: "int32 option"
  sp_management_policy :: pod_management_policy

record app_condition =
  ac_type :: string
  ac_status :: cond_status
  ac_transition :: gotime
  ac_reason :: string
  ac_message :: "go_error option"

record vc_status =
  vc_name :: string
  vc_compatible :: int32
  vc_compatible_ready :: int32

record app_status =
  st_observed_generation :: int64
  st_replicas :: int32
  st_ready :: int32
  st_available :: int32
  st_current :: int32
  st_updated :: int32
  st_updated_ready :: int32
  st_updated_available :: int32
  st_current_revision :: string
  st_update_revision :: string
  st_conditions :: "app_condition list"
  st_label_selector :: string
  st_collision_count :: "int32 option"
  st_volume_claims :: "vc_status list"

record app =
  a_name :: string
  a_namespace :: string
  a_uid :: string
  a_generation :: int64
  a_deletion :: "gotime option"
  a_finalizers :: "string list"
  a_annotations :: gomap
  a_spec :: app_spec
  a_status :: app_status

text \<open>The zero values \<open>AppStatus\{\}\<close> and \<open>App\{\}\<close>.\<close>

definition zero_status :: app_status where
  "zero_status =
     \<lparr>st_observed_generation = 0, st_replicas = 0, st_ready = 0, st_available = 0, st_current = 0,
      st_updated = 0, st_updated_ready = 0, st_updated_available = 0, st_current_revision = '''',
      st_update_revision = '''', st_conditions = [], st_label_selector = '''',
      st_collision_count = None, st_volume_claims = []\<rparr>"

definition zero_app :: app where
  "zero_app =
     \<lparr>a_name = '''', a_namespace = '''', a_uid = '''', a_generation = 0, a_deletion = None,
      a_finalizers = [], a_annotations = None,
      a_spec =
        \<lparr>sp_replicas = None,
         sp_template = \<lparr>tm_labels = None, tm_containers = [], tm_rest = ''''\<rparr>,
         sp_selector = None, sp_claim_templates = [],
         sp_update_strategy = \<lparr>us_type = OtherStrategyType '''', us_rolling_update = None\<rparr>,
         sp_service_name = '''', sp_history_limit = None,
         sp_management_policy = OtherManagementPolicy ''''\<rparr>,
      a_status = zero_status\<rparr>"

text \<open>Conditions of an App.\<close>

definition condition_fail_create_pod :: string where
  "condition_fail_create_pod = ''FailedCreatePod''"

definition condition_fail_update_pod :: string where
  "condition_fail_update_pod = ''FailedUpdatePod''"

text \<open>
  Names the Kubernetes API fixes: the Ready condition and the label that holds a pod's
  revision (\<open>StatefulSetRevisionLabel\<close> and \<open>ControllerRevisionHashLabelKey\<close> are the
  same label).
\<close>

definition pod_ready :: string where
  "pod_ready = ''Ready''"

definition revision_label :: string where
  "revision_label = ''controller-revision-hash''"

abbreviation rolling :: "app \<Rightarrow> rolling_update option" where
  "rolling app \<equiv> us_rolling_update (sp_update_strategy (a_spec app))"

abbreviation strategy :: "app \<Rightarrow> update_strategy_type" where
  "strategy app \<equiv> us_type (sp_update_strategy (a_spec app))"

section \<open>The ImageList resource\<close>

record image_info =
  ii_always_pull :: bool
  ii_next_pull :: gotime

type_synonym image_list = "(string \<times> image_info) list"

section \<open>Status codes of the scheduler framework\<close>

datatype fw_code = Success | Error | Unschedulable | UnschedulableAndUnresolvable | Wait

end
