(* ===== verification/Requeue_Duration.thy ===== *)
theory Requeue_Duration
  imports Api_Types
begin

text \<open>
  \<open>deployer/internal/controller/requeue\_duration/duration.go\<close>: a process-wide store that
  keeps, per App key, the duration after which the next reconcile call should run.
  \<open>Push\<close> keeps the shortest positive duration, \<open>Pop\<close> takes the entry out.  The
  contract its clients (the state controller pushes, the reconciler pops) rely on is the
  locale \<open>duration\_store\<close>, interpreted on the two functions.
\<close>

type_synonym store = "string \<rightharpoonup> duration"

definition push :: "string \<Rightarrow> duration \<Rightarrow> store \<Rightarrow> store" where
  "push key d st =
     (case st key of
        Some v \<Rightarrow> (if 0 < d \<and> d < v then st(key \<mapsto> d) else st)
      | None \<Rightarrow> st(key \<mapsto> d))"

definition pop :: "string \<Rightarrow> store \<Rightarrow> duration \<times> store" where
  "pop key st = (case st key of Some v \<Rightarrow> (v, st(key := None)) | None \<Rightarrow> (0, st))"

section \<open>The contract\<close>

locale duration_store =
  fixes put :: "string \<Rightarrow> duration \<Rightarrow> 's \<Rightarrow> 's"
    and take_out :: "string \<Rightarrow> 's \<Rightarrow> duration \<times> 's"
    and pending :: "'s \<Rightarrow> string \<Rightarrow> duration option"
  assumes put_new: "pending st k = None \<Longrightarrow> pending (put k d st) k = Some d"
    and put_old: "pending st k = Some v \<Longrightarrow>
      pending (put k d st) k = Some (if 0 < d \<and> d < v then d else v)"
    and put_other: "k' \<noteq> k \<Longrightarrow> pending (put k d st) k' = pending st k'"
    and take_out_value: "fst (take_out k st) = (case pending st k of None \<Rightarrow> 0 | Some v \<Rightarrow> v)"
    and take_out_gone: "pending (snd (take_out k st)) k = None"
    and take_out_other: "k' \<noteq> k \<Longrightarrow> pending (snd (take_out k st)) k' = pending st k'"
begin

primrec put_all :: "string \<Rightarrow> duration list \<Rightarrow> 's \<Rightarrow> 's" where
  "put_all k [] st = st"
| "put_all k (d # ds) st = put_all k ds (put k d st)"

text \<open>
  However many positive durations are pushed for a key, the pop that follows returns the
  shortest of them and of what was pending, and leaves nothing behind.
\<close>

lemma put_all_pending:
  "pending st k = Some v \<Longrightarrow> 0 < v \<Longrightarrow> \<forall>d \<in> set ds. 0 < d \<Longrightarrow>
     pending (put_all k ds st) k = Some (Min (insert v (set ds)))"
proof (induction ds arbitrary: st v)
  case (Cons d ds)
  let ?v = "min v d"
  have eq: "pending (put k d st) k = Some ?v"
    using Cons.prems put_old [of st k v d] by (auto simp: min_def)
  have "pending (put_all k ds (put k d st)) k = Some (Min (insert ?v (set ds)))"
    by (rule Cons.IH [OF eq]) (use Cons.prems in auto)
  also have "Min (insert ?v (set ds)) = Min (insert v (set (d # ds)))"
    by (cases "set ds = {}") (auto simp: min.assoc)
  finally show ?case by simp
qed simp

lemma put_all_then_take_out:
  assumes "pending st k = None" and "ds \<noteq> []" and "\<forall>d \<in> set ds. 0 < d"
  shows "fst (take_out k (put_all k ds st)) = Min (set ds)"
proof -
  from assms(2) obtain d ds' where ds: "ds = d # ds'" by (cases ds) auto
  have "pending (put_all k ds' (put k d st)) k = Some (Min (insert d (set ds')))"
    by (rule put_all_pending) (use assms ds put_new in auto)
  then show ?thesis by (simp add: ds take_out_value)
qed

lemma take_out_twice: "fst (take_out k (snd (take_out k st))) = 0"
  by (simp add: take_out_value take_out_gone)

end

interpretation requeue: duration_store push pop "\<lambda>st. st"
  by unfold_locales (auto simp: push_def pop_def split: option.splits)

lemmas push_laws = requeue.put_new requeue.put_old requeue.put_other
lemmas pop_laws = requeue.take_out_value requeue.take_out_gone requeue.take_out_other

primrec push_all :: "string \<Rightarrow> duration list \<Rightarrow> store \<Rightarrow> store" where
  "push_all k [] st = st"
| "push_all k (d # ds) st = push_all k ds (push k d st)"

lemma push_all_eq: "push_all k ds st = requeue.put_all k ds st"
  by (induction ds arbitrary: st) simp_all

text \<open>
  A pop returns the shortest of the positive durations pushed since the last one.
\<close>

theorem pop_shortest_pushed:
  assumes "st k = None" and "ds \<noteq> []" and "\<forall>d \<in> set ds. 0 < d"
  shows "fst (pop k (push_all k ds st)) = Min (set ds)"
  unfolding push_all_eq using assms by (rule requeue.put_all_then_take_out)

theorem pop_shortest_pushed_witness:
  "fst (pop ''ns/a'' (push_all ''ns/a'' [5, 2, 9] Map.empty)) = 2"
  using pop_shortest_pushed [of Map.empty "''ns/a''" "[5, 2, 9]"] by simp

end
