(* ===== verification/Samples.thy ===== *)
theory Samples
  imports Api_Types
begin

text \<open>
  Concrete objects for the witnesses of the development: an App of three replicas with one
  claim template, its pods, two revisions.  Nothing here models code.
\<close>

definition sample_template :: pod_template where
  "sample_template =
     \<lparr>tm_labels = Some [''app'' \<mapsto> ''nginx''],
      tm_containers = [\<lparr>ctr_name = ''main'', ctr_image = ''nginx:1'', ctr_cpu_milli = 100, ctr_mem_bytes = 64\<rparr>],
      tm_rest = ''''\<rparr>"

definition sample_claim :: pvc where
  "sample_claim =
     \<lparr>pvc_name = ''data'', pvc_namespace = '''', pvc_labels = None, pvc_deletion = None, pvc_rest = ''1Gi''\<rparr>"

definition sample_rolling :: rolling_update where
  "sample_rolling =
     \<lparr>ru_partition = Some 0, ru_max_unavailable = Some (IntVal 1), ru_pod_update_policy = ReCreate,
      ru_paused = False, ru_unordered = False, ru_inplace = None, ru_min_ready_seconds = Some 0\<rparr>"

definition sample_app :: app where
  "sample_app =
     \<lparr>a_name = ''web-site'', a_namespace = ''ns'', a_uid = ''u1'', a_generation = 1, a_deletion = None,
      a_finalizers = [], a_annotations = None,
      a_spec =
        \<lparr>sp_replicas = Some 3,
         sp_template = sample_template,
         sp_selector = Some \<lparr>sel_match_labels = Some [''app'' \<mapsto> ''nginx''], sel_rest = ''''\<rparr>,
         sp_claim_templates = [sample_claim],
         sp_update_strategy = \<lparr>us_type = RollingUpdateType, us_rolling_update = Some sample_rolling\<rparr>,
         sp_service_name = ''svc'', sp_history_limit = Some 2,
         sp_management_policy = OrderedReady\<rparr>,
      a_status = zero_status\<rparr>"

definition blank_pod :: pod where
  "blank_pod =
     \<lparr>p_name = '''', p_namespace = '''', p_labels = None, p_annotations = None, p_deletion = None,
      p_creation = 0, p_volumes = [], p_hostname = '''', p_subdomain = '''', p_containers = [],
      p_readiness_gates = [], p_phase = PhaseUnset, p_conditions = [], p_container_statuses = []\<rparr>"

text \<open>A stand-in for the library's \<open>GetPodFromTemplate\<close>: labels and containers are copied.\<close>

definition sample_from_template :: "pod_template \<Rightarrow> app \<Rightarrow> pod" where
  "sample_from_template t app =
     blank_pod\<lparr>p_labels := tm_labels t, p_containers := tm_containers t, p_namespace := a_namespace app\<rparr>"

definition ready_at :: "gotime \<Rightarrow> pod_condition" where
  "ready_at t = \<lparr>pc_type = pod_ready, pc_status = ConditionTrue, pc_transition = t, pc_reason = ''''\<rparr>"

definition running_pod :: "string \<Rightarrow> string \<Rightarrow> pod" where
  "running_pod name r =
     blank_pod\<lparr>p_name := name, p_namespace := ''ns'', p_phase := PodRunning,
       p_labels := Some [revision_label \<mapsto> r], p_conditions := [ready_at 1]\<rparr>"

definition sample_revision :: "string \<Rightarrow> int64 \<Rightarrow> controller_revision" where
  "sample_revision name n =
     \<lparr>rev_name = name, rev_namespace = ''ns'', rev_labels = None, rev_annotations = None,
      rev_controller = Some ''u1'', rev_data = name, rev_revision = n\<rparr>"

lemmas sample_defs = sample_template_def sample_claim_def sample_rolling_def sample_app_def
  blank_pod_def sample_from_template_def ready_at_def running_pod_def sample_revision_def

lemma sample_app_simps [simp]:
  "a_name sample_app = ''web-site''" "a_namespace sample_app = ''ns''"
  "a_deletion sample_app = None" "a_status sample_app = zero_status"
  "a_generation sample_app = 1" "a_annotations sample_app = None" "a_finalizers sample_app = []"
  "sp_replicas (a_spec sample_app) = Some 3"
  "sp_template (a_spec sample_app) = sample_template"
  "sp_claim_templates (a_spec sample_app) = [sample_claim]"
  "sp_selector (a_spec sample_app) =
     Some \<lparr>sel_match_labels = Some [''app'' \<mapsto> ''nginx''], sel_rest = ''''\<rparr>"
  "strategy sample_app = RollingUpdateType" "rolling sample_app = Some sample_rolling"
  "sp_service_name (a_spec sample_app) = ''svc''" "sp_history_limit (a_spec sample_app) = Some 2"
  "sp_management_policy (a_spec sample_app) = OrderedReady"
  by (simp_all add: sample_app_def)

end
