(* ===== verification/Go_Sort.thy ===== *)
theory Go_Sort
  imports Prelude
begin

text \<open>
  Go's \<open>sort.Sort\<close> for a type that provides \<open>Less\<close>.  The library promises an ascending
  rearrangement when \<open>Less\<close> is a strict weak order and nothing about equal elements; the
  model is the insertion sort the library runs on short slices, one of the permitted
  results.  The locale \<open>sort\_less\<close> is the contract of \<open>Less\<close>.
\<close>

fun insert_by :: "('a \<Rightarrow> 'a \<Rightarrow> bool) \<Rightarrow> 'a \<Rightarrow> 'a list \<Rightarrow> 'a list" where
  "insert_by lt x [] = [x]"
| "insert_by lt x (y # ys) = (if lt x y then x # y # ys else y # insert_by lt x ys)"

definition go_sort :: "('a \<Rightarrow> 'a \<Rightarrow> bool) \<Rightarrow> 'a list \<Rightarrow> 'a list" where
  "go_sort lt xs = fold (insert_by lt) xs []"

lemma mset_insert_by [simp]: "mset (insert_by lt x xs) = add_mset x (mset xs)"
  by (induction xs) auto

lemma set_insert_by [simp]: "set (insert_by lt x xs) = insert x (set xs)"
  by (metis mset_insert_by set_mset_add_mset_insert set_mset_mset)

lemma mset_fold_insert_by: "mset (fold (insert_by lt) xs acc) = mset xs + mset acc"
  by (induction xs arbitrary: acc) auto

lemma mset_go_sort [simp]: "mset (go_sort lt xs) = mset xs"
  by (simp add: go_sort_def mset_fold_insert_by)

lemma set_go_sort [simp]: "set (go_sort lt xs) = set xs"
  by (metis mset_go_sort set_mset_mset)

lemma length_go_sort [simp]: "length (go_sort lt xs) = length xs"
  by (metis mset_go_sort size_mset)

locale strict_order =
  fixes lt :: "'a \<Rightarrow> 'a \<Rightarrow> bool"
  assumes irrefl: "\<not> lt x x"
    and trans: "lt x y \<Longrightarrow> lt y z \<Longrightarrow> lt x z"
begin

lemma asym: "lt x y \<Longrightarrow> \<not> lt y x"
  using irrefl trans by blast

end

text \<open>
  The contract of \<open>sort\<close> and of the queues: moreover incomparable elements are
  interchangeable.
\<close>

locale sort_less = strict_order +
  assumes negatively_trans: "lt x z \<Longrightarrow> lt x y \<or> lt y z"
begin

abbreviation ascending :: "'a list \<Rightarrow> bool" where
  "ascending xs \<equiv> sorted_wrt (\<lambda>x y. \<not> lt y x) xs"

lemma ascending_insert_by: "ascending xs \<Longrightarrow> ascending (insert_by lt x xs)"
  by (induction xs) (auto dest: asym negatively_trans)

lemma ascending_fold: "ascending acc \<Longrightarrow> ascending (fold (insert_by lt) xs acc)"
  by (induction xs arbitrary: acc) (simp_all add: ascending_insert_by)

lemma ascending_go_sort: "ascending (go_sort lt xs)"
  by (simp add: go_sort_def ascending_fold)

end

end
