(* ===== verification/Pod_Identity.thy ===== *)
theory Pod_Identity
  imports Samples Go_Sort "HOL-Library.AList"
begin

text \<open>
  The identity of the pods of an App (\<open>deployer/internal/controller/app/utils.go\<close>): a
  pod is the App's replica number n when it is called \<open>app-n\<close>, lives in the App's
  namespace and carries the owner label; it owns the claims \<open>template-app-n\<close>.  The
  definitions follow the functions of the file one by one.

  A Go map that the code ranges over is an association list with distinct keys; the order
  in which \<open>range\<close> visits it is not specified by the language and is the parameter
  \<open>ord\<close>, of which only \<open>visits\_all\<close> is ever assumed.
\<close>

definition label_pod_owner_app :: string where
  "label_pod_owner_app = ''unicore.mcyou.cn/app-name''"

definition label_pod_ordinal :: string where
  "label_pod_ordinal = ''unicore.mcyou.cn/pod-ordinal''"

section \<open>Names\<close>

definition GetPodAppNameAndOrdinal :: "pod \<Rightarrow> string \<times> int" where
  "GetPodAppNameAndOrdinal pod =
     (let parts = go_split CHR ''-'' (p_name pod) in
      if length parts < 2 then ('''', -1)
      else
        let owner = go_join CHR ''-'' (butlast parts) in
        case atoi (last parts) of
          Some i \<Rightarrow> (owner, i)
        | None \<Rightarrow> ('''', -1))"

abbreviation ordinal :: "pod \<Rightarrow> int" where
  "ordinal pod \<equiv> snd (GetPodAppNameAndOrdinal pod)"

definition getPVCOutName :: "app \<Rightarrow> pvc \<Rightarrow> int \<Rightarrow> string" where
  "getPVCOutName app pvc n = pvc_name pvc @ ''-'' @ a_name app @ ''-'' @ itoa n"

definition getPodOutName :: "app \<Rightarrow> int \<Rightarrow> string" where
  "getPodOutName app n = a_name app @ ''-'' @ itoa n"

definition GetAppKey :: "app \<Rightarrow> string" where
  "GetAppKey app = a_namespace app @ ''/'' @ a_name app"

definition matchAppAndPod :: "app \<Rightarrow> pod \<Rightarrow> bool" where
  "matchAppAndPod app pod =
     (let (appName, n) = GetPodAppNameAndOrdinal pod in
      if n < 0 then False
      else a_name app = appName \<and> p_name pod = getPodOutName app n \<and>
           p_namespace pod = a_namespace app \<and>
           map_get (p_labels pod) label_pod_owner_app = a_name app)"

definition updatePodIdentity :: "app \<Rightarrow> pod \<Rightarrow> pod" where
  "updatePodIdentity app pod =
     (let n = ordinal pod in
      pod\<lparr>p_name := getPodOutName app n,
          p_namespace := a_namespace app,
          p_labels := map_set (map_set (p_labels pod) label_pod_owner_app (a_name app))
                        label_pod_ordinal (itoa n)\<rparr>)"

section \<open>Claims and volumes\<close>

text \<open>
  The map from template name to claim; a later template of the same name overwrites.
  Reading \<open>app.Spec.Selector.MatchLabels\<close> panics when the selector is nil.
\<close>

definition claim_of :: "app \<Rightarrow> label_selector \<Rightarrow> int \<Rightarrow> pvc \<Rightarrow> pvc" where
  "claim_of app sel n t =
     t\<lparr>pvc_name := getPVCOutName app t n,
       pvc_namespace := a_namespace app,
       pvc_labels := sel_match_labels sel\<rparr>"

definition getPVCFromApp :: "app \<Rightarrow> pod \<Rightarrow> (string \<times> pvc) list option" where
  "getPVCFromApp app pod =
     (let n = ordinal pod; ts = sp_claim_templates (a_spec app) in
      if ts = [] then Some []
      else case sp_selector (a_spec app) of
             None \<Rightarrow> None
           | Some sel \<Rightarrow>
               Some (fold (\<lambda>t m. AList.update (pvc_name t) (claim_of app sel n t) m) ts []))"

definition volume_map :: "volume list \<Rightarrow> string \<rightharpoonup> volume" where
  "volume_map vs = fold (\<lambda>v m. m(vol_name v \<mapsto> v)) vs Map.empty"

definition matchAppPVC :: "app \<Rightarrow> pod \<Rightarrow> bool" where
  "matchAppPVC app pod =
     (let n = ordinal pod in
      if n < 0 then False
      else list_all
             (\<lambda>t. case volume_map (p_volumes pod) (pvc_name t) of
                    None \<Rightarrow> False
                  | Some v \<Rightarrow> vol_claim v = Some (getPVCOutName app t n))
             (sp_claim_templates (a_spec app)))"

type_synonym range_order = "(string \<times> pvc) list \<Rightarrow> (string \<times> pvc) list"

definition visits_all :: "range_order \<Rightarrow> bool" where
  "visits_all ord \<longleftrightarrow> (\<forall>m. mset (ord m) = mset m)"

definition claim_volume :: "string \<times> pvc \<Rightarrow> volume" where
  "claim_volume nc = \<lparr>vol_name = fst nc, vol_claim = Some (pvc_name (snd nc)), vol_rest = ''''\<rparr>"

definition updatePodVolume :: "range_order \<Rightarrow> app \<Rightarrow> pod \<Rightarrow> pod option" where
  "updatePodVolume ord app pod =
     do {
       toCreatePVC \<leftarrow> getPVCFromApp app pod;
       let newVolumes = map claim_volume (ord toCreatePVC);
       let kept = filter (\<lambda>v. map_of toCreatePVC (vol_name v) = None) (p_volumes pod);
       Some (pod\<lparr>p_volumes := newVolumes @ kept\<rparr>)
     }"

definition updateVolume :: "range_order \<Rightarrow> app \<Rightarrow> pod \<Rightarrow> pod option" where
  "updateVolume ord app pod =
     do {
       let currentVolumes = p_volumes pod;
       claims \<leftarrow> getPVCFromApp app pod;
       let newVolumes = map claim_volume (ord claims);
       let kept = filter (\<lambda>v. map_of claims (vol_name v) = None) currentVolumes;
       Some (pod\<lparr>p_volumes := newVolumes @ kept\<rparr>)
     }"

text \<open>
  \<open>controller.GetPodFromTemplate\<close> is library code: the parameter \<open>from\_template\<close>.
\<close>

definition newAppPod ::
  "(pod_template \<Rightarrow> app \<Rightarrow> pod) \<Rightarrow> range_order \<Rightarrow> app \<Rightarrow> int \<Rightarrow> pod option" where
  "newAppPod from_template ord app n =
     (let pod = from_template (sp_template (a_spec app)) app;
          pod = pod\<lparr>p_name := getPodOutName app n\<rparr>;
          pod = updatePodIdentity app pod;
          pod = pod\<lparr>p_hostname := p_name pod\<rparr>;
          pod = pod\<lparr>p_subdomain := sp_service_name (a_spec app)\<rparr>
      in updateVolume ord app pod)"

section \<open>Order of pods\<close>

definition descending_less :: "pod \<Rightarrow> pod \<Rightarrow> bool" where
  "descending_less p q \<longleftrightarrow> ordinal p > ordinal q"

interpretation descending: sort_less descending_less
  by unfold_locales (auto simp: descending_less_def)

definition sort_descending :: "pod list \<Rightarrow> pod list" where
  "sort_descending pods = go_sort descending_less pods"

lemma sort_descending_sorted: "sorted_wrt (\<lambda>p q. ordinal p \<ge> ordinal q) (sort_descending pods)"
  using descending.ascending_go_sort [of pods]
  by (simp add: sort_descending_def descending_less_def not_less)

section \<open>Names round-trip\<close>

lemma split_out_name:
  assumes "CHR ''-'' \<notin> set b"
  shows "go_split CHR ''-'' (a @ ''-'' @ b) = go_split CHR ''-'' a @ [b]"
  using go_split_append [OF assms, of a] by simp

lemma ordinal_of_name:
  assumes "p_name pod = a @ ''-'' @ b" and "CHR ''-'' \<notin> set b" and "atoi b = Some n"
  shows "GetPodAppNameAndOrdinal pod = (a, n)"
proof -
  have "length (go_split CHR ''-'' a) \<ge> 1"
    by (cases "go_split CHR ''-'' a") simp_all
  then show ?thesis
    using assms split_out_name [OF assms(2), of a]
    by (simp add: GetPodAppNameAndOrdinal_def go_join_split)
qed

lemma ordinal_of_out_name:
  assumes "p_name pod = getPodOutName app n" and "0 \<le> n" and "n \<le> max_int64"
  shows "GetPodAppNameAndOrdinal pod = (a_name app, n)"
proof (rule ordinal_of_name)
  show "p_name pod = a_name app @ ''-'' @ itoa n"
    using assms(1) by (simp add: getPodOutName_def)
  show "CHR ''-'' \<notin> set (itoa n)" by (rule itoa_no_dash [OF assms(2)])
  show "atoi (itoa n) = Some n"
    by (rule atoi_itoa) (use assms in \<open>simp_all add: min_int64_def\<close>)
qed

lemma go_split_parts_no_sep: "p \<in> set (go_split sep s) \<Longrightarrow> sep \<notin> set p"
proof (induction s arbitrary: p)
  case (Cons c cs)
  then show ?case
    by (cases "go_split sep cs") (fastforce split: if_splits)+
qed simp

text \<open>
  The ordinal is -1 with the empty owner, or it is not negative: the last part of a split
  name holds no minus sign.
\<close>

lemma GetPodAppNameAndOrdinal_cases:
  "GetPodAppNameAndOrdinal pod = ('''', -1) \<or>
   (\<exists>owner n. GetPodAppNameAndOrdinal pod = (owner, n) \<and> 0 \<le> n \<and> n \<le> max_int64)"
proof (cases "length (go_split CHR ''-'' (p_name pod)) < 2")
  case True
  then show ?thesis by (simp add: GetPodAppNameAndOrdinal_def)
next
  case False
  let ?l = "last (go_split CHR ''-'' (p_name pod))"
  show ?thesis
  proof (cases "atoi ?l")
    case None
    with False show ?thesis by (simp add: GetPodAppNameAndOrdinal_def)
  next
    case (Some n)
    have "CHR ''-'' \<notin> set ?l"
      by (rule go_split_parts_no_sep [of _ _ "p_name pod"]) simp
    with Some have "0 \<le> n" by (rule atoi_nonneg)
    moreover from Some have "n \<le> max_int64" by (simp add: atoi_bounds)
    ultimately show ?thesis
      using False Some by (simp add: GetPodAppNameAndOrdinal_def Let_def)
  qed
qed

lemma ordinal_ge_minus_1: "-1 \<le> ordinal pod"
  using GetPodAppNameAndOrdinal_cases [of pod] by auto

lemma ordinal_le_max: "ordinal pod \<le> max_int64"
  using GetPodAppNameAndOrdinal_cases [of pod] by (auto simp: max_int64_def)

lemma ordinal_neg_iff: "ordinal pod < 0 \<longleftrightarrow> GetPodAppNameAndOrdinal pod = ('''', -1)"
  using GetPodAppNameAndOrdinal_cases [of pod] by auto

lemma GetPodAppNameAndOrdinal_cong:
  "p_name p = p_name q \<Longrightarrow> GetPodAppNameAndOrdinal p = GetPodAppNameAndOrdinal q"
  by (simp add: GetPodAppNameAndOrdinal_def)

lemma ordinal_of_updates [simp]:
  "GetPodAppNameAndOrdinal (pod\<lparr>p_namespace := x1\<rparr>) = GetPodAppNameAndOrdinal pod"
  "GetPodAppNameAndOrdinal (pod\<lparr>p_labels := x2\<rparr>) = GetPodAppNameAndOrdinal pod"
  "GetPodAppNameAndOrdinal (pod\<lparr>p_volumes := x3\<rparr>) = GetPodAppNameAndOrdinal pod"
  "GetPodAppNameAndOrdinal (pod\<lparr>p_hostname := x4\<rparr>) = GetPodAppNameAndOrdinal pod"
  "GetPodAppNameAndOrdinal (pod\<lparr>p_subdomain := x5\<rparr>) = GetPodAppNameAndOrdinal pod"
  "GetPodAppNameAndOrdinal (pod\<lparr>p_readiness_gates := x6\<rparr>) = GetPodAppNameAndOrdinal pod"
  by (rule GetPodAppNameAndOrdinal_cong, simp)+

section \<open>Identity\<close>

lemma updatePodIdentity_matches:
  assumes "0 \<le> ordinal pod"
  shows "matchAppAndPod app (updatePodIdentity app pod)"
    and "ordinal (updatePodIdentity app pod) = ordinal pod"
proof -
  have n: "GetPodAppNameAndOrdinal (updatePodIdentity app pod) = (a_name app, ordinal pod)"
    by (rule ordinal_of_out_name)
      (simp_all add: updatePodIdentity_def Let_def assms ordinal_le_max)
  then show "ordinal (updatePodIdentity app pod) = ordinal pod" by simp
  show "matchAppAndPod app (updatePodIdentity app pod)"
    using assms n
    by (simp add: matchAppAndPod_def) (simp add: updatePodIdentity_def Let_def label_pod_owner_app_def
      label_pod_ordinal_def)
qed

section \<open>Volumes\<close>

lemma fold_update_dom:
  "dom (map_of (fold (\<lambda>t m. AList.update (pvc_name t) (f t) m) ts m)) =
     pvc_name ` set ts \<union> dom (map_of m)"
  by (induction ts arbitrary: m) (auto simp: update_conv')

lemma fold_update_distinct:
  "distinct (map fst m) \<Longrightarrow>
     distinct (map fst (fold (\<lambda>t m. AList.update (pvc_name t) (f t) m) ts m))"
  by (induction ts arbitrary: m) (simp_all add: distinct_update)

lemma fold_update_value:
  assumes "\<And>k v. map_of m k = Some v \<Longrightarrow> P k v"
    and "\<And>t. t \<in> set ts \<Longrightarrow> P (pvc_name t) (f t)"
    and "map_of (fold (\<lambda>t m. AList.update (pvc_name t) (f t) m) ts m) k = Some v"
  shows "P k v"
  using assms
proof (induction ts arbitrary: m)
  case (Cons t ts)
  show ?case
  proof (rule Cons.IH)
    show "map_of (AList.update (pvc_name t) (f t) m) k' = Some v' \<Longrightarrow> P k' v'" for k' v'
      using Cons.prems by (auto simp: update_conv' split: if_splits)
    show "map_of (fold (\<lambda>t m. AList.update (pvc_name t) (f t) m) ts
            (AList.update (pvc_name t) (f t) m)) k = Some v"
      using Cons.prems(3) by simp
  qed (use Cons.prems in auto)
qed simp

text \<open>
  What the claim map holds: exactly one claim per template name, called
  \<open>template-app-ordinal\<close>.
\<close>

lemma getPVCFromApp_spec:
  assumes "getPVCFromApp app pod = Some m"
  shows "distinct (map fst m)"
    and "dom (map_of m) = pvc_name ` set (sp_claim_templates (a_spec app))"
    and "map_of m k = Some c \<Longrightarrow> pvc_name c = k @ ''-'' @ a_name app @ ''-'' @ itoa (ordinal pod)"
    and "map_of m k = Some c \<Longrightarrow> pvc_namespace c = a_namespace app"
proof -
  let ?ts = "sp_claim_templates (a_spec app)"
  obtain sel where m: "m = fold (\<lambda>t m. AList.update (pvc_name t) (claim_of app sel (ordinal pod) t) m) ?ts []"
    using assms by (auto simp: getPVCFromApp_def Let_def split: if_splits option.splits)
  show "distinct (map fst m)"
    unfolding m by (rule fold_update_distinct) simp
  show "dom (map_of m) = pvc_name ` set ?ts"
    unfolding m fold_update_dom by simp
  show "map_of m k = Some c \<Longrightarrow> pvc_name c = k @ ''-'' @ a_name app @ ''-'' @ itoa (ordinal pod)"
    unfolding m
    by (rule fold_update_value
          [where P = "\<lambda>k c. pvc_name c = k @ ''-'' @ a_name app @ ''-'' @ itoa (ordinal pod)"])
      (auto simp: claim_of_def getPVCOutName_def)
  show "map_of m k = Some c \<Longrightarrow> pvc_namespace c = a_namespace app"
    unfolding m
    by (rule fold_update_value [where P = "\<lambda>k c. pvc_namespace c = a_namespace app"])
      (auto simp: claim_of_def)
qed

lemma volume_map_append: "volume_map (xs @ ys) = volume_map xs ++ volume_map ys"
proof -
  let ?F = "\<lambda>v m. m(vol_name v \<mapsto> v)"
  have *: "fold ?F ys m = m ++ fold ?F ys Map.empty" for m :: "string \<rightharpoonup> volume" and ys
  proof (induction ys arbitrary: m)
    case (Cons y ys)
    have "fold ?F (y # ys) m = m(vol_name y \<mapsto> y) ++ fold ?F ys Map.empty"
      unfolding fold_simps by (rule Cons.IH)
    also have "\<dots> = m ++ ([vol_name y \<mapsto> y] ++ fold ?F ys Map.empty)"
      unfolding map_add_assoc by simp
    also have "[vol_name y \<mapsto> y] ++ fold ?F ys Map.empty = fold ?F (y # ys) Map.empty"
      unfolding fold_simps by (rule Cons.IH [symmetric])
    finally show ?case .
  qed simp
  show ?thesis
    unfolding volume_map_def fold_append comp_def by (subst *) simp
qed

lemma dom_volume_map: "dom (volume_map vs) = vol_name ` set vs"
proof -
  have "dom (fold (\<lambda>v m. m(vol_name v \<mapsto> v)) vs m) = vol_name ` set vs \<union> dom m"
    for m :: "string \<rightharpoonup> volume"
    by (induction vs arbitrary: m) auto
  then show ?thesis by (simp add: volume_map_def)
qed

lemma volume_map_distinct:
  "distinct (map vol_name vs) \<Longrightarrow> v \<in> set vs \<Longrightarrow> volume_map vs (vol_name v) = Some v"
proof (induction vs rule: rev_induct)
  case (snoc x xs)
  then show ?case
    by (auto simp: volume_map_def image_iff)
qed simp

text \<open>The volumes after an update: one per claim, then the pod's other volumes in order.\<close>

lemma claim_volumes_distinct:
  assumes "distinct (map fst m)" and "mset m' = mset m"
  shows "distinct (map vol_name (map claim_volume m'))"
proof -
  have "mset (map fst m') = mset (map fst m)" using assms(2) by simp
  then have "distinct (map fst m')" using assms(1) mset_eq_imp_distinct_iff by blast
  then show ?thesis by (simp add: claim_volume_def comp_def)
qed

lemma updateVolume_found:
  assumes "visits_all ord" and "distinct (map fst m)" and "map_of m name = Some c"
  shows "volume_map (map claim_volume (ord m) @ filter (\<lambda>v. map_of m (vol_name v) = None) vs) name =
    Some (claim_volume (name, c))"
proof -
  have ord: "mset (ord m) = mset m" using assms(1) by (simp add: visits_all_def)
  with assms(3) have "claim_volume (name, c) \<in> set (map claim_volume (ord m))"
    by (auto dest: map_of_SomeD mset_eq_setD)
  from volume_map_distinct [OF claim_volumes_distinct [OF assms(2) ord] this]
  have "volume_map (map claim_volume (ord m)) name = Some (claim_volume (name, c))"
    by (simp add: claim_volume_def)
  moreover have "name \<notin> dom (volume_map (filter (\<lambda>v. map_of m (vol_name v) = None) vs))"
    using assms(3) by (auto simp: dom_volume_map)
  then have "volume_map (filter (\<lambda>v. map_of m (vol_name v) = None) vs) name = None" by blast
  ultimately show ?thesis by (simp add: volume_map_append map_add_def)
qed

lemma updateVolume_spec:
  assumes "updateVolume ord app pod = Some pod'" and "visits_all ord"
  shows "matchAppPVC app pod' \<longleftrightarrow> 0 \<le> ordinal pod"
    and "\<exists>m. getPVCFromApp app pod = Some m \<and>
           p_volumes pod' = map claim_volume (ord m) @
             filter (\<lambda>v. vol_name v \<notin> pvc_name ` set (sp_claim_templates (a_spec app))) (p_volumes pod)"
    and "pod' = pod\<lparr>p_volumes := p_volumes pod'\<rparr>"
proof -
  let ?ts = "sp_claim_templates (a_spec app)"
  obtain m where m: "getPVCFromApp app pod = Some m"
    and pod': "pod' = pod\<lparr>p_volumes := map claim_volume (ord m) @
                 filter (\<lambda>v. map_of m (vol_name v) = None) (p_volumes pod)\<rparr>"
    using assms(1) by (auto simp: updateVolume_def bind_eq_Some_conv)
  note spec = getPVCFromApp_spec [OF m]
  have kept: "(map_of m (vol_name v) = None) = (vol_name v \<notin> pvc_name ` set ?ts)" for v
    using spec(2) by (metis domIff)
  show "\<exists>m. getPVCFromApp app pod = Some m \<and>
           p_volumes pod' = map claim_volume (ord m) @
             filter (\<lambda>v. vol_name v \<notin> pvc_name ` set ?ts) (p_volumes pod)"
    by (rule exI [of _ m]) (simp add: pod' kept m)
  show "pod' = pod\<lparr>p_volumes := p_volumes pod'\<rparr>" by (simp add: pod')
  have found: "\<exists>c. volume_map (p_volumes pod') (pvc_name t) = Some (claim_volume (pvc_name t, c)) \<and>
      map_of m (pvc_name t) = Some c" if "t \<in> set ?ts" for t
  proof -
    from that spec(2) obtain c where c: "map_of m (pvc_name t) = Some c" by blast
    from updateVolume_found [OF assms(2) spec(1) c] show ?thesis using c by (simp add: pod')
  qed
  have ord': "ordinal pod' = ordinal pod" by (simp add: pod')
  show "matchAppPVC app pod' \<longleftrightarrow> 0 \<le> ordinal pod"
  proof
    assume "0 \<le> ordinal pod"
    then show "matchAppPVC app pod'"
      unfolding matchAppPVC_def Let_def ord'
      using found spec(3) by (fastforce simp: list_all_iff claim_volume_def getPVCOutName_def)
  qed (simp add: matchAppPVC_def Let_def ord' split: if_splits)
qed

lemma updatePodVolume_eq: "updatePodVolume ord app pod = updateVolume ord app pod"
  by (simp add: updatePodVolume_def updateVolume_def)

lemma getPVCFromApp_total:
  "getPVCFromApp app pod \<noteq> None \<longleftrightarrow>
     sp_claim_templates (a_spec app) = [] \<or> sp_selector (a_spec app) \<noteq> None"
  by (auto simp: getPVCFromApp_def Let_def split: option.splits)

section \<open>Properties\<close>

text \<open>
  Names round-trip: the pod that is named for an App's ordinal is read back as that
  App's and that ordinal's, dashes in the App's name included.
\<close>

theorem pod_name_roundtrip:
  assumes "0 \<le> n" and "n \<le> max_int64"
  shows "GetPodAppNameAndOrdinal (pod\<lparr>p_name := getPodOutName app n\<rparr>) = (a_name app, n)"
  by (rule ordinal_of_out_name) (simp_all add: assms)

theorem pod_name_roundtrip_witness:
  "GetPodAppNameAndOrdinal (blank_pod\<lparr>p_name := getPodOutName sample_app 12\<rparr>) = (''web-site'', 12)"
  using pod_name_roundtrip [where n = 12 and pod = blank_pod and app = sample_app]
  by (simp add: max_int64_def)

text \<open>
  A pod created for an ordinal is a member of the App: it has the App's identity and
  that ordinal, and for every claim template a volume bound to the ordinal's claim; the
  creation panics exactly when there are templates and no selector.
\<close>

theorem newAppPod_is_member:
  assumes "0 \<le> n" and "n \<le> max_int64" and "visits_all ord"
  shows "case newAppPod ft ord app n of
           None \<Rightarrow> sp_claim_templates (a_spec app) \<noteq> [] \<and> sp_selector (a_spec app) = None
         | Some p \<Rightarrow> matchAppAndPod app p \<and> matchAppPVC app p \<and>
             GetPodAppNameAndOrdinal p = (a_name app, n) \<and>
             p_hostname p = getPodOutName app n \<and> p_subdomain p = sp_service_name (a_spec app)"
proof -
  let ?q = "(ft (sp_template (a_spec app)) app)\<lparr>p_name := getPodOutName app n\<rparr>"
  let ?i = "updatePodIdentity app ?q"
  let ?r = "?i\<lparr>p_hostname := p_name ?i, p_subdomain := sp_service_name (a_spec app)\<rparr>"
  have q: "GetPodAppNameAndOrdinal ?q = (a_name app, n)"
    by (rule ordinal_of_out_name) (simp_all add: assms)
  then have i: "matchAppAndPod app ?i" "ordinal ?i = n"
    using updatePodIdentity_matches [of ?q app] assms by simp_all
  have name: "p_name ?i = getPodOutName app n"
    using q by (simp add: updatePodIdentity_def Let_def)
  have i_pair: "GetPodAppNameAndOrdinal ?i = (a_name app, n)"
    by (rule ordinal_of_out_name) (simp_all add: name assms)
  have new: "newAppPod ft ord app n = updateVolume ord app ?r"
    by (simp add: newAppPod_def Let_def)
  show ?thesis
  proof (cases "updateVolume ord app ?r")
    case None
    then show ?thesis
      using getPVCFromApp_total [of app ?r] by (auto simp: new updateVolume_def bind_eq_None_conv)
  next
    case (Some p)
    note spec = updateVolume_spec [OF Some assms(3)]
    have p: "GetPodAppNameAndOrdinal p = (a_name app, n)" "p_hostname p = getPodOutName app n"
      "p_subdomain p = sp_service_name (a_spec app)" "p_name p = p_name ?i"
      "p_namespace p = p_namespace ?i" "p_labels p = p_labels ?i"
      by (subst spec(3), simp add: i_pair name)+
    then show ?thesis
      using Some spec(1) assms(1) i i_pair by (simp add: new matchAppAndPod_def)
  qed
qed

theorem newAppPod_is_member_witness:
  "visits_all (\<lambda>m. m) \<and>
   (\<exists>p. newAppPod sample_from_template (\<lambda>m. m) sample_app 2 = Some p \<and> matchAppPVC sample_app p \<and>
        p_name p = ''web-site-2'')"
proof -
  have v: "visits_all (\<lambda>m. m)" by (simp add: visits_all_def)
  have some: "newAppPod sample_from_template (\<lambda>m. m) sample_app 2 \<noteq> None"
    using newAppPod_is_member [where n = 2 and ord = "\<lambda>m. m" and ft = sample_from_template and app = sample_app] v
    by (auto simp: max_int64_def split: option.splits)
  then obtain p where p: "newAppPod sample_from_template (\<lambda>m. m) sample_app 2 = Some p" by blast
  then have "matchAppPVC sample_app p \<and> matchAppAndPod sample_app p \<and>
      GetPodAppNameAndOrdinal p = (''web-site'', 2)"
    using newAppPod_is_member [where n = 2 and ord = "\<lambda>m. m" and ft = sample_from_template and app = sample_app] v
    by (simp add: max_int64_def)
  moreover from this have "p_name p = getPodOutName sample_app 2"
    by (auto simp: matchAppAndPod_def)
  moreover have "getPodOutName sample_app 2 = ''web-site-2''"
    by (simp add: getPodOutName_def itoa_def nat_dec.simps)
  ultimately show ?thesis using v p by (intro conjI exI [of _ p]) simp_all
qed

end
