(* ===== verification/Pod_Status.thy ===== *)
theory Pod_Status
  imports Pod_Identity
begin

text \<open>
  Readiness, availability and the counters of an App's status:
  \<open>deployer/internal/controller/app/utils.go\<close> (from \<open>getMinReadySeconds\<close> on) and
  \<open>replica\_status.go\<close>.  The counters are 32-bit words, as in the API; the abstract view
  is the number of pods that satisfy a predicate, and the lemmas under \<open>count\_simps\<close>
  connect the two.  The clock is the argument \<open>now\<close>.
\<close>

section \<open>Readiness and availability\<close>

definition getMinReadySeconds :: "app \<Rightarrow> int32" where
  "getMinReadySeconds app =
     (case rolling app of
        None \<Rightarrow> 0
      | Some ru \<Rightarrow> (case ru_min_ready_seconds ru of None \<Rightarrow> 0 | Some n \<Rightarrow> n))"

text \<open>A nil pod is not ready; the loop looks for a condition of type Ready.\<close>

definition getPodReady :: "pod option \<Rightarrow> bool" where
  "getPodReady po =
     (case po of
        None \<Rightarrow> False
      | Some pod \<Rightarrow> list_ex (\<lambda>c. pc_type c = pod_ready) (p_conditions pod))"

definition getPodReadyCondition :: "pod option \<Rightarrow> pod_condition option" where
  "getPodReadyCondition po =
     (case po of
        None \<Rightarrow> None
      | Some pod \<Rightarrow> first_match (\<lambda>c. pc_type c = pod_ready) (p_conditions pod))"

definition getPodAvailable :: "gotime \<Rightarrow> pod option \<Rightarrow> int32 \<Rightarrow> bool" where
  "getPodAvailable now pod minReadySeconds =
     (case getPodReadyCondition pod of
        None \<Rightarrow> False
      | Some c \<Rightarrow>
          if minReadySeconds = 0 \<or> time_is_zero (pc_transition c) then False
          else time_before (time_add (pc_transition c) (seconds32 minReadySeconds)) now)"

definition getPodRevision :: "pod \<Rightarrow> string" where
  "getPodRevision pod = map_get (p_labels pod) revision_label"

definition getPodAvailableAndNextCheckInterval :: "gotime \<Rightarrow> pod \<Rightarrow> int32 \<Rightarrow> bool \<times> duration" where
  "getPodAvailableAndNextCheckInterval now pod minReadySeconds =
     (if p_phase pod \<noteq> PodRunning \<or> \<not> getPodReady (Some pod) then (False, 0)
      else
        let minReadyDuration = seconds32 minReadySeconds in
        if minReadyDuration = 0 then (True, 0)
        else case getPodReadyCondition (Some pod) of
               None \<Rightarrow> (False, 0)
             | Some c \<Rightarrow>
                 if time_is_zero (pc_transition c) then (False, minReadyDuration)
                 else
                   let interval = time_sub (time_add (pc_transition c) minReadyDuration) now in
                   if 0 < interval then (False, interval) else (True, 0))"

text \<open>
  The condition the last function dereferences is there: a ready pod has one, so the
  \<open>None\<close> branch above is never taken.
\<close>

lemma ready_condition_exists:
  "getPodReady po \<longleftrightarrow> (\<exists>c. getPodReadyCondition po = Some c)"
proof (cases po)
  case (Some pod)
  show ?thesis
    using first_match_None [of "\<lambda>c. pc_type c = pod_ready" "p_conditions pod"]
    by (cases "first_match (\<lambda>c. pc_type c = pod_ready) (p_conditions pod)")
      (auto simp: Some getPodReady_def getPodReadyCondition_def list_ex_iff)
qed (simp add: getPodReady_def getPodReadyCondition_def)

section \<open>Counting replicas\<close>

record replica_status =
  rs_replicas :: int32
  rs_ready :: int32
  rs_available :: int32
  rs_current :: int32
  rs_updated :: int32
  rs_updated_ready :: int32
  rs_updated_available :: int32

definition zero_replica_status :: replica_status where
  "zero_replica_status =
     \<lparr>rs_replicas = 0, rs_ready = 0, rs_available = 0, rs_current = 0, rs_updated = 0,
      rs_updated_ready = 0, rs_updated_available = 0\<rparr>"

text \<open>One round of the loop of \<open>calcReplicaStatus\<close>, its four statements in order.\<close>

definition calc_pod ::
  "gotime \<Rightarrow> int32 \<Rightarrow> controller_revision \<Rightarrow> controller_revision \<Rightarrow> pod \<Rightarrow> replica_status \<Rightarrow> replica_status"
  where
  "calc_pod now mrs cur upd pod r =
     (let r = (if p_phase pod \<noteq> PhaseUnset then r\<lparr>rs_replicas := rs_replicas r + 1\<rparr> else r);
          r = (if p_phase pod = PodRunning \<and> getPodReady (Some pod) then
                 let r = r\<lparr>rs_ready := rs_ready r + 1\<rparr>;
                     r = (if p_labels pod \<noteq> None \<and> map_get (p_labels pod) revision_label = rev_name upd then
                            let r = r\<lparr>rs_updated_ready := rs_updated_ready r + 1\<rparr> in
                            if getPodAvailable now (Some pod) mrs
                            then r\<lparr>rs_updated_available := rs_updated_available r + 1\<rparr> else r
                          else r)
                 in if getPodAvailable now (Some pod) mrs
                    then r\<lparr>rs_available := rs_available r + 1\<rparr> else r
               else r)
      in if p_phase pod \<noteq> PhaseUnset \<and> p_deletion pod = None then
           let revision = getPodRevision pod;
               r = (if revision = rev_name cur then r\<lparr>rs_current := rs_current r + 1\<rparr> else r)
           in if revision = rev_name upd then r\<lparr>rs_updated := rs_updated r + 1\<rparr> else r
         else r)"

fun calc_loop ::
  "gotime \<Rightarrow> int32 \<Rightarrow> controller_revision \<Rightarrow> controller_revision \<Rightarrow> pod option list \<Rightarrow> replica_status \<Rightarrow> replica_status"
  where
  "calc_loop now mrs cur upd [] r = r"
| "calc_loop now mrs cur upd (None # ps) r = calc_loop now mrs cur upd ps r"
| "calc_loop now mrs cur upd (Some p # ps) r = calc_loop now mrs cur upd ps (calc_pod now mrs cur upd p r)"

definition calcReplicaStatus ::
  "gotime \<Rightarrow> pod option list \<Rightarrow> int32 \<Rightarrow> controller_revision \<Rightarrow> controller_revision \<Rightarrow> replica_status"
  where
  "calcReplicaStatus now pods mrs cur upd = calc_loop now mrs cur upd pods zero_replica_status"

text \<open>The body of the loop of \<open>updateStatus\<close> over its pod lists, and the whole function.\<close>

definition add_replica_status :: "replica_status \<Rightarrow> app_status \<Rightarrow> app_status" where
  "add_replica_status r st =
     st\<lparr>st_replicas := st_replicas st + rs_replicas r,
        st_ready := st_ready st + rs_ready r,
        st_available := st_available st + rs_available r,
        st_updated_available := st_updated_available st + rs_updated_available r,
        st_updated_ready := st_updated_ready st + rs_updated_ready r,
        st_updated := st_updated st + rs_updated r,
        st_current := st_current st + rs_current r\<rparr>"

definition updateStatus ::
  "gotime \<Rightarrow> app_status \<Rightarrow> int32 \<Rightarrow> controller_revision \<Rightarrow> controller_revision \<Rightarrow>
   pod option list list \<Rightarrow> app_status" where
  "updateStatus now st mrs cur upd podLists =
     (let st = st\<lparr>st_replicas := 0, st_ready := 0, st_available := 0, st_current := 0,
                  st_updated := 0, st_updated_available := 0\<rparr>
      in fold (\<lambda>pods st. add_replica_status (calcReplicaStatus now pods mrs cur upd) st) podLists st)"

section \<open>The counters count\<close>

definition present :: "pod option list \<Rightarrow> pod list" where
  "present ps = map the (filter (\<lambda>p. p \<noteq> None) ps)"

lemma present_simps [simp]:
  "present [] = []" "present (None # ps) = present ps" "present (Some p # ps) = p # present ps"
  "present (ps @ qs) = present ps @ present qs" "present (map Some xs) = xs"
proof -
  show "present (map Some xs) = xs" by (induction xs) (simp_all add: present_def)
qed (simp_all add: present_def)

lemma length_present: "length (present ps) \<le> length ps"
  by (simp add: present_def)

definition created :: "pod \<Rightarrow> bool" where
  "created p \<longleftrightarrow> p_phase p \<noteq> PhaseUnset"

definition running_ready :: "pod \<Rightarrow> bool" where
  "running_ready p \<longleftrightarrow> p_phase p = PodRunning \<and> getPodReady (Some p)"

definition ready_available :: "gotime \<Rightarrow> int32 \<Rightarrow> pod \<Rightarrow> bool" where
  "ready_available now mrs p \<longleftrightarrow> running_ready p \<and> getPodAvailable now (Some p) mrs"

definition live_at :: "controller_revision \<Rightarrow> pod \<Rightarrow> bool" where
  "live_at r p \<longleftrightarrow> created p \<and> p_deletion p = None \<and> getPodRevision p = rev_name r"

definition ready_at_rev :: "controller_revision \<Rightarrow> pod \<Rightarrow> bool" where
  "ready_at_rev r p \<longleftrightarrow> running_ready p \<and> p_labels p \<noteq> None \<and> getPodRevision p = rev_name r"

definition available_at_rev :: "gotime \<Rightarrow> int32 \<Rightarrow> controller_revision \<Rightarrow> pod \<Rightarrow> bool" where
  "available_at_rev now mrs r p \<longleftrightarrow> ready_at_rev r p \<and> getPodAvailable now (Some p) mrs"

lemmas pod_predicates = created_def running_ready_def ready_available_def live_at_def
  ready_at_rev_def available_at_rev_def

definition count_of :: "(pod \<Rightarrow> bool) \<Rightarrow> pod list \<Rightarrow> int32" where
  "count_of P ps = of_nat (length (filter P ps))"

lemma count_of_simps [simp]:
  "count_of P [] = 0"
  "count_of P (p # ps) = (if P p then 1 else 0) + count_of P ps"
  "count_of P (ps @ qs) = count_of P ps + count_of P qs"
  by (simp_all add: count_of_def)

lemma calc_pod_counts [count_simps]:
  "rs_replicas (calc_pod now mrs cur upd p r) = rs_replicas r + (if created p then 1 else 0)"
  "rs_ready (calc_pod now mrs cur upd p r) = rs_ready r + (if running_ready p then 1 else 0)"
  "rs_available (calc_pod now mrs cur upd p r) =
     rs_available r + (if ready_available now mrs p then 1 else 0)"
  "rs_current (calc_pod now mrs cur upd p r) = rs_current r + (if live_at cur p then 1 else 0)"
  "rs_updated (calc_pod now mrs cur upd p r) = rs_updated r + (if live_at upd p then 1 else 0)"
  "rs_updated_ready (calc_pod now mrs cur upd p r) =
     rs_updated_ready r + (if ready_at_rev upd p then 1 else 0)"
  "rs_updated_available (calc_pod now mrs cur upd p r) =
     rs_updated_available r + (if available_at_rev now mrs upd p then 1 else 0)"
  by (auto simp: calc_pod_def Let_def pod_predicates getPodRevision_def)

lemma calc_loop_counts [count_simps]:
  "rs_replicas (calc_loop now mrs cur upd ps r) = rs_replicas r + count_of created (present ps)"
  "rs_ready (calc_loop now mrs cur upd ps r) = rs_ready r + count_of running_ready (present ps)"
  "rs_available (calc_loop now mrs cur upd ps r) =
     rs_available r + count_of (ready_available now mrs) (present ps)"
  "rs_current (calc_loop now mrs cur upd ps r) = rs_current r + count_of (live_at cur) (present ps)"
  "rs_updated (calc_loop now mrs cur upd ps r) = rs_updated r + count_of (live_at upd) (present ps)"
  "rs_updated_ready (calc_loop now mrs cur upd ps r) =
     rs_updated_ready r + count_of (ready_at_rev upd) (present ps)"
  "rs_updated_available (calc_loop now mrs cur upd ps r) =
     rs_updated_available r + count_of (available_at_rev now mrs upd) (present ps)"
  by (induction now mrs cur upd ps r rule: calc_loop.induct) (simp_all add: count_simps)

lemma calcReplicaStatus_counts [count_simps]:
  "rs_replicas (calcReplicaStatus now ps mrs cur upd) = count_of created (present ps)"
  "rs_ready (calcReplicaStatus now ps mrs cur upd) = count_of running_ready (present ps)"
  "rs_available (calcReplicaStatus now ps mrs cur upd) = count_of (ready_available now mrs) (present ps)"
  "rs_current (calcReplicaStatus now ps mrs cur upd) = count_of (live_at cur) (present ps)"
  "rs_updated (calcReplicaStatus now ps mrs cur upd) = count_of (live_at upd) (present ps)"
  "rs_updated_ready (calcReplicaStatus now ps mrs cur upd) = count_of (ready_at_rev upd) (present ps)"
  "rs_updated_available (calcReplicaStatus now ps mrs cur upd) =
     count_of (available_at_rev now mrs upd) (present ps)"
  by (simp_all add: calcReplicaStatus_def zero_replica_status_def count_simps)

section \<open>The status counts the pods of all lists\<close>

abbreviation add_all ::
  "gotime \<Rightarrow> int32 \<Rightarrow> controller_revision \<Rightarrow> controller_revision \<Rightarrow> pod option list list \<Rightarrow> app_status \<Rightarrow> app_status"
  where
  "add_all now mrs cur upd pss st \<equiv>
     fold (\<lambda>pods st. add_replica_status (calcReplicaStatus now pods mrs cur upd) st) pss st"

lemma fold_add_replica_status:
  "st_replicas (add_all now mrs cur upd pss st) =
     st_replicas st + count_of created (concat (map present pss))"
    "st_ready (add_all now mrs cur upd pss st) =
     st_ready st + count_of running_ready (concat (map present pss))"
    "st_available (add_all now mrs cur upd pss st) =
     st_available st + count_of (ready_available now mrs) (concat (map present pss))"
    "st_current (add_all now mrs cur upd pss st) =
     st_current st + count_of (live_at cur) (concat (map present pss))"
    "st_updated (add_all now mrs cur upd pss st) =
     st_updated st + count_of (live_at upd) (concat (map present pss))"
    "st_updated_ready (add_all now mrs cur upd pss st) =
     st_updated_ready st + count_of (ready_at_rev upd) (concat (map present pss))"
    "st_updated_available (add_all now mrs cur upd pss st) =
     st_updated_available st + count_of (available_at_rev now mrs upd) (concat (map present pss))"
  by (induction pss arbitrary: st) (simp_all add: add_replica_status_def count_simps)

lemma fold_add_replica_status_frame:
  "st_observed_generation (add_all now mrs cur upd pss st) = st_observed_generation st"
  "st_current_revision (add_all now mrs cur upd pss st) = st_current_revision st"
  "st_update_revision (add_all now mrs cur upd pss st) = st_update_revision st"
  "st_conditions (add_all now mrs cur upd pss st) = st_conditions st"
  "st_label_selector (add_all now mrs cur upd pss st) = st_label_selector st"
  "st_collision_count (add_all now mrs cur upd pss st) = st_collision_count st"
  "st_volume_claims (add_all now mrs cur upd pss st) = st_volume_claims st"
  by (induction pss arbitrary: st) (simp_all add: add_replica_status_def)

lemma updateStatus_simps [count_simps]:
  "st_replicas (updateStatus now st mrs cur upd pss) = count_of created (concat (map present pss))"
    "st_ready (updateStatus now st mrs cur upd pss) = count_of running_ready (concat (map present pss))"
    "st_available (updateStatus now st mrs cur upd pss) = count_of (ready_available now mrs) (concat (map present pss))"
    "st_current (updateStatus now st mrs cur upd pss) = count_of (live_at cur) (concat (map present pss))"
    "st_updated (updateStatus now st mrs cur upd pss) = count_of (live_at upd) (concat (map present pss))"
    "st_updated_ready (updateStatus now st mrs cur upd pss) = st_updated_ready st + count_of (ready_at_rev upd) (concat (map present pss))"
    "st_updated_available (updateStatus now st mrs cur upd pss) = count_of (available_at_rev now mrs upd) (concat (map present pss))"
  unfolding updateStatus_def Let_def
  by (simp_all add: fold_add_replica_status)

lemma updateStatus_frame [frame_simps]:
  "st_observed_generation (updateStatus now st mrs cur upd pss) = st_observed_generation st"
  "st_current_revision (updateStatus now st mrs cur upd pss) = st_current_revision st"
  "st_update_revision (updateStatus now st mrs cur upd pss) = st_update_revision st"
  "st_conditions (updateStatus now st mrs cur upd pss) = st_conditions st"
  "st_label_selector (updateStatus now st mrs cur upd pss) = st_label_selector st"
  "st_collision_count (updateStatus now st mrs cur upd pss) = st_collision_count st"
  "st_volume_claims (updateStatus now st mrs cur upd pss) = st_volume_claims st"
  by (simp_all add: updateStatus_def Let_def fold_add_replica_status_frame)


section \<open>Properties\<close>

text \<open>
  The status counts: each counter is the number of pods of the lists that satisfy its
  predicate (created; running and ready; available; live at the current, at the update
  revision).  The counter of updated ready pods is the exception, it is added to what the
  status held; the other fields are kept.
\<close>

theorem updateStatus_counts:
  "updateStatus now st mrs cur upd pss =
     st\<lparr>st_replicas := count_of created (concat (map present pss)),
                   st_ready := count_of running_ready (concat (map present pss)),
                   st_available := count_of (ready_available now mrs) (concat (map present pss)),
                   st_current := count_of (live_at cur) (concat (map present pss)),
                   st_updated := count_of (live_at upd) (concat (map present pss)),
                   st_updated_ready := st_updated_ready st + count_of (ready_at_rev upd) (concat (map present pss)),
                   st_updated_available := count_of (available_at_rev now mrs upd) (concat (map present pss))\<rparr>"
  by (rule app_status.equality)
    (simp_all add: count_simps frame_simps)



text \<open>
  Two updates of one status, as one pass of the controller makes, count every updated
  ready pod twice: the counter is not reset between them.
\<close>

theorem updated_ready_counted_twice:
  "st_updated_ready
     (updateStatus now2 (updateStatus now1 zero_status mrs cur upd [pods]) mrs cur upd [pods]) =
   2 * count_of (ready_at_rev upd) (present pods)"
  by (simp add: count_simps zero_status_def)

text \<open>
  At the default of zero seconds the two notions of availability disagree on every
  running pod with a Ready condition: the one that drives the rollout says available now, the
  one that is counted says never, and the status shows no available replica.
\<close>

theorem availability_disagrees_at_zero:
  assumes "running_ready p"
  shows "getPodAvailableAndNextCheckInterval now p 0 = (True, 0) \<and>
         \<not> getPodAvailable now (Some p) 0 \<and>
         st_available (updateStatus now st 0 cur upd pss) = 0"
proof -
  have never: "\<not> getPodAvailable now po 0" for po
    by (simp add: getPodAvailable_def split: option.splits)
  then have "filter (ready_available now 0) ps = []" for ps
    by (simp add: ready_available_def filter_empty_conv)
  with never show ?thesis
    using assms
    by (simp add: getPodAvailableAndNextCheckInterval_def running_ready_def count_simps count_of_def)
qed

theorem availability_disagrees_at_zero_witness:
  "running_ready (running_pod ''w-0'' ''r'') \<and>
   getPodAvailableAndNextCheckInterval 5 (running_pod ''w-0'' ''r'') 0 = (True, 0)"
proof -
  have r: "running_ready (running_pod ''w-0'' ''r'')"
    by (simp add: running_ready_def getPodReady_def sample_defs pod_ready_def)
  show ?thesis
    using r availability_disagrees_at_zero [OF r, where now = 5] by simp
qed

text \<open>
  The check interval is enough: when a running ready pod is told to be checked again
  after a positive interval, it is available at any time that lies that interval or more
  ahead, provided its readiness did not change and its transition time is set and not in the
  future.
\<close>

theorem check_interval_sufficient:
  assumes "getPodAvailableAndNextCheckInterval now p mrs = (False, d)" and "0 < d"
    and "getPodReadyCondition (Some p) = Some c" and "pc_transition c \<noteq> 0" and "pc_transition c \<le> now"
    and "now + d \<le> later"
  shows "getPodAvailableAndNextCheckInterval later p mrs = (True, 0)"
proof -
  let ?due = "pc_transition c + seconds32 mrs"
  have run: "p_phase p = PodRunning" "getPodReady (Some p)" and "mrs \<noteq> 0"
    using assms(1,2) by (auto simp: getPodAvailableAndNextCheckInterval_def split: if_splits)
  with assms have "d = time_sub ?due now"
    by (simp add: getPodAvailableAndNextCheckInterval_def Let_def time_defs split: if_splits)
  moreover have "?due - now \<le> max_int64"
    using seconds32_in_int64(2) [of mrs] assms(5) by linarith
  ultimately have "?due - now \<le> d"
    by (simp add: time_sub_def)
  then have "\<not> 0 < time_sub ?due later"
    using assms(6) by simp
  with run \<open>mrs \<noteq> 0\<close> assms(3,4) show ?thesis
    by (simp add: getPodAvailableAndNextCheckInterval_def Let_def time_defs)
qed

theorem check_interval_sufficient_witness:
  "getPodAvailableAndNextCheckInterval 10 (running_pod ''w-0'' ''r'') 3 = (False, 2999999991) \<and>
   getPodAvailableAndNextCheckInterval (10 + 2999999991) (running_pod ''w-0'' ''r'') 3 = (True, 0)"
proof -
  have c: "getPodReadyCondition (Some (running_pod ''w-0'' ''r'')) = Some (ready_at 1)"
    by (simp add: getPodReadyCondition_def sample_defs pod_ready_def)
  have s: "getPodAvailableAndNextCheckInterval 10 (running_pod ''w-0'' ''r'') 3 = (False, 2999999991)"
    by (simp add: getPodAvailableAndNextCheckInterval_def c Let_def)
      (simp add: getPodReady_def sample_defs pod_ready_def time_defs time_sub_def seconds32_def
        second_def min_int64_def max_int64_def)
  show ?thesis
    using s check_interval_sufficient [OF s _ c, where later = "10 + 2999999991"]
    by (simp add: ready_at_def)
qed

end
