(* ===== verification/App_Status.thy ===== *)
theory App_Status
  imports Pod_Status
begin

text \<open>
  The pure parts of \<open>deployer/internal/controller/app/state\_controller.go\<close>: conditions of
  an App's status, when a status is written at all, the end of a rolling update, the defaults
  of the rolling-update strategy, and at which revision a missing pod is created.
\<close>

section \<open>Conditions\<close>

definition getAppConditionFromType :: "app_status \<Rightarrow> string \<Rightarrow> app_condition option" where
  "getAppConditionFromType st condType = first_match (\<lambda>c. ac_type c = condType) (st_conditions st)"

definition setAppCondition :: "app_status \<Rightarrow> app_condition \<Rightarrow> app_status" where
  "setAppCondition st condition =
     (let currentCondition = getAppConditionFromType st (ac_type condition);
          append = (\<lambda>condition.
            st\<lparr>st_conditions := filter (\<lambda>c. ac_type c \<noteq> ac_type condition) (st_conditions st) @ [condition]\<rparr>)
      in case currentCondition of
           None \<Rightarrow> append condition
         | Some cur \<Rightarrow>
             if ac_status cur = ac_status condition \<and> ac_reason cur = ac_reason condition then st
             else if ac_status cur = ac_status condition
             then append (condition\<lparr>ac_transition := ac_transition cur\<rparr>)
             else append condition)"

section \<open>Writing the status\<close>

definition vc_index :: "vc_status list \<Rightarrow> string \<rightharpoonup> vc_status" where
  "vc_index vs = fold (\<lambda>v m. m(vc_name v \<mapsto> v)) vs Map.empty"

definition statusConsistent :: "app \<Rightarrow> app_status \<Rightarrow> bool" where
  "statusConsistent app st =
     (let old = a_status app in
      if sint (st_observed_generation old) < sint (st_observed_generation st) \<or>
         st_replicas st \<noteq> st_replicas old \<or> st_current st \<noteq> st_current old \<or>
         st_ready st \<noteq> st_ready old \<or> st_available st \<noteq> st_available old \<or>
         st_updated st \<noteq> st_updated old \<or>
         st_current_revision st \<noteq> st_current_revision old \<or>
         st_update_revision st \<noteq> st_update_revision old \<or>
         st_label_selector st \<noteq> st_label_selector old
      then False
      else list_all
             (\<lambda>v. case vc_index (st_volume_claims st) (vc_name v) of
                    None \<Rightarrow> False
                  | Some w \<Rightarrow> vc_compatible w = vc_compatible v \<and>
                              vc_compatible_ready w = vc_compatible_ready v)
             (st_volume_claims old))"

definition completeRollingUpdate :: "app \<Rightarrow> app_status \<Rightarrow> app_status" where
  "completeRollingUpdate app st =
     (if strategy app = RollingUpdateType \<and> st_updated st = st_replicas st \<and> st_ready st = st_replicas st
      then st\<lparr>st_current := st_updated st, st_current_revision := st_update_revision st\<rparr>
      else st)"

section \<open>Defaults of the rolling-update strategy\<close>

definition default_rolling :: rolling_update where
  "default_rolling =
     \<lparr>ru_partition = Some 0, ru_max_unavailable = Some (IntVal 1), ru_pod_update_policy = ReCreate,
      ru_paused = False, ru_unordered = False, ru_inplace = None, ru_min_ready_seconds = Some 0\<rparr>"

definition setDefaultRollingUpdateStrategy :: "app \<Rightarrow> bool \<times> rolling_update" where
  "setDefaultRollingUpdateStrategy app =
     (case rolling app of
        None \<Rightarrow> (True, default_rolling)
      | Some ru \<Rightarrow>
          (let (needed, new) = (False, default_rolling);
               (needed, new) =
                 (case ru_partition ru of
                    None \<Rightarrow> (True, new) | Some p \<Rightarrow> (needed, new\<lparr>ru_partition := Some p\<rparr>));
               (needed, new) =
                 (case ru_max_unavailable ru of
                    None \<Rightarrow> (True, new) | Some m \<Rightarrow> (needed, new\<lparr>ru_max_unavailable := Some m\<rparr>));
               (needed, new) =
                 (if ru_pod_update_policy ru = PolicyUnset then (True, new)
                  else (needed, new\<lparr>ru_pod_update_policy := ru_pod_update_policy ru\<rparr>));
               (needed, new) =
                 (case ru_min_ready_seconds ru of
                    None \<Rightarrow> (True, new) | Some s \<Rightarrow> (needed, new\<lparr>ru_min_ready_seconds := Some s\<rparr>));
               new =
                 (case ru_inplace ru of
                    None \<Rightarrow> new | Some s \<Rightarrow> new\<lparr>ru_inplace := Some s\<rparr>)
           in (needed, new)))"

text \<open>\<open>clone.Spec.UpdateStrategy.RollingUpdate = newRollingUpdate\<close>.\<close>

definition with_rolling :: "app \<Rightarrow> rolling_update \<Rightarrow> app" where
  "with_rolling app ru =
     app\<lparr>a_spec := (a_spec app)\<lparr>sp_update_strategy :=
       (sp_update_strategy (a_spec app))\<lparr>us_rolling_update := Some ru\<rparr>\<rparr>\<rparr>"

section \<open>The revision of a new pod\<close>

text \<open>
  Dereferencing a nil \<open>Partition\<close> panics.  \<open>replicas\<close> may still hold nil slots.
\<close>

definition not_updated_others :: "string \<Rightarrow> int \<Rightarrow> pod option list \<Rightarrow> nat" where
  "not_updated_others updateRevision n replicas =
     length (filter
       (\<lambda>(i, po). case po of
           None \<Rightarrow> False
         | Some pod \<Rightarrow> int i \<noteq> n \<and> map_get (p_labels pod) revision_label \<noteq> updateRevision)
       (enumerate 0 replicas))"

definition isCurrentRevisionExpected :: "app \<Rightarrow> string \<Rightarrow> int \<Rightarrow> pod option list \<Rightarrow> bool option" where
  "isCurrentRevisionExpected app updateRevision n replicas =
     (if strategy app \<noteq> RollingUpdateType then Some False
      else case rolling app of
             None \<Rightarrow> Some (n < sint (st_current (a_status app)))
           | Some ru \<Rightarrow>
               if \<not> ru_unordered ru
               then map_option (\<lambda>p. n < sint p) (ru_partition ru)
               else map_option (\<lambda>p. int (not_updated_others updateRevision n replicas) < sint p)
                      (ru_partition ru))"

definition newVersionedPodForApp ::
  "(pod_template \<Rightarrow> app \<Rightarrow> pod) \<Rightarrow> range_order \<Rightarrow> app \<Rightarrow> app \<Rightarrow> string \<Rightarrow> string \<Rightarrow> int \<Rightarrow>
   pod option list \<Rightarrow> pod option" where
  "newVersionedPodForApp ft ord currentApp updateApp currentRevision updateRevision n replicas =
     do {
       expected \<leftarrow> isCurrentRevisionExpected currentApp updateRevision n replicas;
       if expected then do {
         pod \<leftarrow> newAppPod ft ord currentApp n;
         Some (pod\<lparr>p_labels := map_set (p_labels pod) revision_label currentRevision\<rparr>)
       } else do {
         pod \<leftarrow> newAppPod ft ord updateApp n;
         Some (pod\<lparr>p_labels := map_set (p_labels pod) revision_label updateRevision\<rparr>)
       }
     }"

section \<open>Lemmas\<close>

lemma setAppCondition_frame [frame_simps]:
  "st_replicas (setAppCondition st c) = st_replicas st"
  "st_ready (setAppCondition st c) = st_ready st"
  "st_current_revision (setAppCondition st c) = st_current_revision st"
  "st_update_revision (setAppCondition st c) = st_update_revision st"
  by (simp_all add: setAppCondition_def Let_def split: option.splits)

lemma first_match_append:
  "first_match p (xs @ ys) = (case first_match p xs of None \<Rightarrow> first_match p ys | Some x \<Rightarrow> Some x)"
  by (induction xs) auto

lemma first_match_filter_not:
  "first_match (\<lambda>c. ac_type c = t) (filter (\<lambda>c. ac_type c \<noteq> t) cs) = None"
  by (simp add: first_match_None)

lemma distinct_filter_snoc:
  "distinct (map ac_type cs) \<Longrightarrow> distinct (map ac_type (filter (\<lambda>c. ac_type c \<noteq> ac_type d) cs @ [d]))"
  by (auto simp: distinct_map_filter)

section \<open>Properties\<close>

text \<open>
  After a condition is set, the status shows a condition of that type with that status
  and reason, the conditions of the other types are as before and in order, and a status with
  at most one condition per type stays so.
\<close>

theorem setAppCondition_spec:
  "(\<exists>c'. getAppConditionFromType (setAppCondition st c) (ac_type c) = Some c' \<and>
      ac_status c' = ac_status c \<and> ac_reason c' = ac_reason c) \<and>
   filter (\<lambda>d. ac_type d \<noteq> ac_type c) (st_conditions (setAppCondition st c)) =
     filter (\<lambda>d. ac_type d \<noteq> ac_type c) (st_conditions st) \<and>
   (distinct (map ac_type (st_conditions st)) \<longrightarrow>
      distinct (map ac_type (st_conditions (setAppCondition st c))))"
proof (cases "getAppConditionFromType st (ac_type c)")
  case None
  then show ?thesis
    using distinct_filter_snoc [of "st_conditions st" c]
    by (simp add: setAppCondition_def getAppConditionFromType_def first_match_append
        first_match_filter_not)
next
  case (Some cur)
  let ?c = "c\<lparr>ac_transition := ac_transition cur\<rparr>"
  show ?thesis
    using Some distinct_filter_snoc [of "st_conditions st" c] distinct_filter_snoc [of "st_conditions st" ?c]
    by (auto simp: setAppCondition_def getAppConditionFromType_def first_match_append
        first_match_filter_not Let_def)
qed

theorem setAppCondition_spec_witness:
  "distinct (map ac_type (st_conditions (setAppCondition zero_status
     \<lparr>ac_type = ''FailedCreatePod'', ac_status = ConditionTrue, ac_transition = 0, ac_reason = '''',
      ac_message = None\<rparr>)))"
  using setAppCondition_spec [of zero_status
      "\<lparr>ac_type = ''FailedCreatePod'', ac_status = ConditionTrue, ac_transition = 0, ac_reason = '''',
        ac_message = None\<rparr>"]
  by (simp add: zero_status_def)

text \<open>
  The defaults are complete and stable: each field of the new strategy is the user's
  where the user set it and the default elsewhere, except that \<open>Paused\<close> and
  \<open>UnorderedUpdate\<close> always come out false; an update is asked for exactly when a field was
  missing; and once the strategy is stored a second round asks for nothing and changes
  nothing.
\<close>

theorem setDefaultRollingUpdateStrategy_spec:
  "case setDefaultRollingUpdateStrategy app of (needed, new) \<Rightarrow>
     setDefaultRollingUpdateStrategy (with_rolling app new) = (False, new) \<and>
     (case rolling app of
        None \<Rightarrow> needed \<and> new = default_rolling
      | Some ru \<Rightarrow>
          needed = (ru_partition ru = None \<or> ru_max_unavailable ru = None \<or>
                    ru_pod_update_policy ru = PolicyUnset \<or> ru_min_ready_seconds ru = None) \<and>
          new = \<lparr>ru_partition = Some (case ru_partition ru of None \<Rightarrow> 0 | Some p \<Rightarrow> p),
                 ru_max_unavailable =
                   Some (case ru_max_unavailable ru of None \<Rightarrow> IntVal 1 | Some m \<Rightarrow> m),
                 ru_pod_update_policy =
                   (if ru_pod_update_policy ru = PolicyUnset then ReCreate else ru_pod_update_policy ru),
                 ru_paused = False, ru_unordered = False, ru_inplace = ru_inplace ru,
                 ru_min_ready_seconds =
                   Some (case ru_min_ready_seconds ru of None \<Rightarrow> 0 | Some s \<Rightarrow> s)\<rparr>)"
  by (simp add: setDefaultRollingUpdateStrategy_def default_rolling_def with_rolling_def Let_def
      split: option.splits)

text \<open>
  Whether a status is written depends on the counters, the revisions, the selector and
  the claims alone: a status that differs from the stored one in its conditions, its collision
  count or the two counters of updated ready and updated available pods is taken as
  consistent, so a new \<open>FailedCreatePod\<close> condition by itself is never stored.
\<close>

theorem statusConsistent_ignores_conditions:
  "statusConsistent app
     (st\<lparr>st_conditions := conds, st_updated_ready := m, st_updated_available := n,
         st_collision_count := cc\<rparr>) = statusConsistent app st"
  by (simp add: statusConsistent_def)

end
