(* ===== verification/Cluster_Env.thy ===== *)
theory Cluster_Env
  imports Requeue_Duration App_Status
begin

text \<open>
  What lies outside the repository: the API server behind the clients, the caches behind the
  listers, the clock, the library's codecs and its retry policy.  All of it is the record
  \<open>env\<close>, an argument of the definitions that use it.  Every answer may depend on all calls
  made before (the list of calls), so the environment is any deterministic or scripted
  cluster, with other actors included; nothing is assumed of it except by named hypotheses
  in the theorems.

  The state the controller threads through is \<open>sys\<close>: the trace of the calls it made and
  the process-wide requeue store.  Calls to the API server and recorded events are traced;
  reads from a lister's cache are not.
\<close>

record event =
  ev_warning :: bool
  ev_reason :: string
  ev_object :: string
  ev_error :: "go_error option"

datatype api_call =
    CallPodCreate pod
  | CallPodUpdate pod
  | CallPodUpdateStatus pod
  | CallPodDelete string string
  | CallPodGet string string
  | CallPVCCreate pvc
  | CallAppUpdate app
  | CallAppUpdateStatus app
  | CallAppGet string string
  | CallRevCreate controller_revision
  | CallRevUpdate controller_revision int64
  | CallRevDelete controller_revision
  | CallRevAdopt controller_revision
  | CallPodAdoption app
  | CallEvent event

type_synonym calls = "api_call list"

text \<open>One operation of a JSON patch: \<open>op\<close>, \<open>path\<close> and a value that is a string or is not.\<close>

record json_op =
  jo_operation :: string
  jo_path :: string
  jo_value :: "string option"

text \<open>JSON values as \<open>encoding/json\<close> decodes them into an \<open>interface\{\}\<close>.\<close>

datatype json =
    JNull
  | JBool bool
  | JNum string
  | JStr string
  | JArr "json list"
  | JObj "(string \<times> json) list"

record env =
  e_pod_create :: "calls \<Rightarrow> pod \<Rightarrow> go_error option"
  e_pod_update :: "calls \<Rightarrow> pod \<Rightarrow> go_error option"
  e_pod_update_status :: "calls \<Rightarrow> pod \<Rightarrow> go_error option"
  e_pod_delete :: "calls \<Rightarrow> string \<Rightarrow> string \<Rightarrow> go_error option"
  e_pod_get :: "calls \<Rightarrow> string \<Rightarrow> string \<Rightarrow> go_error + pod"
  e_pod_lister :: "calls \<Rightarrow> string \<Rightarrow> string \<Rightarrow> go_error + pod"
  e_pod_list :: "calls \<Rightarrow> string \<Rightarrow> go_error + pod list"
  e_claim_pods :: "calls \<Rightarrow> app \<Rightarrow> selector \<Rightarrow> (pod \<Rightarrow> bool) \<Rightarrow> pod list \<Rightarrow> go_error + pod list"
  e_pvc_lister :: "calls \<Rightarrow> string \<Rightarrow> string \<Rightarrow> go_error + pvc"
  e_pvc_create :: "calls \<Rightarrow> pvc \<Rightarrow> go_error option"
  e_app_put :: "calls \<Rightarrow> app \<Rightarrow> go_error + app"
  e_app_put_status :: "calls \<Rightarrow> app \<Rightarrow> go_error + app"
  e_app_get :: "calls \<Rightarrow> string \<Rightarrow> string \<Rightarrow> go_error + app"
  e_app_indexer :: "calls \<Rightarrow> string \<Rightarrow> go_error + app option"
  e_rev_list :: "calls \<Rightarrow> app \<Rightarrow> selector \<Rightarrow> go_error + controller_revision list"
  e_rev_create :: "calls \<Rightarrow> app \<Rightarrow> controller_revision \<Rightarrow> int32 \<Rightarrow> (go_error + controller_revision) \<times> int32"
  e_rev_update :: "calls \<Rightarrow> controller_revision \<Rightarrow> int64 \<Rightarrow> go_error + controller_revision"
  e_rev_delete :: "calls \<Rightarrow> controller_revision \<Rightarrow> go_error option"
  e_rev_adopt :: "calls \<Rightarrow> app \<Rightarrow> controller_revision \<Rightarrow> go_error + controller_revision"
  e_rev_new :: "app \<Rightarrow> gomap \<Rightarrow> string \<Rightarrow> int64 \<Rightarrow> int32 \<Rightarrow> go_error + controller_revision"
  e_rev_equal :: "controller_revision \<Rightarrow> controller_revision \<Rightarrow> bool"
  e_rev_find :: "controller_revision list \<Rightarrow> controller_revision \<Rightarrow> controller_revision list"
  e_rev_sort :: "controller_revision list \<Rightarrow> controller_revision list"
  e_clock :: "calls \<Rightarrow> gotime"
  e_range :: "calls \<Rightarrow> range_order"
  e_from_template :: "pod_template \<Rightarrow> app \<Rightarrow> pod"
  e_selector :: "label_selector option \<Rightarrow> go_error + selector"
  e_runtime_encode :: "app \<Rightarrow> go_error + string"
  e_json_parse :: "string \<Rightarrow> go_error + json"
  e_json_print :: "json \<Rightarrow> go_error + string"
  e_encode_app :: "app \<Rightarrow> string option"
  e_merge_patch :: "string \<Rightarrow> string \<Rightarrow> go_error + string"
  e_unmarshal_app :: "string \<Rightarrow> go_error + app"
  e_unmarshal_template :: "string \<Rightarrow> go_error + pod_template option"
  e_json_patch :: "string \<Rightarrow> string \<Rightarrow> go_error + json_op list"
  e_marshal_inplace :: "inplace_status \<Rightarrow> string"
  e_unmarshal_inplace :: "string \<Rightarrow> go_error + inplace_status"
  e_retry_again :: "nat \<Rightarrow> go_error \<Rightarrow> bool"
  e_retry_steps :: nat

record sys =
  trace :: calls
  requeue_store :: store

definition log_call :: "api_call \<Rightarrow> sys \<Rightarrow> sys" where
  "log_call c s = s\<lparr>trace := trace s @ [c]\<rparr>"

lemma log_call_simps [simp]:
  "trace (log_call c s) = trace s @ [c]" "requeue_store (log_call c s) = requeue_store s"
  by (simp_all add: log_call_def)

text \<open>\<open>retry.RetryOnConflict(retry.DefaultRetry, ...)\<close> over the environment's policy.\<close>

definition retry_on_conflict ::
  "env \<Rightarrow> ('s \<Rightarrow> (go_error option \<times> 's) option) \<Rightarrow> 's \<Rightarrow> (go_error option \<times> 's) option" where
  "retry_on_conflict env f s = retry_loop (e_retry_again env) (e_retry_steps env) f s"

text \<open>The documented policy: only conflicts are retried.\<close>

definition retries_conflicts_only :: "env \<Rightarrow> bool" where
  "retries_conflicts_only env \<longleftrightarrow> (\<forall>n e. e_retry_again env n e \<longrightarrow> e = ErrConflict)"

definition range_visits_all :: "env \<Rightarrow> bool" where
  "range_visits_all env \<longleftrightarrow> (\<forall>cs. visits_all (e_range env cs))"

section \<open>The generated client and lister of Apps\<close>

text \<open>
  The generated client answers a failed request with the error and a fresh, empty App
  (\<open>result = \&v1.App\{\}\<close>, which \<open>Into\<close> does not fill).
\<close>

definition app_Update :: "env \<Rightarrow> app \<Rightarrow> sys \<Rightarrow> (app \<times> go_error option) \<times> sys" where
  "app_Update env app s =
     (let s' = log_call (CallAppUpdate app) s in
      case e_app_put env (trace s) app of
        Inl e \<Rightarrow> ((zero_app, Some e), s')
      | Inr result \<Rightarrow> ((result, None), s'))"

definition app_UpdateStatus :: "env \<Rightarrow> app \<Rightarrow> sys \<Rightarrow> (app \<times> go_error option) \<times> sys" where
  "app_UpdateStatus env app s =
     (let s' = log_call (CallAppUpdateStatus app) s in
      case e_app_put_status env (trace s) app of
        Inl e \<Rightarrow> ((zero_app, Some e), s')
      | Inr result \<Rightarrow> ((result, None), s'))"

definition app_Get :: "env \<Rightarrow> string \<Rightarrow> string \<Rightarrow> sys \<Rightarrow> (app \<times> go_error option) \<times> sys" where
  "app_Get env ns name s =
     (let s' = log_call (CallAppGet ns name) s in
      case e_app_get env (trace s) ns name of
        Inl e \<Rightarrow> ((zero_app, Some e), s')
      | Inr result \<Rightarrow> ((result, None), s'))"

text \<open>\<open>appNamespaceLister.Get\<close>: the indexer is asked for the key \<open>namespace/name\<close>.\<close>

definition app_lister_Get :: "env \<Rightarrow> string \<Rightarrow> string \<Rightarrow> sys \<Rightarrow> go_error + app" where
  "app_lister_Get env ns name s =
     (case e_app_indexer env (trace s) (ns @ ''/'' @ name) of
        Inl e \<Rightarrow> Inl e
      | Inr None \<Rightarrow> Inl ErrNotFound
      | Inr (Some app) \<Rightarrow> Inr app)"

section \<open>What a step adds to the trace\<close>

text \<open>
  \<open>adds s s' cs\<close>: the step from \<open>s\<close> to \<open>s'\<close> made the calls \<open>cs\<close>, in this order.  The
  calls that begin or end a pod's life are \<open>lifecycle\<close>.
\<close>

definition adds :: "sys \<Rightarrow> sys \<Rightarrow> calls \<Rightarrow> bool" where
  "adds s s' cs \<longleftrightarrow> trace s' = trace s @ cs"

fun is_lifecycle :: "api_call \<Rightarrow> bool" where
  "is_lifecycle (CallPodCreate p) = True"
| "is_lifecycle (CallPodDelete ns n) = True"
| "is_lifecycle _ = False"

definition lifecycle :: "calls \<Rightarrow> calls" where
  "lifecycle cs = filter is_lifecycle cs"

lemma lifecycle_simps [simp]:
  "lifecycle [] = []" "lifecycle (c # cs) = (if is_lifecycle c then c # lifecycle cs else lifecycle cs)"
  "lifecycle (cs @ ds) = lifecycle cs @ lifecycle ds"
  by (simp_all add: lifecycle_def)

lemma adds_refl: "adds s s []"
  by (simp add: adds_def)

lemma adds_log: "adds s s' cs \<Longrightarrow> adds s (log_call c s') (cs @ [c])"
  by (simp add: adds_def)

lemma adds_trans: "adds s s' cs \<Longrightarrow> adds s' s'' ds \<Longrightarrow> adds s s'' (cs @ ds)"
  by (simp add: adds_def)

text \<open>The calls between two states, as a function.\<close>

definition calls_between :: "sys \<Rightarrow> sys \<Rightarrow> calls" where
  "calls_between s s' = drop (length (trace s)) (trace s')"

lemma adds_calls_between: "adds s s' cs \<Longrightarrow> calls_between s s' = cs"
  by (simp add: adds_def calls_between_def)

text \<open>
  \<open>only Q s s'\<close>: the step made only calls that satisfy \<open>Q\<close>; a quiet step leaves the pods'
  lives alone.
\<close>

definition only :: "(api_call \<Rightarrow> bool) \<Rightarrow> sys \<Rightarrow> sys \<Rightarrow> bool" where
  "only Q s s' \<longleftrightarrow> (\<exists>cs. adds s s' cs \<and> (\<forall>c \<in> set cs. Q c))"

lemma only_refl [simp]: "only Q s s"
  by (auto simp: only_def intro: adds_refl)

lemma only_trans:
  assumes "only Q s s'" and "only Q s' s''"
  shows "only Q s s''"
proof -
  from assms obtain cs ds where "adds s s' cs" "adds s' s'' ds" "\<forall>c \<in> set cs \<union> set ds. Q c"
    by (auto simp: only_def)
  then show ?thesis unfolding only_def by (intro exI [of _ "cs @ ds"]) (auto intro: adds_trans)
qed

lemma only_log: "Q c \<Longrightarrow> only Q s s' \<Longrightarrow> only Q s (log_call c s')"
  by (rule only_trans) (auto simp: only_def adds_def)

lemma only_requeue [simp]: "only Q s (s'\<lparr>requeue_store := q\<rparr>) = only Q s s'"
  by (simp add: only_def adds_def)

lemma only_calls_between: "only Q s s' \<Longrightarrow> c \<in> set (calls_between s s') \<Longrightarrow> Q c"
  by (auto simp: only_def dest: adds_calls_between)

lemma only_mono: "only Q s s' \<Longrightarrow> (\<And>c. Q c \<Longrightarrow> R c) \<Longrightarrow> only R s s'"
  by (auto simp: only_def)

abbreviation quiet :: "sys \<Rightarrow> sys \<Rightarrow> bool" where
  "quiet \<equiv> only (\<lambda>c. \<not> is_lifecycle c)"

lemma quiet_def: "quiet s s' \<longleftrightarrow> (\<exists>cs. adds s s' cs \<and> lifecycle cs = [])"
  by (simp add: only_def lifecycle_def filter_empty_conv)

lemma quiet_calls_between: "quiet s s' \<Longrightarrow> lifecycle (calls_between s s') = []"
  by (auto simp: quiet_def dest: adds_calls_between)

lemmas quiet_trans = only_trans [where Q = "\<lambda>c. \<not> is_lifecycle c"]
lemmas quiet_log = only_log [where Q = "\<lambda>c. \<not> is_lifecycle c"]

section \<open>Closures under the retry loop\<close>

text \<open>A closure all of whose runs make only calls that satisfy \<open>Q\<close>.\<close>

definition closure_only :: "(api_call \<Rightarrow> bool) \<Rightarrow> (sys \<Rightarrow> (go_error option \<times> sys) option) \<Rightarrow> bool" where
  "closure_only Q f \<longleftrightarrow> (\<forall>s err s'. f s = Some (err, s') \<longrightarrow> only Q s s')"

lemma retry_only:
  assumes "retry_on_conflict env f s = Some (err, s')" and "closure_only Q f"
  shows "only Q s s'"
  by (rule retry_loop_invariant [OF assms(1) [unfolded retry_on_conflict_def], of "only Q s"])
    (use assms(2) in \<open>auto simp: closure_only_def intro: only_trans\<close>)

end
