(* ===== verification/Samples_Env.thy ===== *)
theory Samples_Env
  imports Cluster_Env
begin

text \<open>
  A concrete environment for the witnesses: a cluster in which every request succeeds, the
  caches hold nothing, the clock stands at 1000 seconds and \<open>range\<close> visits maps in list
  order.  Nothing here models code.
\<close>

definition sample_env :: env where
  "sample_env =
     \<lparr>e_pod_create = (\<lambda>_ _. None), e_pod_update = (\<lambda>_ _. None), e_pod_update_status = (\<lambda>_ _. None),
      e_pod_delete = (\<lambda>_ _ _. None), e_pod_get = (\<lambda>_ _ _. Inl ErrNotFound),
      e_pod_lister = (\<lambda>_ _ _. Inl ErrNotFound), e_pod_list = (\<lambda>_ _. Inr []),
      e_claim_pods = (\<lambda>_ _ _ f ps. Inr (filter f ps)),
      e_pvc_lister = (\<lambda>_ _ _. Inl ErrNotFound), e_pvc_create = (\<lambda>_ _. None),
      e_app_put = (\<lambda>_ a. Inr a), e_app_put_status = (\<lambda>_ a. Inr a),
      e_app_get = (\<lambda>_ _ _. Inr sample_app), e_app_indexer = (\<lambda>_ _. Inr (Some sample_app)),
      e_rev_list = (\<lambda>_ _ _. Inr []), e_rev_create = (\<lambda>_ _ r n. (Inr r, n)),
      e_rev_update = (\<lambda>_ r n. Inr (r\<lparr>rev_revision := n\<rparr>)), e_rev_delete = (\<lambda>_ _. None),
      e_rev_adopt = (\<lambda>_ a r. Inr (r\<lparr>rev_controller := Some (a_uid a)\<rparr>)),
      e_rev_new = (\<lambda>a l d n c. Inr (sample_revision d n)),
      e_rev_equal = (\<lambda>x y. rev_data x = rev_data y),
      e_rev_find = (\<lambda>rs x. filter (\<lambda>r. rev_data r = rev_data x) rs),
      e_rev_sort = sort_key (\<lambda>r. sint (rev_revision r)),
      e_clock = (\<lambda>_. 1000 * second), e_range = (\<lambda>_ m. m),
      e_from_template = sample_from_template, e_selector = (\<lambda>_. Inr ''app=nginx''),
      e_runtime_encode = (\<lambda>_. Inr ''app''),
      e_json_parse = (\<lambda>_. Inr (JObj [(''spec'', JObj [(''template'', JObj [])])])),
      e_json_print = (\<lambda>_. Inr ''patch''),
      e_encode_app = (\<lambda>_. Some ''app''), e_merge_patch = (\<lambda>_ p. Inr p),
      e_unmarshal_app = (\<lambda>_. Inr sample_app), e_unmarshal_template = (\<lambda>_. Inr (Some sample_template)),
      e_json_patch = (\<lambda>_ _. Inr []),
      e_marshal_inplace = (\<lambda>st. ip_revision st), e_unmarshal_inplace = (\<lambda>_. Inl (ErrOther ''json'')),
      e_retry_again = (\<lambda>_ e. e = ErrConflict), e_retry_steps = 4\<rparr>"

definition sample_sys :: sys where
  "sample_sys = \<lparr>trace = [], requeue_store = Map.empty\<rparr>"

lemma sample_env_range [simp]: "range_visits_all sample_env"
  by (simp add: range_visits_all_def visits_all_def sample_env_def)

lemma sample_env_retries [simp]: "retries_conflicts_only sample_env"
  by (simp add: retries_conflicts_only_def sample_env_def)

end
