(* ===== verification/Pod_Controller.thy ===== *)
theory Pod_Controller
  imports Samples_Env
begin

text \<open>
  \<open>deployer/internal/controller/app/pod\_controller.go\<close>: creating, updating and deleting a
  pod of an App, with its claims.  The state controller reaches these operations through its
  field \<open>podController\<close>; the record \<open>pod\_ops\<close> is that field, \<open>PodController\<close> the value
  the program puts there, and the locale \<open>pod\_control\<close> the contract its client relies on.
\<close>

section \<open>Readiness gates and conditions of pods\<close>

definition in_place_update_ready :: string where
  "in_place_update_ready = ''InPlaceUpdateReady''"

definition InjectReadinessGate :: "pod \<Rightarrow> pod" where
  "InjectReadinessGate pod =
     (if list_ex (\<lambda>g. g = in_place_update_ready) (p_readiness_gates pod) then pod
      else pod\<lparr>p_readiness_gates := p_readiness_gates pod @ [in_place_update_ready]\<rparr>)"

definition ContainsReadinessGate :: "pod \<Rightarrow> bool" where
  "ContainsReadinessGate pod = list_ex (\<lambda>g. g = in_place_update_ready) (p_readiness_gates pod)"

fun set_condition :: "pod_condition list \<Rightarrow> pod_condition \<Rightarrow> pod_condition list" where
  "set_condition [] condition = [condition]"
| "set_condition (c # cs) condition =
     (if pc_type c = pc_type condition
      then (if pc_status c \<noteq> pc_status condition then condition # cs else c # cs)
      else c # set_condition cs condition)"

definition SetPodCondition :: "pod \<Rightarrow> pod_condition \<Rightarrow> pod" where
  "SetPodCondition pod condition =
     pod\<lparr>p_conditions := set_condition (p_conditions pod) condition\<rparr>"

definition IfConditionFalse :: "pod \<Rightarrow> string \<Rightarrow> bool" where
  "IfConditionFalse pod t =
     list_ex (\<lambda>c. pc_type c = t \<and> pc_status c = ConditionFalse) (p_conditions pod)"

section \<open>Operations\<close>

definition recordPodEvent :: "string \<Rightarrow> app \<Rightarrow> pod \<Rightarrow> go_error option \<Rightarrow> sys \<Rightarrow> sys" where
  "recordPodEvent verb app pod err s =
     (case err of
        None \<Rightarrow>
          log_call (CallEvent \<lparr>ev_warning = False, ev_reason = ''Succ '' @ verb,
                               ev_object = p_name pod, ev_error = None\<rparr>) s
      | Some e \<Rightarrow>
          log_call (CallEvent \<lparr>ev_warning = True, ev_reason = ''Failed '' @ verb,
                               ev_object = p_name pod, ev_error = Some e\<rparr>) s)"

text \<open>The loop of \<open>createPVC\<close>, over the claims in the order \<open>range\<close> visits them.\<close>

fun create_claims :: "env \<Rightarrow> (string \<times> pvc) list \<Rightarrow> sys \<Rightarrow> go_error option \<times> sys" where
  "create_claims env [] s = (None, s)"
| "create_claims env ((k, tmpl) # rest) s =
     (case e_pvc_lister env (trace s) (pvc_namespace tmpl) (pvc_name tmpl) of
        Inl err \<Rightarrow>
          if err = ErrNotFound then
            (let res = e_pvc_create env (trace s) tmpl;
                 s' = log_call (CallPVCCreate tmpl) s
             in case res of
                  Some e \<Rightarrow> (Some (ErrWrap ''create pvc'' (pvc_name tmpl) e), s')
                | None \<Rightarrow> create_claims env rest s')
          else (Some (ErrWrap ''get pvc'' (pvc_name tmpl) err), s)
      | Inr claim \<Rightarrow>
          if pvc_deletion claim \<noteq> None
          then (Some (ErrFmt ''pvc is to be deleted'' [pvc_name tmpl]), s)
          else create_claims env rest s)"

definition createPVC :: "env \<Rightarrow> app \<Rightarrow> pod \<Rightarrow> sys \<Rightarrow> (go_error option \<times> sys) option" where
  "createPVC env app pod s =
     do {
       claims \<leftarrow> getPVCFromApp app pod;
       Some (create_claims env (e_range env (trace s) claims) s)
     }"

text \<open>The pod is changed through its pointer: the caller sees the readiness gate.\<close>

definition CreateStatefulPod ::
  "env \<Rightarrow> app \<Rightarrow> pod \<Rightarrow> sys \<Rightarrow> (go_error option \<times> pod \<times> sys) option" where
  "CreateStatefulPod env app pod s =
     do {
       (err, s) \<leftarrow> createPVC env app pod s;
       case err of
         Some e \<Rightarrow> Some (Some e, pod, recordPodEvent ''create'' app pod (Some e) s)
       | None \<Rightarrow>
           let pod = InjectReadinessGate pod;
               err = e_pod_create env (trace s) pod;
               s = log_call (CallPodCreate pod) s
           in if err = Some ErrAlreadyExists then Some (err, pod, s)
              else Some (err, pod, recordPodEvent ''create'' app pod err s)
     }"

text \<open>
  The closure that \<open>UpdateStatefulPod\<close> hands to the retry loop; the captured variables
  \<open>pod\<close> and \<open>triedUpdate\<close> are its state.
\<close>

definition update_pod_send :: "env \<Rightarrow> pod \<Rightarrow> sys \<Rightarrow> go_error option \<times> pod \<times> bool \<times> sys" where
  "update_pod_send env pod s =
     (let err = e_pod_update env (trace s) pod;
          s = log_call (CallPodUpdate pod) s
      in case err of
           None \<Rightarrow> (None, pod, True, s)
         | Some e \<Rightarrow>
             let got = e_pod_get env (trace s) (p_namespace pod) (p_name pod);
                 s = log_call (CallPodGet (p_namespace pod) (p_name pod)) s
             in case got of
                  Inl err2 \<Rightarrow> (Some e, pod, True, s)
                | Inr newPod \<Rightarrow> (Some e, newPod, True, s))"

definition update_pod_attempt ::
  "env \<Rightarrow> app \<Rightarrow> pod \<times> bool \<times> sys \<Rightarrow> (go_error option \<times> pod \<times> bool \<times> sys) option" where
  "update_pod_attempt env app = (\<lambda>(pod, tried, s).
     let needUpdate = \<not> matchAppAndPod app pod;
         pod = (if needUpdate then updatePodIdentity app pod else pod)
     in if matchAppPVC app pod then do {
          pod \<leftarrow> updatePodVolume (e_range env (trace s)) app pod;
          (err, s) \<leftarrow> createPVC env app pod s;
          case err of
            Some e \<Rightarrow> Some (Some e, pod, tried, recordPodEvent ''update'' app pod (Some e) s)
          | None \<Rightarrow> Some (update_pod_send env pod s)
        }
        else if needUpdate then Some (update_pod_send env pod s)
        else Some (None, pod, tried, s))"

definition UpdateStatefulPod ::
  "env \<Rightarrow> app \<Rightarrow> pod \<Rightarrow> sys \<Rightarrow> (go_error option \<times> sys) option" where
  "UpdateStatefulPod env app pod s =
     do {
       (err, pod, tried, s) \<leftarrow> retry_on_conflict env (update_pod_attempt env app) (pod, False, s);
       Some (err, if tried then recordPodEvent ''update'' app pod err s else s)
     }"

definition DeleteStatefulPod :: "env \<Rightarrow> app \<Rightarrow> pod \<Rightarrow> sys \<Rightarrow> go_error option \<times> sys" where
  "DeleteStatefulPod env app pod s =
     (if p_deletion pod \<noteq> None then (None, s)
      else
        let err = e_pod_delete env (trace s) (p_namespace pod) (p_name pod);
            s = log_call (CallPodDelete (p_namespace pod) (p_name pod)) s
        in if err = Some ErrNotFound then (None, s)
           else (err, recordPodEvent ''delete'' app pod err s))"

section \<open>The controller as its client sees it\<close>

record pod_ops =
  po_create :: "app \<Rightarrow> pod \<Rightarrow> sys \<Rightarrow> (go_error option \<times> pod \<times> sys) option"
  po_update :: "app \<Rightarrow> pod \<Rightarrow> sys \<Rightarrow> (go_error option \<times> sys) option"
  po_delete :: "app \<Rightarrow> pod \<Rightarrow> sys \<Rightarrow> go_error option \<times> sys"
  po_create_pvc :: "app \<Rightarrow> pod \<Rightarrow> sys \<Rightarrow> (go_error option \<times> sys) option"

definition PodController :: "env \<Rightarrow> pod_ops" where
  "PodController env =
     \<lparr>po_create = CreateStatefulPod env, po_update = UpdateStatefulPod env,
      po_delete = DeleteStatefulPod env, po_create_pvc = createPVC env\<rparr>"

text \<open>
  The contract: what each operation may do to pods' lives, and that only the pod it was
  given is touched.
\<close>

locale pod_control =
  fixes pc :: pod_ops
  assumes create_calls: "po_create pc app pod s = Some (err, pod', s') \<Longrightarrow>
      \<exists>cs. adds s s' cs \<and> (lifecycle cs = [CallPodCreate pod'] \<or> lifecycle cs = [] \<and> err \<noteq> None)"
    and create_pod: "po_create pc app pod s = Some (err, pod', s') \<Longrightarrow>
      pod' = pod\<lparr>p_readiness_gates := p_readiness_gates pod'\<rparr>"
    and create_store: "po_create pc app pod s = Some (err, pod', s') \<Longrightarrow> requeue_store s' = requeue_store s"
    and update_quiet: "po_update pc app pod s = Some (err, s') \<Longrightarrow> quiet s s'"
    and delete_terminating: "p_deletion pod \<noteq> None \<Longrightarrow> po_delete pc app pod s = (None, s)"
    and delete_calls: "p_deletion pod = None \<Longrightarrow> po_delete pc app pod s = (err, s') \<Longrightarrow>
      \<exists>cs. adds s s' cs \<and> lifecycle cs = [CallPodDelete (p_namespace pod) (p_name pod)]"
    and delete_store: "po_delete pc app pod s = (err, s') \<Longrightarrow> requeue_store s' = requeue_store s"
    and create_pvc_quiet: "po_create_pvc pc app pod s = Some (err, s') \<Longrightarrow> quiet s s'"

section \<open>The controller keeps the contract\<close>

lemma recordPodEvent_simps [simp]:
  "requeue_store (recordPodEvent verb app pod err s) = requeue_store s"
  by (simp add: recordPodEvent_def split: option.splits)

lemma quiet_recordPodEvent: "quiet s s' \<Longrightarrow> quiet s (recordPodEvent verb app pod err s')"
  by (auto simp: recordPodEvent_def intro: quiet_log split: option.splits)

lemma adds_recordPodEvent:
  "adds s s' cs \<Longrightarrow> \<exists>ds. adds s (recordPodEvent verb app pod err s') (cs @ ds) \<and> lifecycle ds = []"
  by (cases err) (auto simp: recordPodEvent_def adds_def intro!: exI [of _ "[_]"])

lemma create_claims_quiet:
  "create_claims env cs s = (err, s') \<Longrightarrow> quiet s s' \<and> requeue_store s' = requeue_store s"
proof (induction env cs s rule: create_claims.induct)
  case (2 env k tmpl rest s)
  have log: "quiet s (log_call (CallPVCCreate tmpl) s)"
    by (rule quiet_log) simp_all
  from 2 show ?case
    by (auto simp: Let_def split: sum.splits if_splits option.splits
        intro: quiet_trans [OF log] log)
qed simp

lemma createPVC_quiet:
  "createPVC env app pod s = Some (err, s') \<Longrightarrow> quiet s s' \<and> requeue_store s' = requeue_store s"
  by (auto simp: createPVC_def bind_eq_Some_conv dest: create_claims_quiet)

lemma InjectReadinessGate_frame:
  "InjectReadinessGate pod = pod\<lparr>p_readiness_gates := p_readiness_gates (InjectReadinessGate pod)\<rparr>"
  by (simp add: InjectReadinessGate_def)

lemma update_pod_send_quiet: "update_pod_send env pod s = (err, pod', tried, s') \<Longrightarrow> quiet s s'"
  by (auto simp: update_pod_send_def Let_def split: option.splits sum.splits intro!: quiet_log)

lemma update_pod_attempt_quiet:
  "update_pod_attempt env app (pod, tried, s) = Some (err, pod', tried', s') \<Longrightarrow> quiet s s'"
  by (auto simp: update_pod_attempt_def Let_def bind_eq_Some_conv split: if_splits option.splits
      dest!: createPVC_quiet update_pod_send_quiet intro: quiet_trans quiet_recordPodEvent)

lemma UpdateStatefulPod_quiet:
  assumes "UpdateStatefulPod env app pod s = Some (err, s')"
  shows "quiet s s'"
proof -
  from assms obtain e p t u
    where loop: "retry_on_conflict env (update_pod_attempt env app) (pod, False, s) = Some (e, p, t, u)"
      and s': "s' = (if t then recordPodEvent ''update'' app p e u else u)"
    by (auto simp: UpdateStatefulPod_def bind_eq_Some_conv)
  have "(\<lambda>(_, _, u). quiet s u) (p, t, u)"
    by (rule retry_loop_invariant [OF loop [unfolded retry_on_conflict_def]])
      (auto dest: update_pod_attempt_quiet intro: quiet_trans)
  then show ?thesis by (simp add: s' quiet_recordPodEvent)
qed

lemma CreateStatefulPod_calls:
  assumes "CreateStatefulPod env app pod s = Some (err, pod', s')"
  shows "\<exists>cs. adds s s' cs \<and> (lifecycle cs = [CallPodCreate pod'] \<or> lifecycle cs = [] \<and> err \<noteq> None)"
proof -
  from assms obtain e u where pvc: "createPVC env app pod s = Some (e, u)"
    and rest: "(case e of Some e \<Rightarrow> Some (Some e, pod, recordPodEvent ''create'' app pod (Some e) u)
       | None \<Rightarrow>
           let pod = InjectReadinessGate pod; err = e_pod_create env (trace u) pod;
               s = log_call (CallPodCreate pod) u
           in if err = Some ErrAlreadyExists then Some (err, pod, s)
              else Some (err, pod, recordPodEvent ''create'' app pod err s)) = Some (err, pod', s')"
    by (auto simp: CreateStatefulPod_def bind_eq_Some_conv)
  from createPVC_quiet [OF pvc] obtain cs where cs: "adds s u cs" "lifecycle cs = []"
    by (auto simp: quiet_def)
  show ?thesis
  proof (cases e)
    case (Some x)
    with rest cs show ?thesis
      using adds_recordPodEvent [OF cs(1)] by fastforce
  next
    case None
    have "adds s (log_call (CallPodCreate (InjectReadinessGate pod)) u)
        (cs @ [CallPodCreate (InjectReadinessGate pod)])"
      using cs(1) by (rule adds_log)
    from adds_recordPodEvent [OF this] this show ?thesis
      using rest None cs(2) by (fastforce simp: Let_def split: if_splits)
  qed
qed

interpretation pod_controller: pod_control "PodController env" for env
proof (unfold_locales, goal_cases)
  case (1 app pod s err pod' s')
  then show ?case using CreateStatefulPod_calls by (simp add: PodController_def)
next
  case (2 app pod s err pod' s')
  then show ?case
    using InjectReadinessGate_frame [of pod]
    by (auto simp: PodController_def CreateStatefulPod_def bind_eq_Some_conv Let_def
        split: option.splits if_splits)
next
  case (3 app pod s err pod' s')
  then show ?case
    by (auto simp: PodController_def CreateStatefulPod_def bind_eq_Some_conv Let_def
        split: option.splits if_splits dest!: createPVC_quiet)
next
  case (6 pod app s err s')
  have "adds s (log_call (CallPodDelete (p_namespace pod) (p_name pod)) s)
      ([] @ [CallPodDelete (p_namespace pod) (p_name pod)])"
    by (rule adds_log) (rule adds_refl)
  from adds_recordPodEvent [OF this] this 6 show ?case
    by (fastforce simp: PodController_def DeleteStatefulPod_def Let_def split: if_splits)
qed (auto simp: PodController_def DeleteStatefulPod_def Let_def split: if_splits
       dest: UpdateStatefulPod_quiet createPVC_quiet)

section \<open>Properties\<close>

text \<open>
  A claim is there: the run from \<open>s\<close> that made the calls \<open>ds\<close> created it, or at some moment of
  this run the cache had it and it was not terminating.
\<close>

definition claim_there :: "env \<Rightarrow> sys \<Rightarrow> calls \<Rightarrow> pvc \<Rightarrow> bool" where
  "claim_there env s ds c \<longleftrightarrow>
     CallPVCCreate c \<in> set ds \<or>
     (\<exists>k \<le> length ds. \<exists>v. e_pvc_lister env (trace s @ take k ds) (pvc_namespace c) (pvc_name c) = Inr v \<and>
        pvc_deletion v = None)"

lemma claim_there_append:
  assumes "claim_there env s ds c"
  shows "claim_there env s (ds @ es) c"
proof (cases "CallPVCCreate c \<in> set ds")
  case False
  with assms obtain k v where "k \<le> length ds"
    "e_pvc_lister env (trace s @ take k (ds @ es)) (pvc_namespace c) (pvc_name c) = Inr v"
    "pvc_deletion v = None"
    by (auto simp: claim_there_def)
  then show ?thesis unfolding claim_there_def by (intro disjI2 exI [of _ k]) auto
qed (simp add: claim_there_def)

lemma claim_there_log:
  assumes "claim_there env (log_call a s) ds c"
  shows "claim_there env s (a # ds) c"
proof (cases "CallPVCCreate c \<in> set ds")
  case False
  with assms obtain k v where "k \<le> length ds"
    "e_pvc_lister env (trace s @ take (Suc k) (a # ds)) (pvc_namespace c) (pvc_name c) = Inr v"
    "pvc_deletion v = None"
    by (auto simp: claim_there_def)
  then show ?thesis unfolding claim_there_def by (intro disjI2 exI [of _ "Suc k"]) auto
qed (simp add: claim_there_def)

lemma create_claims_done:
  "create_claims env cs s = (None, s') \<Longrightarrow>
     \<exists>ds. adds s s' ds \<and> (\<forall>(k, c) \<in> set cs. claim_there env s ds c)"
proof (induction env cs s rule: create_claims.induct)
  case (1 env s)
  then show ?case by (auto intro: adds_refl)
next
  case (2 env k tmpl rest s)
  show ?case
  proof (cases "e_pvc_lister env (trace s) (pvc_namespace tmpl) (pvc_name tmpl)")
    case (Inl err)
    let ?s = "log_call (CallPVCCreate tmpl) s"
    from "2.prems" Inl have "err = ErrNotFound" "e_pvc_create env (trace s) tmpl = None"
      and made: "create_claims env rest ?s = (None, s')"
      by (auto simp: Let_def split: if_splits option.splits)
    with "2.IH"(1) [OF Inl] obtain ds
      where ds: "adds ?s s' ds" "\<forall>(k, c) \<in> set rest. claim_there env ?s ds c" by blast
    have "adds s s' ([CallPVCCreate tmpl] @ ds)"
      by (rule adds_trans [OF _ ds(1)]) (simp add: adds_def)
    moreover have "\<forall>(k, c) \<in> set rest. claim_there env s ([CallPVCCreate tmpl] @ ds) c"
      using ds(2) by (auto intro: claim_there_log)
    moreover have "claim_there env s ([CallPVCCreate tmpl] @ ds) tmpl"
      by (simp add: claim_there_def)
    ultimately show ?thesis
      by (intro exI [of _ "[CallPVCCreate tmpl] @ ds"] conjI) simp_all
  next
    case (Inr claim)
    with 2 obtain ds where "adds s s' ds" "\<forall>(k, c) \<in> set rest. claim_there env s ds c"
      by (auto split: if_splits)
    moreover have "claim_there env s ds tmpl"
      using Inr "2.prems" unfolding claim_there_def
      by (intro disjI2 exI [of _ 0]) (auto split: if_splits)
    ultimately show ?thesis by auto
  qed
qed

text \<open>
  C21.  Claims come before their pod: when creating a pod asked the server for the pod, every
  claim of the pod had been created in the same run or was in the cache and not terminating;
  whatever happens, at most that one pod is created and none is deleted.
\<close>

theorem CreateStatefulPod_claims_first:
  assumes "CreateStatefulPod env app pod s = Some (err, pod', s')" and "range_visits_all env"
  shows "(lifecycle (calls_between s s') = [] \<and> err \<noteq> None) \<or>
         (lifecycle (calls_between s s') = [CallPodCreate pod'] \<and>
          (\<exists>claims. getPVCFromApp app pod = Some claims \<and>
             list_all (\<lambda>(k, c). claim_there env s (calls_between s s') c) claims))"
proof -
  from assms(1) obtain e u where pvc: "createPVC env app pod s = Some (e, u)"
    and rest: "(case e of Some e \<Rightarrow> Some (Some e, pod, recordPodEvent ''create'' app pod (Some e) u)
       | None \<Rightarrow>
           let pod = InjectReadinessGate pod; err = e_pod_create env (trace u) pod;
               s = log_call (CallPodCreate pod) u
           in if err = Some ErrAlreadyExists then Some (err, pod, s)
              else Some (err, pod, recordPodEvent ''create'' app pod err s)) = Some (err, pod', s')"
    by (auto simp: CreateStatefulPod_def bind_eq_Some_conv)
  obtain cs where cs: "adds s s' cs"
    and life: "lifecycle cs = [CallPodCreate pod'] \<or> lifecycle cs = [] \<and> err \<noteq> None"
    using pod_controller.create_calls [of env app pod s err pod' s'] assms(1)
    by (auto simp: PodController_def)
  have between: "calls_between s s' = cs" using cs by (rule adds_calls_between)
  show ?thesis
  proof (cases e)
    case (Some x)
    with rest have "quiet s s'" "err \<noteq> None"
      using createPVC_quiet [OF pvc] by (auto intro: quiet_recordPodEvent)
    then show ?thesis by (simp add: quiet_calls_between)
  next
    case None
    from pvc None obtain claims where claims: "getPVCFromApp app pod = Some claims"
      and made: "create_claims env (e_range env (trace s) claims) s = (None, u)"
      by (auto simp: createPVC_def bind_eq_Some_conv)
    from create_claims_done [OF made] obtain ds where ds: "adds s u ds"
      and there: "\<forall>(k, c) \<in> set (e_range env (trace s) claims). claim_there env s ds c" by blast
    have "\<exists>es. trace s' = trace u @ es"
      using rest None by (auto simp: Let_def recordPodEvent_def split: if_splits option.splits)
    then obtain es where "cs = ds @ es" using ds cs by (auto simp: adds_def)
    moreover have "set (e_range env (trace s) claims) = set claims"
      using assms(2) by (auto simp: range_visits_all_def visits_all_def dest: mset_eq_setD)
    ultimately have "list_all (\<lambda>(k, c). claim_there env s cs c) claims"
      using there by (auto simp: list_all_iff intro: claim_there_append)
    with claims life show ?thesis by (auto simp: between)
  qed
qed

lemma sample_ordinal: "GetPodAppNameAndOrdinal (running_pod ''web-site-1'' ''r1'') = (''web-site'', 1)"
  by (rule ordinal_of_out_name [of _ sample_app 1, unfolded sample_app_simps])
    (simp_all add: running_pod_def getPodOutName_def itoa_def nat_dec.simps blank_pod_def max_int64_def)

lemma sample_create_run:
  "\<exists>err pod' s'. CreateStatefulPod sample_env sample_app (running_pod ''web-site-1'' ''r1'') sample_sys =
     Some (err, pod', s') \<and> lifecycle (calls_between sample_sys s') \<noteq> []"
proof -
  show ?thesis
    by (simp add: CreateStatefulPod_def createPVC_def getPVCFromApp_def sample_ordinal sample_env_def sample_sys_def Let_def
      recordPodEvent_def calls_between_def sample_claim_def)
qed

theorem CreateStatefulPod_claims_first_witness:
  "\<exists>pod' claims. getPVCFromApp sample_app (running_pod ''web-site-1'' ''r1'') = Some claims \<and>
     (\<exists>cs. CallPodCreate pod' \<in> set cs \<and> list_all (\<lambda>(k, c). claim_there sample_env sample_sys cs c) claims)"
proof -
  from sample_create_run obtain err pod' s' where run:
    "CreateStatefulPod sample_env sample_app (running_pod ''web-site-1'' ''r1'') sample_sys = Some (err, pod', s')"
    "lifecycle (calls_between sample_sys s') \<noteq> []" by blast
  from CreateStatefulPod_claims_first [OF run(1) sample_env_range] run(2)
  obtain claims where "getPVCFromApp sample_app (running_pod ''web-site-1'' ''r1'') = Some claims"
    "lifecycle (calls_between sample_sys s') = [CallPodCreate pod']"
    "list_all (\<lambda>(k, c). claim_there sample_env sample_sys (calls_between sample_sys s') c) claims" by blast
  moreover from this(2) have "CallPodCreate pod' \<in> set (calls_between sample_sys s')"
    by (auto simp: lifecycle_def filter_eq_Cons_iff)
  ultimately show ?thesis by blast
qed

text \<open>
  A volume that does not match is not repaired: for a pod whose identity is right and
  whose volumes do not match the claim templates, the update returns success without a
  single call (the guard around the volume update is the wrong way round).
\<close>

theorem UpdateStatefulPod_skips_mismatched_volumes:
  assumes "matchAppAndPod app pod" and "\<not> matchAppPVC app pod"
  shows "UpdateStatefulPod env app pod s = Some (None, s)"
proof -
  have "update_pod_attempt env app (pod, False, s) = Some (None, pod, False, s)"
    using assms by (simp add: update_pod_attempt_def)
  then have "retry_on_conflict env (update_pod_attempt env app) (pod, False, s) = Some (None, pod, False, s)"
    by (cases "e_retry_steps env") (simp_all add: retry_on_conflict_def)
  then show ?thesis by (simp add: UpdateStatefulPod_def)
qed

theorem UpdateStatefulPod_skips_mismatched_volumes_witness:
  "UpdateStatefulPod sample_env sample_app (updatePodIdentity sample_app (running_pod ''web-site-1'' ''r1'')) sample_sys = Some (None, sample_sys)"
proof (rule UpdateStatefulPod_skips_mismatched_volumes)
  let ?pod = "running_pod ''web-site-1'' ''r1''"
  show "matchAppAndPod sample_app (updatePodIdentity sample_app ?pod)"
    by (rule updatePodIdentity_matches) (simp add: sample_ordinal)
  show "\<not> matchAppPVC sample_app (updatePodIdentity sample_app ?pod)"
    using updatePodIdentity_matches(2) [of ?pod sample_app]
    by (simp add: matchAppPVC_def sample_ordinal)
      (simp add: updatePodIdentity_def Let_def running_pod_def blank_pod_def volume_map_def)
qed

end
