(* ===== verification/In_Place_Update.thy ===== *)
theory In_Place_Update
  imports Pod_Controller
begin

text \<open>
  \<open>deployer/internal/controller/app/inplace\_update.go\<close>: changing only the images of a
  running pod.  A revision change qualifies when the JSON patch between the two revisions
  replaces container images and nothing else; the pod is first marked not ready, then, after
  the grace period, its images, its revision label and the status annotation are written;
  \<open>IsInPlaceUpdateDone\<close> says when the containers have restarted.
\<close>

section \<open>Paths of the patch\<close>

text \<open>\<open>strings.Replace(s, old, "", 1)\<close>: the first occurrence is cut out.\<close>

fun strip_prefix :: "string \<Rightarrow> string \<Rightarrow> string option" where
  "strip_prefix [] s = Some s"
| "strip_prefix (p # ps) [] = None"
| "strip_prefix (p # ps) (c # cs) = (if p = c then strip_prefix ps cs else None)"

fun cut_first :: "string \<Rightarrow> string \<Rightarrow> string" where
  "cut_first old [] = (case strip_prefix old [] of Some rest \<Rightarrow> rest | None \<Rightarrow> [])"
| "cut_first old (c # cs) =
     (case strip_prefix old (c # cs) of Some rest \<Rightarrow> rest | None \<Rightarrow> c # cut_first old cs)"

text \<open>
  The regular expression \<open>^/spec/containers/([0-9]+)/image$\<close> and its group: the digits up to
  the next slash, not empty, followed by exactly \<open>/image\<close>.
\<close>

definition container_image_index :: "string \<Rightarrow> string option" where
  "container_image_index path =
     (case strip_prefix ''/spec/containers/'' path of
        None \<Rightarrow> None
      | Some rest \<Rightarrow>
          let ds = takeWhile (\<lambda>c. digit_val c \<noteq> None) rest in
          if ds \<noteq> [] \<and> dropWhile (\<lambda>c. digit_val c \<noteq> None) rest = ''/image'' then Some ds else None)"

section \<open>Which images change\<close>

text \<open>
  \<open>strconv.Atoi\<close> on digits fails only when the number is too big, and then returns the
  largest \<open>int\<close>, which the bounds check rejects.  A value that is not a string panics.
\<close>

fun in_place_images ::
  "pod_template \<Rightarrow> json_op list \<Rightarrow> (string \<rightharpoonup> string) \<Rightarrow> (go_error + (string \<rightharpoonup> string)) option" where
  "in_place_images tm [] m = Some (Inr m)"
| "in_place_images tm (op # ops) m =
     (let path = cut_first ''/spec/template'' (jo_path op) in
      case container_image_index path of
        None \<Rightarrow> Some (Inl (ErrFmt ''patch cannot use inplace-update'' [path]))
      | Some ds \<Rightarrow>
          if jo_operation op \<noteq> ''replace''
          then Some (Inl (ErrFmt ''patch cannot use inplace-update'' [path]))
          else
            let index = (case atoi ds of Some i \<Rightarrow> i | None \<Rightarrow> max_int64) in
            if int (length (tm_containers tm)) \<le> index
            then Some (Inl (ErrFmt ''container index out of range'' [path]))
            else case jo_value op of
                   None \<Rightarrow> None
                 | Some v \<Rightarrow> in_place_images tm ops (m(ctr_name (tm_containers tm ! nat index) \<mapsto> v)))"

text \<open>The data are decoded behind a pointer, which stays nil for the text \<open>null\<close>; then the code panics.\<close>

definition GetTemplateFromRevision :: "env \<Rightarrow> controller_revision \<Rightarrow> (go_error + pod_template) option" where
  "GetTemplateFromRevision env r =
     (case e_unmarshal_template env (rev_data r) of
        Inl err \<Rightarrow> Some (Inl err)
      | Inr None \<Rightarrow> None
      | Inr (Some template) \<Rightarrow> Some (Inr template))"

section \<open>The closures\<close>

text \<open>Each fetches the pod from the cache, changes a copy and sends it.\<close>

definition mark_not_ready :: "env \<Rightarrow> pod \<Rightarrow> pod_condition \<Rightarrow> sys \<Rightarrow> (go_error option \<times> sys) option" where
  "mark_not_ready env pod condition s =
     (case e_pod_lister env (trace s) (p_namespace pod) (p_name pod) of
        Inl err \<Rightarrow> Some (Some err, s)
      | Inr origin \<Rightarrow>
          let clone = SetPodCondition origin condition in
          Some (e_pod_update_status env (trace s) clone, log_call (CallPodUpdateStatus clone) s))"

definition start_grace :: "env \<Rightarrow> pod \<Rightarrow> controller_revision \<Rightarrow> sys \<Rightarrow> (go_error option \<times> sys) option" where
  "start_grace env pod updateRevision s =
     (case e_pod_lister env (trace s) (p_namespace pod) (p_name pod) of
        Inl err \<Rightarrow> Some (Some err, s)
      | Inr origin \<Rightarrow>
          let inPlaceStatus = \<lparr>ip_revision = rev_name updateRevision,
                               ip_timestamp = e_clock env (trace s), ip_old_img_ids = []\<rparr>;
              clone = origin\<lparr>p_annotations :=
                map_set (p_annotations origin) status_key (e_marshal_inplace env inPlaceStatus)\<rparr>
          in Some (e_pod_update_status env (trace s) clone, log_call (CallPodUpdateStatus clone) s))"

text \<open>
  The loop over the containers of the copy: a container whose image changes gets it, and
  its container id is recorded; a container without a status panics.
\<close>

fun change_images ::
  "(string \<rightharpoonup> string) \<Rightarrow> container_status list \<Rightarrow> container list \<Rightarrow>
   (container list \<times> (string \<times> string) list) option" where
  "change_images newImage statuses [] = Some ([], [])"
| "change_images newImage statuses (c # cs) =
     (case newImage (ctr_name c) of
        None \<Rightarrow> do {
          (cs', ids) \<leftarrow> change_images newImage statuses cs;
          Some (c # cs', ids)
        }
      | Some img \<Rightarrow> do {
          status \<leftarrow> first_match (\<lambda>v. cs_name v = ctr_name c) (rev statuses);
          (cs', ids) \<leftarrow> change_images newImage statuses cs;
          Some (c\<lparr>ctr_image := img\<rparr> # cs', (ctr_name c, cs_container_id status) # ids)
        })"

definition send_images ::
  "env \<Rightarrow> app \<Rightarrow> pod \<Rightarrow> controller_revision \<Rightarrow> (string \<rightharpoonup> string) \<Rightarrow> sys \<Rightarrow>
   (go_error option \<times> sys) option" where
  "send_images env app pod updateRevision newImage s =
     (case e_pod_lister env (trace s) (p_namespace pod) (p_name pod) of
        Inl err \<Rightarrow> Some (Some err, s)
      | Inr origin \<Rightarrow> do {
          let clone = origin\<lparr>p_labels :=
            map_set (p_labels origin) revision_label (st_update_revision (a_status app))\<rparr>;
          (containers, oldIds) \<leftarrow>
            change_images newImage (p_container_statuses clone) (p_containers clone);
          let inPlaceStatus = \<lparr>ip_revision = rev_name updateRevision,
                               ip_timestamp = e_clock env (trace s), ip_old_img_ids = oldIds\<rparr>;
          let clone = clone\<lparr>p_containers := containers,
                p_annotations :=
                  map_set (p_annotations clone) status_key (e_marshal_inplace env inPlaceStatus)\<rparr>;
          Some (e_pod_update env (trace s) clone, log_call (CallPodUpdate clone) s)
        })"

section \<open>InPlaceUpdatePod\<close>

definition grace_seconds :: "app \<Rightarrow> int" where
  "grace_seconds app =
     (if strategy app = RollingUpdateType then
        (case rolling app of
           None \<Rightarrow> 0
         | Some ru \<Rightarrow> (case ru_inplace ru of None \<Rightarrow> 0 | Some st \<Rightarrow> sint (grace_period_seconds st)))
      else 0)"

text \<open>
  \<open>int(d.Seconds())\<close> truncates towards zero.  An annotation that cannot be decoded leaves
  the zero status, with the zero time.
\<close>

definition duration_seconds :: "duration \<Rightarrow> int" where
  "duration_seconds d = (if 0 \<le> d then d div second else - (- d div second))"

definition remaining_seconds :: "env \<Rightarrow> sys \<Rightarrow> string \<Rightarrow> int \<Rightarrow> int" where
  "remaining_seconds env s statusBytes grace =
     (let ts = (case e_unmarshal_inplace env statusBytes of Inl _ \<Rightarrow> 0 | Inr st \<Rightarrow> ip_timestamp st) in
      duration_seconds (time_sub (time_add ts (grace * second)) (e_clock env (trace s))))"

text \<open>The first half: find the pod's revision and the images the patch changes, or an error.\<close>

definition in_place_plan ::
  "env \<Rightarrow> pod \<Rightarrow> controller_revision \<Rightarrow> controller_revision list \<Rightarrow>
   (go_error + (string \<rightharpoonup> string)) option" where
  "in_place_plan env pod updateRevision revisions =
     (case first_match (\<lambda>r. rev_name r = getPodRevision pod) revisions of
        None \<Rightarrow> Some (Inl (ErrFmt ''revision not found'' [getPodRevision pod]))
      | Some oldRevision \<Rightarrow>
          (case e_json_patch env (rev_data oldRevision) (rev_data updateRevision) of
             Inl err \<Rightarrow> Some (Inl err)
           | Inr patches \<Rightarrow>
               (case GetTemplateFromRevision env oldRevision of
                  None \<Rightarrow> None
                | Some (Inl err) \<Rightarrow> Some (Inl err)
                | Some (Inr oldTemplate) \<Rightarrow> in_place_images oldTemplate patches Map.empty)))"

text \<open>Running a closure under the retry loop and returning its error with no seconds to wait.\<close>

definition retry_and_return ::
  "env \<Rightarrow> (sys \<Rightarrow> (go_error option \<times> sys) option) \<Rightarrow> sys \<Rightarrow> ((go_error option \<times> int) \<times> sys) option" where
  "retry_and_return env f s =
     do {
       (err, s) \<leftarrow> retry_on_conflict env f s;
       Some ((err, 0), s)
     }"

text \<open>The second half: mark the pod not ready, wait, change the images.\<close>

definition in_place_step ::
  "env \<Rightarrow> app \<Rightarrow> pod \<Rightarrow> controller_revision \<Rightarrow> (string \<rightharpoonup> string) \<Rightarrow> sys \<Rightarrow>
   ((go_error option \<times> int) \<times> sys) option" where
  "in_place_step env app pod updateRevision newImage s =
     (let statusBytes = map_get (p_annotations pod) status_key;
          graceSeconds = grace_seconds app;
          waitSeconds = remaining_seconds env s statusBytes graceSeconds
      in if ContainsReadinessGate pod \<and> \<not> IfConditionFalse pod in_place_update_ready then
           retry_and_return env
             (mark_not_ready env pod
                \<lparr>pc_type = in_place_update_ready, pc_status = ConditionFalse,
                 pc_transition = e_clock env (trace s), pc_reason = ''StartInPlaceUpdate''\<rparr>) s
         else if 0 < graceSeconds \<and> statusBytes = '''' then do {
           (err, s) \<leftarrow> retry_on_conflict env (start_grace env pod updateRevision) s;
           case err of
             Some e \<Rightarrow> Some ((Some e, 0), s)
           | None \<Rightarrow> Some ((None, graceSeconds + graceSeconds mod 2), s)
         }
         else if 0 < graceSeconds \<and> 0 < waitSeconds then
           Some ((None, waitSeconds + waitSeconds mod 2), s)
         else retry_and_return env (send_images env app pod updateRevision newImage) s)"

definition InPlaceUpdatePod ::
  "env \<Rightarrow> app \<Rightarrow> pod \<Rightarrow> controller_revision \<Rightarrow> controller_revision list \<Rightarrow> sys \<Rightarrow>
   ((go_error option \<times> int) \<times> sys) option" where
  "InPlaceUpdatePod env app pod updateRevision revisions s =
     do {
       plan \<leftarrow> in_place_plan env pod updateRevision revisions;
       case plan of
         Inl err \<Rightarrow> Some ((Some err, 0), s)
       | Inr newImage \<Rightarrow> in_place_step env app pod updateRevision newImage s
     }"

section \<open>The end of an in-place update\<close>

definition mark_done :: "env \<Rightarrow> pod \<Rightarrow> pod_condition \<Rightarrow> sys \<Rightarrow> (go_error option \<times> sys) option" where
  "mark_done env pod condition s =
     (case e_pod_lister env (trace s) (p_namespace pod) (p_name pod) of
        Inl err \<Rightarrow> Some (Some err, s)
      | Inr origin \<Rightarrow>
          let clone = SetPodCondition origin condition;
              clone = clone\<lparr>p_annotations := map_delete (p_annotations clone) status_key\<rparr>
          in Some (e_pod_update_status env (trace s) clone, log_call (CallPodUpdateStatus clone) s))"

definition CleanUpInPlaceUpdate :: "env \<Rightarrow> pod \<Rightarrow> sys \<Rightarrow> (go_error option \<times> sys) option" where
  "CleanUpInPlaceUpdate env pod s =
     (let condition = \<lparr>pc_type = in_place_update_ready, pc_status = ConditionTrue,
                       pc_transition = e_clock env (trace s), pc_reason = ''InPlaceUpdateDone''\<rparr>
      in retry_on_conflict env (mark_done env pod condition) s)"

fun containers_restarted :: "inplace_status \<Rightarrow> container_status list \<Rightarrow> bool" where
  "containers_restarted st [] = True"
| "containers_restarted st (v # vs) =
     (case map_of (ip_old_img_ids st) (cs_name v) of
        None \<Rightarrow> containers_restarted st vs
      | Some imgId \<Rightarrow>
          if imgId = cs_image_id v then False
          else if \<not> cs_ready v then False
          else case cs_running_since v of
                 None \<Rightarrow> False
               | Some t \<Rightarrow> if time_before t (ip_timestamp st) then False else containers_restarted st vs)"

definition IsInPlaceUpdateDone :: "env \<Rightarrow> pod \<Rightarrow> bool \<times> go_error option" where
  "IsInPlaceUpdateDone env pod =
     (case e_unmarshal_inplace env (map_get (p_annotations pod) status_key) of
        Inl err \<Rightarrow> (False, Some err)
      | Inr st \<Rightarrow> (containers_restarted st (p_container_statuses pod), None))"

section \<open>The calls an in-place update makes\<close>

text \<open>
  Marking and the grace annotation only write the pod's status; the images are sent with the
  label and the annotation shown.
\<close>

fun is_status_write :: "api_call \<Rightarrow> bool" where
  "is_status_write (CallPodUpdateStatus p) = True"
| "is_status_write _ = False"

definition sends_images :: "env \<Rightarrow> app \<Rightarrow> controller_revision \<Rightarrow> api_call \<Rightarrow> bool" where
  "sends_images env app r c \<longleftrightarrow>
     (\<exists>p st. c = CallPodUpdate p \<and> map_get (p_labels p) revision_label = st_update_revision (a_status app) \<and>
        map_get (p_annotations p) status_key = e_marshal_inplace env st \<and> ip_revision st = rev_name r)"

lemma status_write_closures [simp]:
  "closure_only is_status_write (mark_not_ready env pod c)"
  "closure_only is_status_write (start_grace env pod r)"
  "closure_only is_status_write (mark_done env pod c)"
  by (auto simp: closure_only_def mark_not_ready_def start_grace_def mark_done_def Let_def
      split: sum.splits intro!: only_log)

lemma send_images_closure [simp]: "closure_only (sends_images env app r) (send_images env app pod r m)"
  by (auto simp: closure_only_def send_images_def Let_def bind_eq_Some_conv sends_images_def
      split: sum.splits intro!: only_log)
     (rule exI, rule conjI, rule refl, simp)+

lemma retry_and_return_only:
  "retry_and_return env f s = Some (res, s') \<Longrightarrow> closure_only Q f \<Longrightarrow> only Q s s'"
  by (auto simp: retry_and_return_def bind_eq_Some_conv dest: retry_only)

text \<open>
  What the second half does: nothing, status writes, or, when the pod is marked and the grace
  period has run down to less than a second, the images.
\<close>

definition grace_over :: "env \<Rightarrow> app \<Rightarrow> pod \<Rightarrow> sys \<Rightarrow> bool" where
  "grace_over env app pod s \<longleftrightarrow>
     grace_seconds app \<le> 0 \<or>
     map_get (p_annotations pod) status_key \<noteq> '''' \<and>
     remaining_seconds env s (map_get (p_annotations pod) status_key) (grace_seconds app) \<le> 0"

lemma in_place_step_cases:
  assumes "in_place_step env app pod r m s = Some (res, s')"
  shows "only is_status_write s s' \<or>
    (only (sends_images env app r) s s' \<and> grace_over env app pod s \<and>
     (\<not> ContainsReadinessGate pod \<or> IfConditionFalse pod in_place_update_ready))"
proof (cases "ContainsReadinessGate pod \<and> \<not> IfConditionFalse pod in_place_update_ready")
  case True
  with assms have "only is_status_write s s'"
    unfolding in_place_step_def Let_def
    by (simp only: simp_thms if_True) (erule retry_and_return_only, simp)
  then show ?thesis ..
next
  case marked: False
  show ?thesis
  proof (cases "0 < grace_seconds app \<and> map_get (p_annotations pod) status_key = ''''")
    case True
    with assms marked obtain err where "retry_on_conflict env (start_grace env pod r) s = Some (err, s')"
      unfolding in_place_step_def Let_def
      by (simp only: simp_thms if_True if_False) (auto simp: bind_eq_Some_conv split: option.splits)
    then have "only is_status_write s s'" by (rule retry_only) simp
    then show ?thesis ..
  next
    case unwaited: False
    show ?thesis
    proof (cases "grace_over env app pod s")
      case True
      with assms marked unwaited
      have "retry_and_return env (send_images env app pod r m) s = Some (res, s')"
        unfolding in_place_step_def Let_def grace_over_def
        by (simp only: simp_thms if_False) (auto split: if_splits)
      then have "only (sends_images env app r) s s'"
        by (rule retry_and_return_only) simp
      with True marked show ?thesis by blast
    next
      case False
      with assms marked unwaited have "s' = s"
        unfolding in_place_step_def Let_def grace_over_def
        by (simp only: simp_thms if_False) (auto split: if_splits)
      then show ?thesis by simp
    qed
  qed
qed

lemma status_write_quiet: "only is_status_write s s' \<Longrightarrow> quiet s s'"
  by (erule only_mono) (erule is_status_write.elims, simp_all)

lemma sends_images_quiet: "only (sends_images env app r) s s' \<Longrightarrow> quiet s s'"
  by (erule only_mono) (auto simp: sends_images_def)

lemma in_place_step_quiet: "in_place_step env app pod r m s = Some (res, s') \<Longrightarrow> quiet s s'"
  by (drule in_place_step_cases) (blast intro: status_write_quiet sends_images_quiet)

lemma InPlaceUpdatePod_cases:
  assumes "InPlaceUpdatePod env app pod r rs s = Some (res, s')"
  obtains e where "in_place_plan env pod r rs = Some (Inl e)" "res = (Some e, 0)" "s' = s"
  | m where "in_place_plan env pod r rs = Some (Inr m)" "in_place_step env app pod r m s = Some (res, s')"
proof -
  from assms obtain plan where plan: "in_place_plan env pod r rs = Some plan"
    by (auto simp: InPlaceUpdatePod_def bind_eq_Some_conv)
  show ?thesis
  proof (cases plan)
    case (Inl e)
    with assms plan show ?thesis by (intro that(1)) (auto simp: InPlaceUpdatePod_def)
  next
    case (Inr m)
    with assms plan show ?thesis by (intro that(2)) (auto simp: InPlaceUpdatePod_def)
  qed
qed

lemma InPlaceUpdatePod_quiet:
  "InPlaceUpdatePod env app pod r rs s = Some (res, s') \<Longrightarrow> quiet s s'"
  by (erule InPlaceUpdatePod_cases) (auto dest: in_place_step_quiet)

lemma CleanUpInPlaceUpdate_quiet:
  "CleanUpInPlaceUpdate env pod s = Some (err, s') \<Longrightarrow> quiet s s'"
  by (rule status_write_quiet)
    (simp add: CleanUpInPlaceUpdate_def Let_def retry_only [where Q = is_status_write])

section \<open>Properties\<close>

text \<open>The operations of a patch that an in-place update accepts, and the container each names.\<close>

definition image_target :: "pod_template \<Rightarrow> json_op \<Rightarrow> string option" where
  "image_target tm op =
     (case container_image_index (cut_first ''/spec/template'' (jo_path op)) of
        None \<Rightarrow> None
      | Some ds \<Rightarrow>
          let index = (case atoi ds of Some i \<Rightarrow> i | None \<Rightarrow> max_int64) in
          if jo_operation op = ''replace'' \<and> index < int (length (tm_containers tm))
          then Some (ctr_name (tm_containers tm ! nat index)) else None)"

lemma in_place_images_step:
  "in_place_images tm (op # ops) m = Some (Inr m') \<Longrightarrow>
     \<exists>n v. image_target tm op = Some n \<and> jo_value op = Some v \<and>
       in_place_images tm ops (m(n \<mapsto> v)) = Some (Inr m')"
  by (auto simp: image_target_def Let_def split: option.splits if_splits)

lemma in_place_images_spec:
  "in_place_images tm ops m = Some (Inr m') \<Longrightarrow>
     (\<forall>op \<in> set ops. image_target tm op \<noteq> None \<and> jo_value op \<noteq> None) \<and>
     m' = m ++ map_of (rev (map (\<lambda>op. (the (image_target tm op), the (jo_value op))) ops))"
proof (induction ops arbitrary: m)
  case (Cons op ops)
  from in_place_images_step [OF Cons.prems] obtain n v
    where step: "image_target tm op = Some n" "jo_value op = Some v"
      "in_place_images tm ops (m(n \<mapsto> v)) = Some (Inr m')" by blast
  from Cons.IH [OF step(3)] step(1,2) show ?case
    by (auto simp: map_add_def fun_eq_iff split: option.splits)
qed simp

lemma in_place_plan_cases:
  assumes "in_place_plan env pod r rs = Some (Inr m)"
  obtains old patches tm where "old \<in> set rs" "rev_name old = getPodRevision pod"
    "e_json_patch env (rev_data old) (rev_data r) = Inr patches"
    "GetTemplateFromRevision env old = Some (Inr tm)" "in_place_images tm patches Map.empty = Some (Inr m)"
  using assms by (auto simp: in_place_plan_def split: option.splits sum.splits dest: first_match_Some)

text \<open>
  C22.  An in-place update touches the cluster only when it may: if \<open>InPlaceUpdatePod\<close> made any
  call at all, then the pod's revision is among the App's revisions, and every operation of
  the patch from it to the update revision replaces the image of a container of the old
  template by a string.  It never creates or deletes a pod.
\<close>

theorem InPlaceUpdatePod_only_image_changes:
  assumes "InPlaceUpdatePod env app pod r rs s = Some (res, s')" and "calls_between s s' \<noteq> []"
  shows "lifecycle (calls_between s s') = [] \<and>
    (\<exists>old \<in> set rs. rev_name old = getPodRevision pod \<and>
       (\<exists>patches tm. e_json_patch env (rev_data old) (rev_data r) = Inr patches \<and>
          GetTemplateFromRevision env old = Some (Inr tm) \<and>
          list_all (\<lambda>op. image_target tm op \<noteq> None \<and> jo_value op \<noteq> None) patches))"
proof
  show "lifecycle (calls_between s s') = []"
    by (rule quiet_calls_between, rule InPlaceUpdatePod_quiet, rule assms)
  from assms(1) show "\<exists>old \<in> set rs. rev_name old = getPodRevision pod \<and>
       (\<exists>patches tm. e_json_patch env (rev_data old) (rev_data r) = Inr patches \<and>
          GetTemplateFromRevision env old = Some (Inr tm) \<and>
          list_all (\<lambda>op. image_target tm op \<noteq> None \<and> jo_value op \<noteq> None) patches)"
  proof (cases rule: InPlaceUpdatePod_cases)
    case 1
    with assms(2) show ?thesis by (simp add: calls_between_def)
  next
    case (2 m)
    from 2(1) obtain old patches tm where plan: "old \<in> set rs" "rev_name old = getPodRevision pod"
      "e_json_patch env (rev_data old) (rev_data r) = Inr patches"
      "GetTemplateFromRevision env old = Some (Inr tm)" "in_place_images tm patches Map.empty = Some (Inr m)"
      by (rule in_place_plan_cases)
    from in_place_images_spec [OF plan(5)]
    have "list_all (\<lambda>op. image_target tm op \<noteq> None \<and> jo_value op \<noteq> None) patches"
      by (simp add: list_all_iff)
    with plan show ?thesis by blast
  qed
qed

text \<open>
  C23.  Images are sent last: if an in-place update wrote a pod's spec, then at the start of the
  pass the pod was marked not ready (or has no such gate) and no whole second of the grace
  period was left; the pod that was written carries the revision label of the App's status
  and the annotation of an in-place update to the update revision.
\<close>

theorem InPlaceUpdatePod_images_last:
  assumes "InPlaceUpdatePod env app pod r rs s = Some (res, s')"
    and "CallPodUpdate p \<in> set (calls_between s s')"
  shows "grace_over env app pod s \<and>
    (\<not> ContainsReadinessGate pod \<or> IfConditionFalse pod in_place_update_ready) \<and>
    map_get (p_labels p) revision_label = st_update_revision (a_status app) \<and>
    (\<exists>st. map_get (p_annotations p) status_key = e_marshal_inplace env st \<and> ip_revision st = rev_name r)"
  using assms(1)
proof (cases rule: InPlaceUpdatePod_cases)
  case 1
  with assms(2) show ?thesis by (simp add: calls_between_def)
next
  case (2 m)
  have "\<not> only is_status_write s s'"
    using only_calls_between [OF _ assms(2), of is_status_write] by auto
  with in_place_step_cases [OF 2(2)] only_calls_between [OF _ assms(2), of "sends_images env app r"]
  show ?thesis by (auto simp: sends_images_def)
qed

section \<open>A concrete run\<close>

definition image_op :: json_op where
  "image_op = \<lparr>jo_operation = ''replace'', jo_path = ''/spec/template/spec/containers/0/image'',
     jo_value = Some ''nginx:2''\<rparr>"

definition image_pod :: pod where
  "image_pod = (running_pod ''web-site-1'' ''r1'')
     \<lparr>p_containers := tm_containers sample_template,
      p_container_statuses := [\<lparr>cs_name = ''main'', cs_container_id = ''c1'', cs_image_id = ''i1'',
        cs_ready = True, cs_running_since = Some 5\<rparr>]\<rparr>"

definition image_env :: env where
  "image_env = sample_env\<lparr>e_json_patch := \<lambda>_ _. Inr [image_op], e_pod_lister := \<lambda>_ _ _. Inr image_pod\<rparr>"

lemma image_env_run:
  "\<exists>p s'. InPlaceUpdatePod image_env sample_app image_pod (sample_revision ''r2'' 2)
       [sample_revision ''r1'' 1, sample_revision ''r2'' 2] sample_sys = Some ((None, 0), s') \<and>
     trace s' = [CallPodUpdate p] \<and> ctr_image (p_containers p ! 0) = ''nginx:2''"
  by (simp add: InPlaceUpdatePod_def in_place_plan_def in_place_step_def retry_and_return_def
      retry_on_conflict_def send_images_def image_env_def image_pod_def image_op_def sample_env_def
      sample_sys_def sample_defs grace_seconds_def ContainsReadinessGate_def getPodRevision_def
      GetTemplateFromRevision_def container_image_index_def digit_val_def atoi_def Let_def
      max_int64_def min_int64_def eval_nat_numeral)

theorem InPlaceUpdatePod_only_image_changes_witness:
  "\<exists>old \<in> {sample_revision ''r1'' 1, sample_revision ''r2'' 2}. rev_name old = getPodRevision image_pod \<and>
     (\<exists>patches tm. e_json_patch image_env (rev_data old) ''r2'' = Inr patches \<and>
        GetTemplateFromRevision image_env old = Some (Inr tm) \<and>
        list_all (\<lambda>op. image_target tm op \<noteq> None \<and> jo_value op \<noteq> None) patches)"
proof -
  from image_env_run obtain p s' where run:
    "InPlaceUpdatePod image_env sample_app image_pod (sample_revision ''r2'' 2)
       [sample_revision ''r1'' 1, sample_revision ''r2'' 2] sample_sys = Some ((None, 0), s')"
    "calls_between sample_sys s' \<noteq> []"
    by (auto simp: calls_between_def sample_sys_def)
  from InPlaceUpdatePod_only_image_changes [OF run] show ?thesis by (simp add: sample_revision_def)
qed

theorem InPlaceUpdatePod_images_last_witness:
  "\<exists>p :: pod. ctr_image (p_containers p ! 0) = ''nginx:2'' \<and> grace_over image_env sample_app image_pod sample_sys \<and>
     map_get (p_labels p) revision_label = '''' \<and>
     (\<exists>st. map_get (p_annotations p) status_key = e_marshal_inplace image_env st \<and> ip_revision st = ''r2'')"
proof -
  from image_env_run obtain p s' where run:
    "InPlaceUpdatePod image_env sample_app image_pod (sample_revision ''r2'' 2)
       [sample_revision ''r1'' 1, sample_revision ''r2'' 2] sample_sys = Some ((None, 0), s')"
    "CallPodUpdate p \<in> set (calls_between sample_sys s')" "ctr_image (p_containers p ! 0) = ''nginx:2''"
    by (auto simp: calls_between_def sample_sys_def)
  from InPlaceUpdatePod_images_last [OF run(1,2)] run(3) show ?thesis
    by (intro exI [of _ p]) (simp add: sample_revision_def zero_status_def)
qed

section \<open>When an in-place update is done\<close>

text \<open>
  An in-place update counts as done exactly when every container that it recorded has an
  image id other than the recorded id, is ready, and runs since no earlier than the update's
  time stamp; an annotation that cannot be decoded is an error and not done.
\<close>

theorem IsInPlaceUpdateDone_spec:
  "IsInPlaceUpdateDone env pod =
     (case e_unmarshal_inplace env (map_get (p_annotations pod) status_key) of
        Inl err \<Rightarrow> (False, Some err)
      | Inr st \<Rightarrow>
          (list_all (\<lambda>v. case map_of (ip_old_img_ids st) (cs_name v) of
             None \<Rightarrow> True
           | Some i \<Rightarrow> i \<noteq> cs_image_id v \<and> cs_ready v \<and>
               (case cs_running_since v of None \<Rightarrow> False | Some t \<Rightarrow> ip_timestamp st \<le> t))
             (p_container_statuses pod), None))"
proof -
  have "containers_restarted st vs \<longleftrightarrow>
      list_all (\<lambda>v. case map_of (ip_old_img_ids st) (cs_name v) of
             None \<Rightarrow> True
           | Some i \<Rightarrow> i \<noteq> cs_image_id v \<and> cs_ready v \<and>
               (case cs_running_since v of None \<Rightarrow> False | Some t \<Rightarrow> ip_timestamp st \<le> t)) vs" for st vs
    by (induction vs) (auto simp: time_before_def not_less split: option.splits)
  then show ?thesis by (simp add: IsInPlaceUpdateDone_def split: sum.splits)
qed

end
