(* ===== verification/Revision_History.thy ===== *)
theory Revision_History
  imports Samples_Env
begin

text \<open>
  Revisions of an App: the patch that a revision stores and its application
  (\<open>getAppPatch\<close>, \<open>ApplyRevision\<close> of \<open>deployer/internal/controller/app/utils.go\<close>), and
  from \<open>state\_controller.go\<close> the choice of the update revision (the first half of
  \<open>UpdateApp\<close>), the truncation of the history, listing and adoption.

  The package \<open>history\<close>, the codecs and the strategic merge patch are library code and
  obj of \<open>env\<close>.
\<close>

section \<open>Patches\<close>

definition json_field :: "(string \<times> json) list \<Rightarrow> string \<Rightarrow> json option" where
  "json_field obj k = map_of (rev obj) k"

definition json_put :: "string \<Rightarrow> json \<Rightarrow> (string \<times> json) list \<Rightarrow> (string \<times> json) list" where
  "json_put k v obj = filter (\<lambda>(k', _). k' \<noteq> k) obj @ [(k, v)]"

text \<open>
  \<open>json.Unmarshal\<close> into a map: an object, or null, which leaves the map nil; anything else
  is an error.  A type assertion to a map that fails panics.
\<close>

fun json_object :: "json \<Rightarrow> (go_error + (string \<times> json) list)" where
  "json_object (JObj obj) = Inr obj"
| "json_object JNull = Inr []"
| "json_object _ = Inl (ErrOther ''json: cannot unmarshal into a map'')"

fun assert_map :: "json option \<Rightarrow> (string \<times> json) list option" where
  "assert_map (Some (JObj obj)) = Some obj"
| "assert_map _ = None"

definition getAppPatch :: "env \<Rightarrow> app \<Rightarrow> (go_error + string) option" where
  "getAppPatch env app =
     (case e_runtime_encode env app of
        Inl err \<Rightarrow> Some (Inl err)
      | Inr str \<Rightarrow>
          (case e_json_parse env str of
             Inl err \<Rightarrow> Some (Inl err)
           | Inr j \<Rightarrow>
               (case json_object j of
                  Inl err \<Rightarrow> Some (Inl err)
                | Inr raw \<Rightarrow> do {
                    spec \<leftarrow> assert_map (json_field raw ''spec'');
                    template \<leftarrow> assert_map (json_field spec ''template'');
                    let specCopy = [(''template'', JObj (json_put ''$patch'' (JStr ''replace'') template))];
                    let objCopy = [(''spec'', JObj specCopy)];
                    Some (e_json_print env (JObj objCopy))
                  })))"

text \<open>\<open>runtime.EncodeOrDie\<close> panics on an error, as does \<open>ApplyRevision\<close> then; \<open>e\_encode\_app\<close> is its result.\<close>

definition ApplyRevision :: "env \<Rightarrow> app \<Rightarrow> controller_revision \<Rightarrow> (go_error + app) option" where
  "ApplyRevision env app revision =
     (case e_encode_app env app of
        None \<Rightarrow> None
      | Some original \<Rightarrow>
          (case e_merge_patch env original (rev_data revision) of
             Inl err \<Rightarrow> Some (Inl err)
           | Inr patched \<Rightarrow>
               (case e_unmarshal_app env patched of
                  Inl err \<Rightarrow> Some (Inl err)
                | Inr restoredApp \<Rightarrow> Some (Inr restoredApp))))"

text \<open>It panics exactly when the App cannot be encoded, whatever the revision is.\<close>

lemma ApplyRevision_panics: "ApplyRevision env app revision = None \<longleftrightarrow> e_encode_app env app = None"
  by (auto simp: ApplyRevision_def split: option.splits sum.splits)

section \<open>Choosing the update revision\<close>

definition annotate :: "gomap \<Rightarrow> gomap \<Rightarrow> gomap" where
  "annotate m extra =
     Some ((case m of None \<Rightarrow> Map.empty | Some f \<Rightarrow> f) ++ (case extra of None \<Rightarrow> Map.empty | Some g \<Rightarrow> g))"

definition next_revision_id :: "controller_revision list \<Rightarrow> int64" where
  "next_revision_id revisions = (if revisions = [] then 1 else rev_revision (last revisions) + 1)"

text \<open>
  The candidate: patch, next id, annotations copied from the App; then the newest revision if
  it equals the candidate, an older equal revision brought forward, or a new one.  The result
  carries the collision count, which the library may have raised.
\<close>

definition new_candidate ::
  "env \<Rightarrow> app \<Rightarrow> controller_revision list \<Rightarrow> int32 \<Rightarrow> (go_error + controller_revision) option" where
  "new_candidate env app revisions collisionCount =
     do {
       patch \<leftarrow> getAppPatch env app;
       case patch of
         Inl err \<Rightarrow> Some (Inl err)
       | Inr data \<Rightarrow>
           (case e_rev_new env app (tm_labels (sp_template (a_spec app))) data
                  (next_revision_id revisions) collisionCount of
              Inl err \<Rightarrow> Some (Inl err)
            | Inr cr \<Rightarrow>
                Some (Inr (cr\<lparr>rev_annotations := annotate (rev_annotations cr) (a_annotations app)\<rparr>)))
     }"

definition settle_revision ::
  "env \<Rightarrow> app \<Rightarrow> controller_revision list \<Rightarrow> controller_revision \<Rightarrow> int32 \<Rightarrow> sys \<Rightarrow>
   ((go_error + controller_revision) \<times> int32) \<times> sys" where
  "settle_revision env app revisions cr collisionCount s =
     (let equalRevisions = e_rev_find env revisions cr in
      if equalRevisions \<noteq> [] then
        if e_rev_equal env (last revisions) (last equalRevisions)
        then ((Inr (last revisions), collisionCount), s)
        else ((e_rev_update env (trace s) (last equalRevisions) (rev_revision cr), collisionCount),
              log_call (CallRevUpdate (last equalRevisions) (rev_revision cr)) s)
      else (e_rev_create env (trace s) app cr collisionCount, log_call (CallRevCreate cr) s))"

definition choose_revision ::
  "env \<Rightarrow> app \<Rightarrow> controller_revision list \<Rightarrow> sys \<Rightarrow>
   (((go_error + controller_revision) \<times> int32) \<times> sys) option" where
  "choose_revision env app revisions s =
     do {
       let collisionCount = (case st_collision_count (a_status app) of None \<Rightarrow> 0 | Some n \<Rightarrow> n);
       candidate \<leftarrow> new_candidate env app revisions collisionCount;
       case candidate of
         Inl err \<Rightarrow> Some ((Inl err, collisionCount), s)
       | Inr cr \<Rightarrow> Some (settle_revision env app revisions cr collisionCount s)
     }"

text \<open>The revision the App's status names, or the update revision.\<close>

definition current_revision :: "app \<Rightarrow> controller_revision list \<Rightarrow> controller_revision \<Rightarrow> controller_revision" where
  "current_revision app revisions updateRevision =
     (case first_match (\<lambda>r. rev_name r = st_current_revision (a_status app)) revisions of
        Some r \<Rightarrow> r
      | None \<Rightarrow> updateRevision)"

section \<open>Truncating the history\<close>

definition live_revision ::
  "pod list \<Rightarrow> controller_revision option \<Rightarrow> controller_revision option \<Rightarrow> string \<Rightarrow> bool" where
  "live_revision pods current update n \<longleftrightarrow>
     (case current of None \<Rightarrow> False | Some r \<Rightarrow> rev_name r = n) \<or>
     (case update of None \<Rightarrow> False | Some r \<Rightarrow> rev_name r = n) \<or>
     list_ex (\<lambda>p. getPodRevision p = n) pods"

text \<open>Deleting a nil revision panics in the library, which reads its name.\<close>

fun delete_revisions ::
  "env \<Rightarrow> controller_revision option list \<Rightarrow> sys \<Rightarrow> (go_error option \<times> sys) option" where
  "delete_revisions env [] s = Some (None, s)"
| "delete_revisions env (None # rs) s = None"
| "delete_revisions env (Some r # rs) s =
     (let err = e_rev_delete env (trace s) r;
          s = log_call (CallRevDelete r) s
      in case err of Some e \<Rightarrow> Some (Some e, s) | None \<Rightarrow> delete_revisions env rs s)"

definition history_limit :: "app \<Rightarrow> int" where
  "history_limit app = (case sp_history_limit (a_spec app) of None \<Rightarrow> 10 | Some n \<Rightarrow> sint n)"

text \<open>
  \<open>history[:len(history)-limit]\<close>: the slice was made with the capacity of \<open>revisions\<close>, so
  that a negative limit reaches nil elements behind its length, or panics beyond its capacity.
\<close>

definition surplus :: "controller_revision list \<Rightarrow> int \<Rightarrow> nat \<Rightarrow> controller_revision option list option" where
  "surplus history limit capacity =
     (let n = int (length history) - limit in
      if int capacity < n then None
      else Some (take (nat n) (map Some history @ replicate (capacity - length history) None)))"

definition truncateHistory ::
  "env \<Rightarrow> app \<Rightarrow> pod list \<Rightarrow> controller_revision list \<Rightarrow> controller_revision option \<Rightarrow>
   controller_revision option \<Rightarrow> sys \<Rightarrow> (go_error option \<times> sys) option" where
  "truncateHistory env app pods revisions current update s =
     (let history = filter (\<lambda>r. \<not> live_revision pods current update (rev_name r)) revisions;
          limit = history_limit app
      in if limit < int (length history) then do {
           toDelete \<leftarrow> surplus history limit (length revisions);
           delete_revisions env toDelete s
         }
         else Some (None, s))"

section \<open>Listing and adoption\<close>

definition ListRevisions :: "env \<Rightarrow> app \<Rightarrow> sys \<Rightarrow> go_error + controller_revision list" where
  "ListRevisions env app s =
     (case e_selector env (sp_selector (a_spec app)) of
        Inl err \<Rightarrow> Inl err
      | Inr selector \<Rightarrow> e_rev_list env (trace s) app selector)"

text \<open>The slice of the caller is updated in place: it is returned too.\<close>

fun AdoptOrphanRevisions ::
  "env \<Rightarrow> app \<Rightarrow> controller_revision list \<Rightarrow> sys \<Rightarrow>
   go_error option \<times> controller_revision list \<times> sys" where
  "AdoptOrphanRevisions env app [] s = (None, [], s)"
| "AdoptOrphanRevisions env app (r # rs) s =
     (let res = e_rev_adopt env (trace s) app r;
          s = log_call (CallRevAdopt r) s
      in case res of
           Inl err \<Rightarrow> (Some err, r # rs, s)
         | Inr adopted \<Rightarrow>
             (let (err, rs', s) = AdoptOrphanRevisions env app rs s in (err, adopted # rs', s)))"

section \<open>Lemmas\<close>

lemma json_field_put [simp]: "json_field (json_put k v obj) k' = (if k' = k then Some v else json_field obj k')"
proof -
  have "map_of (rev (filter (\<lambda>(k', _). k' \<noteq> k) obj)) k' = (if k' = k then None else map_of (rev obj) k')"
    by (induction obj) (auto simp: map_add_def split: option.splits)
  then show ?thesis
    by (simp add: json_field_def json_put_def split del: if_split cong: if_cong)
qed

lemma delete_revisions_calls:
  assumes "delete_revisions env (map Some rs) s = Some (err, s')"
  shows "\<exists>n \<le> length rs. calls_between s s' = map CallRevDelete (take n rs) \<and> adds s s' (map CallRevDelete (take n rs)) \<and>
    (err = None \<longrightarrow> n = length rs)"
  using assms
proof (induction rs arbitrary: s)
  case Nil
  then show ?case by (simp add: adds_def calls_between_def)
next
  case (Cons r rs)
  let ?s = "log_call (CallRevDelete r) s"
  show ?case
  proof (cases "e_rev_delete env (trace s) r")
    case None
    with Cons.prems have "delete_revisions env (map Some rs) ?s = Some (err, s')" by (simp add: Let_def)
    from Cons.IH [OF this] obtain n where n: "n \<le> length rs" "adds ?s s' (map CallRevDelete (take n rs))"
      "err = None \<longrightarrow> n = length rs" by blast
    then have "adds s s' (map CallRevDelete (take (Suc n) (r # rs)))" by (simp add: adds_def)
    with n show ?thesis by (intro exI [of _ "Suc n"]) (simp add: adds_calls_between)
  next
    case (Some e)
    with Cons.prems have "err = Some e" "s' = ?s" by (simp_all add: Let_def)
    then have "adds s s' (map CallRevDelete (take 1 (r # rs)))" "err \<noteq> None"
      by (simp_all add: adds_def)
    then show ?thesis by (intro exI [of _ 1]) (auto simp: adds_calls_between)
  qed
qed

lemma delete_revisions_total: "delete_revisions env (map Some rs) s \<noteq> None"
  by (induction rs arbitrary: s) (auto simp: Let_def split: option.splits)

lemma surplus_nonneg:
  "0 \<le> limit \<Longrightarrow> limit < int (length h) \<Longrightarrow> length h \<le> cap \<Longrightarrow>
     surplus h limit cap = Some (map Some (take (length h - nat limit) h))"
  by (auto simp: surplus_def take_map nat_diff_distrib' nat_int)

abbreviation dead_revisions ::
  "pod list \<Rightarrow> controller_revision option \<Rightarrow> controller_revision option \<Rightarrow>
   controller_revision list \<Rightarrow> controller_revision list" where
  "dead_revisions pods current update revisions \<equiv>
     filter (\<lambda>r. \<not> live_revision pods current update (rev_name r)) revisions"

text \<open>Adoption and the choice of a revision leave the pods alone.\<close>

lemma settle_revision_quiet:
  "settle_revision env app revisions cr n s = (res, s') \<Longrightarrow>
     quiet s s' \<and> requeue_store s' = requeue_store s"
  by (auto simp: settle_revision_def Let_def split: if_splits intro!: quiet_log)

lemma choose_revision_quiet:
  "choose_revision env app revisions s = Some (res, s') \<Longrightarrow>
     quiet s s' \<and> requeue_store s' = requeue_store s"
proof -
  assume run: "choose_revision env app revisions s = Some (res, s')"
  then obtain n cand where "(case cand of Inl err \<Rightarrow> Some ((Inl err, n), s)
      | Inr cr \<Rightarrow> Some (settle_revision env app revisions cr n s)) = Some (res, s')"
    by (auto simp: choose_revision_def Let_def bind_eq_Some_conv)
  then show ?thesis by (cases cand) (auto dest: settle_revision_quiet)
qed

lemma AdoptOrphanRevisions_quiet:
  "AdoptOrphanRevisions env app rs s = (err, rs', s') \<Longrightarrow> quiet s s' \<and> requeue_store s' = requeue_store s"
proof (induction rs arbitrary: s err rs')
  case (Cons r rs)
  have log: "quiet s (log_call (CallRevAdopt r) s)" by (rule quiet_log) simp_all
  with Cons show ?case
    by (auto simp: Let_def split: sum.splits prod.splits intro: quiet_trans)
qed simp

lemma delete_revisions_quiet:
  "delete_revisions env rs s = Some (err, s') \<Longrightarrow> quiet s s' \<and> requeue_store s' = requeue_store s"
proof (induction env rs s rule: delete_revisions.induct)
  case (3 env r rs s)
  have log: "quiet s (log_call (CallRevDelete r) s)" by (rule quiet_log) simp_all
  with 3 show ?case by (auto simp: Let_def split: option.splits intro: quiet_trans)
qed auto

lemma truncateHistory_quiet:
  "truncateHistory env app pods rs cur upd s = Some (err, s') \<Longrightarrow>
     quiet s s' \<and> requeue_store s' = requeue_store s"
  by (auto simp: truncateHistory_def Let_def bind_eq_Some_conv split: if_splits
      dest: delete_revisions_quiet)

section \<open>Properties\<close>

text \<open>
  A revision is the App's template and nothing else: two Apps whose encodings are JSON
  objects with the same \<open>spec.template\<close> get the same patch, so that scaling or any other
  change of the spec makes no new revision.
\<close>

theorem getAppPatch_template_only:
  assumes "e_runtime_encode env a = Inr x" and "e_json_parse env x = Inr (JObj xs)"
    and "e_runtime_encode env b = Inr y" and "e_json_parse env y = Inr (JObj ys)"
    and "json_field xs ''spec'' = Some (JObj sx)" and "json_field ys ''spec'' = Some (JObj sy)"
    and "json_field sx ''template'' = json_field sy ''template''"
  shows "getAppPatch env a = getAppPatch env b"
  using assms by (simp add: getAppPatch_def)

text \<open>An App scaled to five replicas gets the patch of the App with three.\<close>

definition scaled_app :: app where
  "scaled_app = sample_app\<lparr>a_spec := (a_spec sample_app)\<lparr>sp_replicas := Some 5\<rparr>\<rparr>"

definition codec_env :: env where
  "codec_env = sample_env
     \<lparr>e_runtime_encode := \<lambda>a. Inr (itoa (case sp_replicas (a_spec a) of None \<Rightarrow> 0 | Some n \<Rightarrow> sint n)),
      e_json_parse := \<lambda>t. Inr (JObj [(''spec'', JObj [(''replicas'', JNum t), (''template'', JObj [(''a'', JNull)])])])\<rparr>"

theorem getAppPatch_template_only_witness:
  "getAppPatch codec_env sample_app = getAppPatch codec_env scaled_app \<and>
   e_runtime_encode codec_env sample_app \<noteq> e_runtime_encode codec_env scaled_app"
proof
  show "getAppPatch codec_env sample_app = getAppPatch codec_env scaled_app"
    by (rule getAppPatch_template_only [where x = "itoa 3" and y = "itoa 5"
          and sx = "[(''replicas'', JNum (itoa 3)), (''template'', JObj [(''a'', JNull)])]"
          and sy = "[(''replicas'', JNum (itoa 5)), (''template'', JObj [(''a'', JNull)])]"])
      (simp_all add: codec_env_def json_field_def scaled_app_def, simp_all)
  show "e_runtime_encode codec_env sample_app \<noteq> e_runtime_encode codec_env scaled_app"
    by (simp add: codec_env_def scaled_app_def itoa_def nat_dec.simps)
qed

text \<open>
  C39.  The history is truncated from its old end and only there: with a limit that is not
  negative, \<open>truncateHistory\<close> does not panic, all its calls delete revisions that no pod,
  the current or the update revision uses, in the order of the list, never one of the last
  \<open>limit\<close> of them; when it reports success, exactly the surplus has been deleted.
\<close>

theorem truncateHistory_spec:
  assumes "0 \<le> history_limit app"
  shows "\<exists>err s' n. truncateHistory env app pods revisions current update s = Some (err, s') \<and>
    calls_between s s' = map CallRevDelete (take n (dead_revisions pods current update revisions)) \<and>
    n \<le> length (dead_revisions pods current update revisions) - nat (history_limit app) \<and>
    (err = None \<longrightarrow> n = length (dead_revisions pods current update revisions) - nat (history_limit app))"
proof -
  let ?h = "dead_revisions pods current update revisions" and ?l = "history_limit app"
  let ?old = "take (length ?h - nat ?l) ?h"
  show ?thesis
  proof (cases "?l < int (length ?h)")
    case True
    then have "truncateHistory env app pods revisions current update s = delete_revisions env (map Some ?old) s"
      using assms by (simp add: truncateHistory_def Let_def surplus_nonneg)
    moreover obtain err s' where run: "delete_revisions env (map Some ?old) s = Some (err, s')"
      using delete_revisions_total by fastforce
    moreover from delete_revisions_calls [OF run] obtain n where n: "n \<le> length ?old"
      "calls_between s s' = map CallRevDelete (take n ?old)" "err = None \<longrightarrow> n = length ?old" by blast
    moreover have "length ?old = length ?h - nat ?l" by simp
    moreover have "take n ?old = take n ?h" using n(1) by (simp add: min_absorb1)
    ultimately show ?thesis by (intro exI [of _ err] exI [of _ s'] exI [of _ n]) (simp only: simp_thms)
  next
    case False
    then show ?thesis
      using assms
      by (intro exI [of _ None] exI [of _ s] exI [of _ 0]) (simp add: truncateHistory_def calls_between_def nat_le_iff)
  qed
qed

theorem truncateHistory_spec_witness:
  "\<exists>err s' n. truncateHistory sample_env sample_app [running_pod ''web-site-0'' ''r1'']
      (map (\<lambda>n. sample_revision n 1) [''r1'', ''r2'', ''r3'', ''r4'', ''r5'']) None
      (Some (sample_revision ''r5'' 5)) sample_sys = Some (err, s') \<and>
    calls_between sample_sys s' =
      map CallRevDelete (take n (map (\<lambda>n. sample_revision n 1) [''r2'', ''r3'', ''r4''])) \<and>
    n \<le> 1 \<and> (err = None \<longrightarrow> n = 1)"
  using truncateHistory_spec [of sample_app sample_env "[running_pod ''web-site-0'' ''r1'']"
      "map (\<lambda>n. sample_revision n 1) [''r1'', ''r2'', ''r3'', ''r4'', ''r5'']" None
      "Some (sample_revision ''r5'' 5)" sample_sys]
  by (simp add: history_limit_def live_revision_def sample_revision_def running_pod_def blank_pod_def
      getPodRevision_def)

text \<open>The library's documented contract: all revisions equal to the candidate are found.\<close>

definition finds_equal :: "env \<Rightarrow> bool" where
  "finds_equal env \<longleftrightarrow> (\<forall>rs x. e_rev_find env rs x = filter (\<lambda>r. e_rev_equal env r x) rs)"

text \<open>
  One revision per template: a revision equal to the candidate is never created again.
  The choice makes no call when the newest revision equals the newest match, brings exactly
  that match forward under the next id when it is older, and creates exactly the candidate
  when no listed revision equals it.
\<close>

theorem settle_revision_spec:
  assumes "finds_equal env"
    and "settle_revision env app revisions cr n s = ((res, n'), s')"
  shows "case rev (filter (\<lambda>r. e_rev_equal env r cr) revisions) of
      [] \<Rightarrow> calls_between s s' = [CallRevCreate cr]
    | old # _ \<Rightarrow> n' = n \<and>
        (if e_rev_equal env (last revisions) old
         then calls_between s s' = [] \<and> res = Inr (last revisions)
         else calls_between s s' = [CallRevUpdate old (rev_revision cr)])"
proof -
  let ?eq = "filter (\<lambda>r. e_rev_equal env r cr) revisions"
  have find: "e_rev_find env revisions cr = ?eq" using assms(1) by (simp add: finds_equal_def)
  show ?thesis
  proof (cases "rev ?eq")
    case Nil
    with assms(2) find show ?thesis
      by (simp add: settle_revision_def Let_def calls_between_def) (auto simp: log_call_def)
  next
    case (Cons old rest)
    then have "?eq = rev rest @ [old]" by (simp add: rev_swap)
    then have "last ?eq = old" "?eq \<noteq> []" by simp_all
    with assms(2) find Cons show ?thesis
      by (auto simp: settle_revision_def Let_def calls_between_def split: if_splits)
  qed
qed

theorem settle_revision_spec_witness:
  "calls_between sample_sys (snd (settle_revision sample_env sample_app
      [sample_revision ''r1'' 1, sample_revision ''r2'' 2] (sample_revision ''r1'' 3) 0 sample_sys)) =
   [CallRevUpdate (sample_revision ''r1'' 1) 3]"
proof -
  obtain res n s' where run: "settle_revision sample_env sample_app
      [sample_revision ''r1'' 1, sample_revision ''r2'' 2] (sample_revision ''r1'' 3) 0 sample_sys = ((res, n), s')"
    by (cases "settle_revision sample_env sample_app
      [sample_revision ''r1'' 1, sample_revision ''r2'' 2] (sample_revision ''r1'' 3) 0 sample_sys") auto
  have "finds_equal sample_env" by (simp add: finds_equal_def sample_env_def)
  from settle_revision_spec [OF this run] run show ?thesis
    by (simp add: sample_env_def sample_revision_def)
qed

end
