(* ===== verification/Apply_Update.thy ===== *)
theory Apply_Update
  imports In_Place_Update Revision_History
begin

text \<open>
  \<open>applyUpdate\<close> of \<open>deployer/internal/controller/app/state\_controller.go\<close>: one pass that
  moves the pods of an App towards its spec.  The pods are sorted into slots (one per wanted
  replica) and surplus pods, missing slots are filled with new pods, and then four loops run:
  the scan for unhealthy pods, the synchronisation of the slots, the scaling down of the
  surplus, and the rolling update.  A loop of the code is a recursion over its list; \<open>break\<close>
  and \<open>continue\<close> are values of \<open>flow\<close>.

  The pod controller is the argument \<open>pc\<close>, as it is a field of the state controller.
\<close>

section \<open>Slots and surplus pods\<close>

text \<open>Writing to \<open>replicas[-1]\<close> panics.\<close>

fun place_pods :: "int \<Rightarrow> pod list \<Rightarrow> pod option list \<Rightarrow> pod list \<Rightarrow> (pod option list \<times> pod list) option" where
  "place_pods replicaCnt [] replicas invalidPods = Some (replicas, invalidPods)"
| "place_pods replicaCnt (p # ps) replicas invalidPods =
     (let ord = ordinal p in
      if ord < replicaCnt
      then (if ord < 0 then None else place_pods replicaCnt ps (replicas[nat ord := Some p]) invalidPods)
      else place_pods replicaCnt ps replicas (if 0 \<le> ord then invalidPods @ [p] else invalidPods))"

fun fill_slots ::
  "(pod_template \<Rightarrow> app \<Rightarrow> pod) \<Rightarrow> range_order \<Rightarrow> app \<Rightarrow> app \<Rightarrow> string \<Rightarrow> string \<Rightarrow> nat list \<Rightarrow>
   pod option list \<Rightarrow> pod option list option" where
  "fill_slots ft ord currentApp updateApp cur upd [] replicas = Some replicas"
| "fill_slots ft ord currentApp updateApp cur upd (i # is) replicas =
     (case replicas ! i of
        Some _ \<Rightarrow> fill_slots ft ord currentApp updateApp cur upd is replicas
      | None \<Rightarrow> do {
          pod \<leftarrow> newVersionedPodForApp ft ord currentApp updateApp cur upd (int i) replicas;
          fill_slots ft ord currentApp updateApp cur upd is (replicas[i := Some pod])
        })"

text \<open>\<open>make([]*v1.Pod, replicaCnt)\<close> panics for a negative length; so does a nil \<open>Replicas\<close>.\<close>

definition arrange_pods ::
  "env \<Rightarrow> app \<Rightarrow> app \<Rightarrow> app \<Rightarrow> controller_revision \<Rightarrow> controller_revision \<Rightarrow> pod list \<Rightarrow> sys \<Rightarrow>
   (pod option list \<times> pod list) option" where
  "arrange_pods env app currentApp updateApp currentRevision updateRevision pods s =
     do {
       replicaCnt \<leftarrow> map_option sint (sp_replicas (a_spec app));
       (replicas, invalidPods) \<leftarrow>
         (if replicaCnt < 0 then None
          else place_pods replicaCnt pods (replicate (nat replicaCnt) None) []);
       replicas \<leftarrow> fill_slots (e_from_template env) (e_range env (trace s)) currentApp updateApp
         (rev_name currentRevision) (rev_name updateRevision) [0..<nat replicaCnt] replicas;
       Some (replicas, sort_descending invalidPods)
     }"

section \<open>The first unhealthy pod\<close>

text \<open>
  The code keeps the pointer to the pod and compares it later; a pod is known here by its
  place in one of the two lists.
\<close>

datatype pod_ref = ReplicaRef nat | InvalidRef nat

record scan =
  sc_unhealthy :: int
  sc_first_ordinal :: int
  sc_first :: "pod_ref option"

definition unhealthy :: "pod \<Rightarrow> bool" where
  "unhealthy p \<longleftrightarrow> \<not> getPodReady (Some p) \<or> p_deletion p \<noteq> None"

definition scan_pod :: "pod_ref \<Rightarrow> pod \<Rightarrow> scan \<Rightarrow> scan" where
  "scan_pod r p sc =
     (if unhealthy p then
        let sc = sc\<lparr>sc_unhealthy := sc_unhealthy sc + 1\<rparr> in
        if ordinal p < sc_first_ordinal sc
        then sc\<lparr>sc_first_ordinal := ordinal p, sc_first := Some r\<rparr> else sc
      else sc)"

fun scan_replicas :: "nat \<Rightarrow> pod option list \<Rightarrow> scan \<Rightarrow> scan" where
  "scan_replicas i [] sc = sc"
| "scan_replicas i (None # ps) sc = scan_replicas (Suc i) ps sc"
| "scan_replicas i (Some p # ps) sc = scan_replicas (Suc i) ps (scan_pod (ReplicaRef i) p sc)"

text \<open>From the last invalid pod down to the first.\<close>

fun scan_invalid :: "nat \<Rightarrow> pod list \<Rightarrow> scan \<Rightarrow> scan" where
  "scan_invalid i [] sc = sc"
| "scan_invalid i (p # ps) sc = scan_pod (InvalidRef i) p (scan_invalid (Suc i) ps sc)"

definition first_unhealthy :: "pod option list \<Rightarrow> pod list \<Rightarrow> scan" where
  "first_unhealthy replicas invalidPods =
     scan_invalid 0 invalidPods
       (scan_replicas 0 replicas \<lparr>sc_unhealthy = 0, sc_first_ordinal = 2147483647, sc_first = None\<rparr>)"

section \<open>Synchronising the slots\<close>

datatype flow = Continue | Break

text \<open>The variables the loop changes.\<close>

record sync =
  sy_sys :: sys
  sy_status :: app_status
  sy_available :: bool
  sy_err :: "go_error option"

definition failed_delete :: "pod \<Rightarrow> go_error \<Rightarrow> sys \<Rightarrow> sys" where
  "failed_delete p e s =
     log_call (CallEvent \<lparr>ev_warning = True, ev_reason = ''FailedDelete'', ev_object = p_name p,
                          ev_error = Some e\<rparr>) s"

definition failure_condition :: "string \<Rightarrow> string \<Rightarrow> pod \<Rightarrow> go_error \<Rightarrow> app_condition" where
  "failure_condition t text p e =
     \<lparr>ac_type = t, ac_status = ConditionTrue, ac_transition = 0, ac_reason = '''',
      ac_message = Some (ErrWrap text (p_name p) e)\<rparr>"

definition push_check :: "app \<Rightarrow> duration \<Rightarrow> sys \<Rightarrow> sys" where
  "push_check app d s =
     (if 0 < d then s\<lparr>requeue_store := push (GetAppKey app) d (requeue_store s)\<rparr> else s)"

text \<open>A failed or finished pod is deleted, and the loop ends.\<close>

definition sync_finished :: "pod_ops \<Rightarrow> app \<Rightarrow> pod \<Rightarrow> sync \<Rightarrow> flow \<times> pod \<times> sync" where
  "sync_finished pc app p y =
     (let y = y\<lparr>sy_available := False\<rparr> in
      if p_deletion p = None then
        (case po_delete pc app p (sy_sys y) of
           (None, s) \<Rightarrow> (Break, p, y\<lparr>sy_sys := s\<rparr>)
         | (Some e, s) \<Rightarrow> (Break, p, y\<lparr>sy_sys := failed_delete p e s, sy_err := Some e\<rparr>))
      else (Break, p, y))"

definition sync_missing :: "pod_ops \<Rightarrow> app \<Rightarrow> bool \<Rightarrow> pod \<Rightarrow> sync \<Rightarrow> (flow \<times> pod \<times> sync) option" where
  "sync_missing pc app burstable p y =
     do {
       (err, p', s) \<leftarrow> po_create pc app p (sy_sys y);
       let y = y\<lparr>sy_sys := s, sy_available := False\<rparr>;
       let y = (case err of
                  None \<Rightarrow> y
                | Some e \<Rightarrow>
                    y\<lparr>sy_status := setAppCondition (sy_status y)
                        (failure_condition condition_fail_create_pod ''failed to create pod'' p' e),
                      sy_err := Some e\<rparr>);
       Some (if burstable then Continue else Break, p', y)
     }"

text \<open>The tail of the loop body, for a pod that exists: termination, availability, identity.\<close>

definition sync_identity :: "pod_ops \<Rightarrow> app \<Rightarrow> pod \<Rightarrow> sync \<Rightarrow> (flow \<times> pod \<times> sync) option" where
  "sync_identity pc app p y =
     (if \<not> matchAppAndPod app p \<or> \<not> matchAppPVC app p then do {
        (err, s) \<leftarrow> po_update pc app p (sy_sys y);
        let y = y\<lparr>sy_sys := s\<rparr>;
        case err of
          None \<Rightarrow> Some (Continue, p, y)
        | Some e \<Rightarrow>
            Some (Break, p,
              y\<lparr>sy_status := setAppCondition (sy_status y)
                  (failure_condition condition_fail_update_pod ''failed to update pod'' p e),
                sy_err := Some e\<rparr>)
      }
      else Some (Continue, p, y))"

definition sync_existing ::
  "env \<Rightarrow> pod_ops \<Rightarrow> app \<Rightarrow> bool \<Rightarrow> int32 \<Rightarrow> pod \<Rightarrow> sync \<Rightarrow> (flow \<times> pod \<times> sync) option" where
  "sync_existing env pc app burstable mrs p y =
     (if p_deletion p \<noteq> None \<and> \<not> burstable then Some (Break, p, y\<lparr>sy_available := False\<rparr>)
      else if p_deletion p \<noteq> None \<and> burstable then Some (Break, p, y)
      else
        let (isAvailable, checkInterval) =
              getPodAvailableAndNextCheckInterval (e_clock env (trace (sy_sys y))) p mrs
        in if \<not> burstable \<and> \<not> isAvailable then
             Some (Break, p, y\<lparr>sy_available := False, sy_sys := push_check app checkInterval (sy_sys y)\<rparr>)
           else if burstable \<and> \<not> isAvailable then
             Some (Break, p, y\<lparr>sy_sys := push_check app checkInterval (sy_sys y)\<rparr>)
           else sync_identity pc app p y)"

definition sync_pod ::
  "env \<Rightarrow> pod_ops \<Rightarrow> app \<Rightarrow> bool \<Rightarrow> int32 \<Rightarrow> pod \<Rightarrow> sync \<Rightarrow> (flow \<times> pod \<times> sync) option" where
  "sync_pod env pc app burstable mrs p y =
     (if p_phase p = PodFailed \<or> p_phase p = PodSucceeded then Some (sync_finished pc app p y)
      else if p_phase p = PhaseUnset then sync_missing pc app burstable p y
      else if p_phase p = PodPending then do {
        (err, s) \<leftarrow> po_create_pvc pc app p (sy_sys y);
        let y = y\<lparr>sy_available := False, sy_sys := s\<rparr>;
        case err of
          Some e \<Rightarrow> Some (Break, p, y\<lparr>sy_err := Some e\<rparr>)
        | None \<Rightarrow> sync_existing env pc app burstable mrs p y
      }
      else sync_existing env pc app burstable mrs p y)"

fun sync_loop ::
  "env \<Rightarrow> pod_ops \<Rightarrow> app \<Rightarrow> bool \<Rightarrow> int32 \<Rightarrow> pod option list \<Rightarrow> sync \<Rightarrow> (pod option list \<times> sync) option" where
  "sync_loop env pc app burstable mrs [] y = Some ([], y)"
| "sync_loop env pc app burstable mrs (None # ps) y = do {
     (ps, y) \<leftarrow> sync_loop env pc app burstable mrs ps y;
     Some (None # ps, y)
   }"
| "sync_loop env pc app burstable mrs (Some p # ps) y = do {
     (fl, p, y) \<leftarrow> sync_pod env pc app burstable mrs p y;
     case fl of
       Break \<Rightarrow> Some (Some p # ps, y)
     | Continue \<Rightarrow> do {
         (ps, y) \<leftarrow> sync_loop env pc app burstable mrs ps y;
         Some (Some p # ps, y)
       }
   }"

section \<open>Scaling down\<close>

text \<open>Returns \<open>shouldExit\<close> and \<open>runErr\<close>; \<open>i\<close> is the index of the first pod of the list.\<close>

fun scale_down ::
  "pod_ops \<Rightarrow> app \<Rightarrow> bool \<Rightarrow> pod_ref option \<Rightarrow> nat \<Rightarrow> pod list \<Rightarrow> sys \<Rightarrow> bool \<times> go_error option \<times> sys" where
  "scale_down pc app burstable firstUnhealthyPod i [] s = (False, None, s)"
| "scale_down pc app burstable firstUnhealthyPod i (p # ps) s =
     (if p_deletion p \<noteq> None \<and> \<not> burstable then (True, None, s)
      else if \<not> burstable \<and> \<not> getPodReady (Some p) \<and> firstUnhealthyPod \<noteq> Some (InvalidRef i)
      then (True, None, s)
      else case po_delete pc app p s of
             (Some e, s) \<Rightarrow> (True, Some e, failed_delete p e s)
           | (None, s) \<Rightarrow>
               if \<not> burstable then (True, None, s)
               else scale_down pc app burstable firstUnhealthyPod (Suc i) ps s)"

section \<open>Rolling update\<close>

definition in_place_allowed :: "app \<Rightarrow> bool" where
  "in_place_allowed app =
     (case rolling app of None \<Rightarrow> False | Some ru \<Rightarrow> ru_pod_update_policy ru = InPlaceIfPossible)"

definition recreate_pod ::
  "pod_ops \<Rightarrow> app \<Rightarrow> pod \<Rightarrow> app_status \<Rightarrow> sys \<Rightarrow> (app_status \<times> go_error option) \<times> sys" where
  "recreate_pod pc app p status s =
     (case po_delete pc app p s of
        (err, s) \<Rightarrow>
          if err \<noteq> None \<and> err \<noteq> Some ErrNotFound then ((status, err), s)
          else ((status\<lparr>st_current := st_current status - 1\<rparr>, None), s))"

definition update_target ::
  "env \<Rightarrow> pod_ops \<Rightarrow> app \<Rightarrow> controller_revision \<Rightarrow> controller_revision list \<Rightarrow> pod \<Rightarrow> app_status \<Rightarrow> sys \<Rightarrow>
   ((app_status \<times> go_error option) \<times> sys) option" where
  "update_target env pc app updateRevision revisions p status s =
     (if in_place_allowed app then do {
        ((err, waitSeconds), s) \<leftarrow> InPlaceUpdatePod env app p updateRevision revisions s;
        case err of
          None \<Rightarrow> Some ((status, None), push_check app (waitSeconds * second) s)
        | Some e \<Rightarrow> Some (recreate_pod pc app p status s)
      }
      else Some (recreate_pod pc app p status s))"

definition in_place_pending :: "pod \<Rightarrow> bool" where
  "in_place_pending p \<longleftrightarrow>
     map_get (p_annotations p) status_key \<noteq> '''' \<and>
     list_ex (\<lambda>c. pc_type c = in_place_update_ready \<and> pc_status c \<noteq> ConditionTrue) (p_conditions p)"

text \<open>
  The loop from the last slot down to the partition; the argument is one more than the index.
  Below index 0 (a negative partition) and on a nil slot the code panics.
\<close>

fun roll_loop ::
  "env \<Rightarrow> pod_ops \<Rightarrow> app \<Rightarrow> controller_revision \<Rightarrow> controller_revision list \<Rightarrow> int \<Rightarrow>
   pod option list \<Rightarrow> nat \<Rightarrow> app_status \<Rightarrow> sys \<Rightarrow> ((app_status \<times> go_error option) \<times> sys) option" where
  "roll_loop env pc app updateRevision revisions updateMin replicas 0 status s =
     (if updateMin \<le> -1 then None else Some ((status, None), s))"
| "roll_loop env pc app updateRevision revisions updateMin replicas (Suc target) status s =
     (if int target < updateMin then Some ((status, None), s)
      else case replicas ! target of
        None \<Rightarrow> None
      | Some p \<Rightarrow>
          if getPodRevision p \<noteq> rev_name updateRevision \<and> p_deletion p = None
          then update_target env pc app updateRevision revisions p status s
          else if in_place_pending p then
            (case IsInPlaceUpdateDone env p of
               (_, Some e) \<Rightarrow> Some ((status, Some e), s)
             | (False, None) \<Rightarrow> Some ((status, None), s)
             | (True, None) \<Rightarrow> do {
                 (err, s) \<leftarrow> CleanUpInPlaceUpdate env p s;
                 case err of
                   Some e \<Rightarrow> Some ((status, Some e), s)
                 | None \<Rightarrow> roll_loop env pc app updateRevision revisions updateMin replicas target status s
               })
          else if \<not> (getPodReady (Some p) \<or> p_deletion p \<noteq> None) then Some ((status, None), s)
          else roll_loop env pc app updateRevision revisions updateMin replicas target status s)"

text \<open>A nil \<open>RollingUpdate\<close> or a nil \<open>Partition\<close> panics.\<close>

definition roll_update ::
  "env \<Rightarrow> pod_ops \<Rightarrow> app \<Rightarrow> controller_revision \<Rightarrow> controller_revision list \<Rightarrow>
   pod option list \<Rightarrow> app_status \<Rightarrow> sys \<Rightarrow> ((app_status \<times> go_error option) \<times> sys) option" where
  "roll_update env pc app updateRevision revisions replicas status s =
     do {
       ru \<leftarrow> rolling app;
       if ru_paused ru then Some ((status, None), s)
       else do {
         partition \<leftarrow> ru_partition ru;
         roll_loop env pc app updateRevision revisions (sint partition) replicas (length replicas) status s
       }
     }"

section \<open>One pass\<close>

definition burstable :: "app \<Rightarrow> bool" where
  "burstable app \<longleftrightarrow> sp_management_policy (a_spec app) = Parallel"

definition manage_pods ::
  "env \<Rightarrow> pod_ops \<Rightarrow> app \<Rightarrow> controller_revision \<Rightarrow> controller_revision \<Rightarrow> controller_revision list \<Rightarrow>
   pod option list \<Rightarrow> pod list \<Rightarrow> app_status \<Rightarrow> sys \<Rightarrow> ((app_status \<times> go_error option) \<times> sys) option" where
  "manage_pods env pc app currentRevision updateRevision revisions replicas invalidPods status s =
     do {
       let mrs = getMinReadySeconds app;
       let first = sc_first (first_unhealthy replicas invalidPods);
       (replicas, y) \<leftarrow> sync_loop env pc app (burstable app) mrs replicas
          \<lparr>sy_sys = s, sy_status = status, sy_available = True, sy_err = None\<rparr>;
       let count = (\<lambda>st s. updateStatus (e_clock env (trace s)) st mrs currentRevision updateRevision
                      [replicas, map Some invalidPods]);
       if sy_err y \<noteq> None \<or> \<not> sy_available y
       then Some ((count (sy_status y) (sy_sys y), sy_err y), sy_sys y)
       else
         (case scale_down pc app (burstable app) first 0 invalidPods (sy_sys y) of
            (shouldExit, runErr, s) \<Rightarrow>
              let status = count (sy_status y) s in
              if shouldExit \<or> runErr \<noteq> None then Some ((status, runErr), s)
              else if strategy app = OnDeleteType then Some ((status, None), s)
              else if a_deletion app \<noteq> None then Some ((status, None), s)
              else roll_update env pc app updateRevision revisions replicas status s)
     }"

text \<open>
  The closure that writes the defaults of the rolling update; it assigns the answer to the
  captured variable \<open>app\<close>, also when the request failed.
\<close>

definition write_rolling :: "env \<Rightarrow> rolling_update \<Rightarrow> app \<times> sys \<Rightarrow> (go_error option \<times> app \<times> sys) option" where
  "write_rolling env ru = (\<lambda>(app, s).
     (case app_Update env (with_rolling app ru) s of ((app, err), s) \<Rightarrow> Some (err, app, s)))"

definition initial_status ::
  "app \<Rightarrow> controller_revision \<Rightarrow> controller_revision \<Rightarrow> int32 \<Rightarrow> selector \<Rightarrow> app_status" where
  "initial_status app currentRevision updateRevision collisionCount selector =
     zero_status\<lparr>st_current_revision := rev_name currentRevision,
                 st_update_revision := rev_name updateRevision,
                 st_observed_generation := a_generation app,
                 st_collision_count := Some collisionCount,
                 st_label_selector := selector\<rparr>"

definition applyUpdate ::
  "env \<Rightarrow> pod_ops \<Rightarrow> app \<Rightarrow> controller_revision \<Rightarrow> controller_revision \<Rightarrow> int32 \<Rightarrow> pod list \<Rightarrow>
   controller_revision list \<Rightarrow> sys \<Rightarrow> ((app_status \<times> go_error option) \<times> sys) option" where
  "applyUpdate env pc app currentRevision updateRevision collisionCount pods revisions s =
     (case e_selector env (sp_selector (a_spec app)) of
        Inl err \<Rightarrow> Some ((a_status app, Some err), s)
      | Inr selector \<Rightarrow>
          (case ApplyRevision env app currentRevision of
             None \<Rightarrow> None
           | Some (Inl err) \<Rightarrow> Some ((a_status app, Some err), s)
           | Some (Inr currentApp) \<Rightarrow>
               (case ApplyRevision env app updateRevision of
                  None \<Rightarrow> None
                | Some (Inl err) \<Rightarrow> Some ((a_status app, Some err), s)
                | Some (Inr updateApp) \<Rightarrow>
                    let status = initial_status app currentRevision updateRevision collisionCount selector;
                        status = updateStatus (e_clock env (trace s)) status (getMinReadySeconds app)
                          currentRevision updateRevision [map Some pods];
                        (updateNeeded, newRollingUpdate) = setDefaultRollingUpdateStrategy app
                    in if strategy app = RollingUpdateType \<and> updateNeeded then do {
                         (err, app, s) \<leftarrow> retry_on_conflict env (write_rolling env newRollingUpdate) (app, s);
                         Some ((status, None), s)
                       }
                       else do {
                         (replicas, invalidPods) \<leftarrow>
                           arrange_pods env app currentApp updateApp currentRevision updateRevision pods s;
                         manage_pods env pc app currentRevision updateRevision revisions replicas
                           invalidPods status s
                       })))"

end
