(* ===== verification/Update_Safety.thy ===== *)
theory Update_Safety
  imports Apply_Update
begin

text \<open>
  What a pass of \<open>applyUpdate\<close> may do to the lives of pods.  The lemmas are proved once for
  any pod controller that keeps the contract (the locale \<open>pod\_control\<close>), loop by loop, and
  the properties at the end are stated for the program's own controller.  An action is a
  call that creates or deletes a pod.
\<close>

section \<open>What the loops may do to pods' lives\<close>

definition finished :: "pod \<Rightarrow> bool" where
  "finished p \<longleftrightarrow> p_phase p = PodFailed \<or> p_phase p = PodSucceeded"

definition settled :: "pod \<Rightarrow> bool" where
  "settled p \<longleftrightarrow> p_phase p = PodRunning \<and> getPodReady (Some p) \<and> p_deletion p = None"

definition creates :: "pod \<Rightarrow> api_call \<Rightarrow> bool" where
  "creates p c \<longleftrightarrow> (\<exists>g. c = CallPodCreate (p\<lparr>p_readiness_gates := g\<rparr>))"

definition deletes :: "pod \<Rightarrow> api_call \<Rightarrow> bool" where
  "deletes p c \<longleftrightarrow> p_deletion p = None \<and> c = CallPodDelete (p_namespace p) (p_name p)"

text \<open>The synchronisation creates missing pods and deletes finished ones.\<close>

definition sync_action :: "pod \<Rightarrow> api_call \<Rightarrow> bool" where
  "sync_action p c \<longleftrightarrow> p_phase p = PhaseUnset \<and> creates p c \<or> finished p \<and> deletes p c"

lemma available_settled:
  "fst (getPodAvailableAndNextCheckInterval now p mrs) \<Longrightarrow> p_deletion p = None \<Longrightarrow> settled p"
  by (auto simp: getPodAvailableAndNextCheckInterval_def settled_def split: if_splits)

text \<open>
  One step of a loop: at most one call begins or ends a pod's life, and it satisfies \<open>A\<close>.
\<close>

definition one_action :: "(api_call \<Rightarrow> bool) \<Rightarrow> sys \<Rightarrow> sys \<Rightarrow> bool" where
  "one_action A s s' \<longleftrightarrow> quiet s s' \<or> (\<exists>cs c. adds s s' cs \<and> lifecycle cs = [c] \<and> A c)"

text \<open>Any number of them.\<close>

definition actions :: "(api_call \<Rightarrow> bool) \<Rightarrow> sys \<Rightarrow> sys \<Rightarrow> bool" where
  "actions A s s' \<longleftrightarrow> only (\<lambda>c. is_lifecycle c \<longrightarrow> A c) s s'"

lemma quiet_actions: "quiet s s' \<Longrightarrow> actions A s s'"
  by (auto simp: actions_def elim: only_mono)

lemma one_action_actions: "one_action A s s' \<Longrightarrow> actions A s s'"
proof (unfold one_action_def, elim disjE exE conjE)
  fix cs c assume "adds s s' cs" "lifecycle cs = [c]" "A c"
  moreover have "{d \<in> set cs. is_lifecycle d} = {c}"
    using arg_cong [OF \<open>lifecycle cs = [c]\<close>, of set] by (simp add: lifecycle_def)
  then have "\<forall>d \<in> set cs. is_lifecycle d \<longrightarrow> d = c" by blast
  ultimately show ?thesis by (auto simp: actions_def only_def)
qed (rule quiet_actions)

lemma actions_trans: "actions A s s' \<Longrightarrow> actions A s' s'' \<Longrightarrow> actions A s s''"
  unfolding actions_def by (rule only_trans)

lemma actions_mono: "actions A s s' \<Longrightarrow> (\<And>c. A c \<Longrightarrow> B c) \<Longrightarrow> actions B s s'"
  unfolding actions_def by (erule only_mono) blast

lemma one_action_mono: "one_action A s s' \<Longrightarrow> (\<And>c. A c \<Longrightarrow> B c) \<Longrightarrow> one_action B s s'"
  unfolding one_action_def by blast

lemma one_action_then_quiet: "one_action A s s' \<Longrightarrow> quiet s' s'' \<Longrightarrow> one_action A s s''"
  unfolding one_action_def
proof (elim disjE exE conjE)
  fix cs c assume "quiet s' s''" "adds s s' cs" "lifecycle cs = [c]" "A c"
  moreover from \<open>quiet s' s''\<close> obtain ds where "adds s' s'' ds" "lifecycle ds = []"
    by (auto simp: quiet_def)
  ultimately show "quiet s s'' \<or> (\<exists>cs c. adds s s'' cs \<and> lifecycle cs = [c] \<and> A c)"
    by (intro disjI2 exI [of _ "cs @ ds"] exI [of _ c]) (auto intro: adds_trans)
qed (auto intro: quiet_trans)

lemma quiet_then_one_action: "quiet s s' \<Longrightarrow> one_action A s' s'' \<Longrightarrow> one_action A s s''"
  unfolding one_action_def
proof (elim disjE exE conjE)
  fix cs c assume "quiet s s'" "adds s' s'' cs" "lifecycle cs = [c]" "A c"
  moreover from \<open>quiet s s'\<close> obtain ds where "adds s s' ds" "lifecycle ds = []"
    by (auto simp: quiet_def)
  ultimately show "quiet s s'' \<or> (\<exists>cs c. adds s s'' cs \<and> lifecycle cs = [c] \<and> A c)"
    by (intro disjI2 exI [of _ "ds @ cs"] exI [of _ c]) (auto intro: adds_trans)
qed (auto intro: quiet_trans)

lemma quiet_push_check [simp]: "only Q s (push_check app d s') = only Q s s'"
  by (simp add: push_check_def)

lemma quiet_failed_delete: "quiet s s' \<Longrightarrow> quiet s (failed_delete p e s')"
  by (simp add: failed_delete_def quiet_log)

lemma one_action_failed_delete: "one_action A s s' \<Longrightarrow> one_action A s (failed_delete p e s')"
  by (erule one_action_then_quiet) (simp add: quiet_failed_delete)

context pod_control
begin

lemma create_one:
  assumes "po_create pc app p s = Some (err, p', s')"
  shows "one_action (creates p) s s'" and "\<exists>g. p' = p\<lparr>p_readiness_gates := g\<rparr>"
proof -
  show g: "\<exists>g. p' = p\<lparr>p_readiness_gates := g\<rparr>" using create_pod [OF assms] by blast
  show "one_action (creates p) s s'"
    using create_calls [OF assms] g unfolding one_action_def quiet_def creates_def by blast
qed

lemma delete_one:
  assumes "po_delete pc app p s = (err, s')"
  shows "one_action (deletes p) s s'"
proof (cases "p_deletion p")
  case None
  from delete_calls [OF None assms] None show ?thesis
    unfolding one_action_def deletes_def by blast
next
  case (Some t)
  with delete_terminating [of p app s] assms show ?thesis by (simp add: one_action_def)
qed

lemma sync_finished_spec:
  assumes "sync_finished pc app p y = (fl, p', y')" and "finished p"
  shows "fl = Break \<and> p' = p \<and> \<not> sy_available y' \<and> one_action (sync_action p) (sy_sys y) (sy_sys y')"
proof -
  have "one_action (sync_action p) (sy_sys y) s" if "po_delete pc app p (sy_sys y) = (err, s)" for err s
    by (rule one_action_mono [OF delete_one [OF that]]) (use assms(2) in \<open>simp add: sync_action_def\<close>)
  then show ?thesis using assms(1)
    by (auto simp: sync_finished_def Let_def one_action_def [of _ s s for s]
        split: if_splits prod.splits option.splits intro: one_action_failed_delete)
qed

lemma sync_missing_spec:
  assumes "sync_missing pc app b p y = Some (fl, p', y')" and "p_phase p = PhaseUnset"
  shows "(fl = Continue \<longrightarrow> b) \<and> \<not> sy_available y' \<and> one_action (sync_action p) (sy_sys y) (sy_sys y')"
proof -
  from assms(1) obtain err q s where create: "po_create pc app p (sy_sys y) = Some (err, q, s)"
    and res: "sy_sys y' = s" "\<not> sy_available y'" "fl = (if b then Continue else Break)"
    by (auto simp: sync_missing_def Let_def bind_eq_Some_conv split: option.splits)
  have "one_action (sync_action p) (sy_sys y) s"
    by (rule one_action_mono [OF create_one(1) [OF create]]) (use assms(2) in \<open>simp add: sync_action_def\<close>)
  with res show ?thesis by auto
qed

text \<open>A pod that exists is only updated; when the loop goes on, it was available.\<close>

lemma sync_existing_spec:
  assumes "sync_existing env pc app b mrs p y = Some (fl, p', y')"
  shows "p' = p \<and> quiet (sy_sys y) (sy_sys y') \<and> (sy_available y' \<longrightarrow> sy_available y) \<and>
    (fl = Continue \<longrightarrow> settled p) \<and>
    (\<not> b \<and> fl = Break \<longrightarrow> \<not> sy_available y' \<or> sy_err y' \<noteq> None)"
proof (cases "fst (getPodAvailableAndNextCheckInterval (e_clock env (trace (sy_sys y))) p mrs) \<and> p_deletion p = None")
  case True
  then have id: "sync_identity pc app p y = Some (fl, p', y')" and set: "settled p"
    using assms available_settled [of "e_clock env (trace (sy_sys y))" p mrs]
    by (auto simp: sync_existing_def split: prod.splits if_splits)
  have "p' = p \<and> quiet (sy_sys y) (sy_sys y') \<and> (sy_available y' \<longrightarrow> sy_available y) \<and>
    (fl = Break \<longrightarrow> sy_err y' \<noteq> None)"
  proof (cases "matchAppAndPod app p \<and> matchAppPVC app p")
    case True
    with id show ?thesis by (auto simp: sync_identity_def)
  next
    case False
    with id obtain err s where upd: "po_update pc app p (sy_sys y) = Some (err, s)"
      by (auto simp: sync_identity_def bind_eq_Some_conv)
    have "quiet (sy_sys y) s" by (rule update_quiet [OF upd])
    with False upd id show ?thesis by (cases err) (auto simp: sync_identity_def Let_def)
  qed
  with set show ?thesis by blast
next
  case False
  then show ?thesis
    using assms by (auto simp: sync_existing_def split: prod.splits if_splits)
qed

lemma sync_pod_spec:
  assumes "sync_pod env pc app b mrs p y = Some (fl, p', y')"
  shows "one_action (sync_action p) (sy_sys y) (sy_sys y') \<and>
    (sy_available y' \<longrightarrow> sy_available y \<and> p' = p \<and> quiet (sy_sys y) (sy_sys y')) \<and>
    (\<not> b \<and> fl = Continue \<longrightarrow> settled p \<and> p' = p \<and> quiet (sy_sys y) (sy_sys y')) \<and>
    (\<not> b \<and> fl = Break \<longrightarrow> \<not> sy_available y' \<or> sy_err y' \<noteq> None) \<and>
    (sy_available y' \<longrightarrow> \<not> finished p \<and> p_phase p \<noteq> PhaseUnset \<and> p_phase p \<noteq> PodPending)"
proof -
  consider "finished p" | "p_phase p = PhaseUnset" | "p_phase p = PodPending"
    | "\<not> finished p" "p_phase p \<noteq> PhaseUnset" "p_phase p \<noteq> PodPending" by blast
  then show ?thesis
  proof cases
    case 1
    then have "sync_finished pc app p y = (fl, p', y')"
      using assms by (auto simp: sync_pod_def finished_def)
    from sync_finished_spec [OF this 1] show ?thesis by blast
  next
    case 2
    then have "sync_missing pc app b p y = Some (fl, p', y')"
      using assms by (auto simp: sync_pod_def)
    from sync_missing_spec [OF this 2] show ?thesis by blast
  next
    case 3
    then obtain err s where pvc: "po_create_pvc pc app p (sy_sys y) = Some (err, s)"
      using assms by (auto simp: sync_pod_def bind_eq_Some_conv)
    have q: "quiet (sy_sys y) s" by (rule create_pvc_quiet [OF pvc])
    let ?y = "y\<lparr>sy_available := False, sy_sys := s\<rparr>"
    show ?thesis
    proof (cases err)
      case None
      with 3 pvc assms have "sync_existing env pc app b mrs p ?y = Some (fl, p', y')"
        by (simp add: sync_pod_def Let_def)
      from sync_existing_spec [OF this] q show ?thesis
        by (auto simp: one_action_def intro: quiet_trans)
    next
      case (Some e)
      with 3 pvc assms have "fl = Break" "p' = p" "y' = ?y\<lparr>sy_err := Some e\<rparr>"
        by (simp_all add: sync_pod_def Let_def)
      with q show ?thesis by (simp add: one_action_def)
    qed
  next
    case 4
    with assms have "sync_existing env pc app b mrs p y = Some (fl, p', y')"
      by (simp add: sync_pod_def finished_def)
    from sync_existing_spec [OF this] 4 show ?thesis
      by (auto simp: one_action_def)
  qed
qed

lemma sync_loop_cons:
  assumes "sync_loop env pc app b mrs (Some p # ps) y = Some (ps', y')"
  obtains p' where "sync_pod env pc app b mrs p y = Some (Break, p', y')" "ps' = Some p' # ps"
  | p' z qs where "sync_pod env pc app b mrs p y = Some (Continue, p', z)"
    "sync_loop env pc app b mrs ps z = Some (qs, y')" "ps' = Some p' # qs"
proof -
  from assms obtain fl p' z where step: "sync_pod env pc app b mrs p y = Some (fl, p', z)"
    by (auto simp: bind_eq_Some_conv)
  show ?thesis
  proof (cases fl)
    case Break
    with assms step show ?thesis by (intro that(1) [of p']) simp_all
  next
    case Continue
    with assms step obtain qs where "sync_loop env pc app b mrs ps z = Some (qs, y')" "ps' = Some p' # qs"
      by (auto simp: bind_eq_Some_conv)
    with Continue step show ?thesis by (intro that(2) [of p' z qs]) simp_all
  qed
qed

lemma sync_loop_actions:
  "sync_loop env pc app b mrs ps y = Some (ps', y') \<Longrightarrow>
     actions (\<lambda>c. \<exists>p. Some p \<in> set ps \<and> sync_action p c) (sy_sys y) (sy_sys y') \<and>
     (sy_available y' \<longrightarrow> sy_available y \<and> ps' = ps \<and> quiet (sy_sys y) (sy_sys y'))"
proof (induction ps arbitrary: y ps')
  case Nil
  then show ?case by (simp add: actions_def)
next
  case (Cons po ps)
  show ?case
  proof (cases po)
    case None
    with Cons.prems obtain qs where "sync_loop env pc app b mrs ps y = Some (qs, y')" "ps' = None # qs"
      by (auto simp: bind_eq_Some_conv)
    with Cons.IH [OF this(1)] None show ?thesis by (auto elim: actions_mono)
  next
    case (Some p)
    let ?A = "\<lambda>c. \<exists>q. Some q \<in> set (po # ps) \<and> sync_action q c"
    have first: "actions ?A (sy_sys y) (sy_sys z) \<and>
        (sy_available z \<longrightarrow> sy_available y \<and> p' = p \<and> quiet (sy_sys y) (sy_sys z))"
      if "sync_pod env pc app b mrs p y = Some (fl, p', z)" for fl p' z
      using sync_pod_spec [OF that] Some by (auto intro: actions_mono [OF one_action_actions])
    from Cons.prems [unfolded Some] show ?thesis
    proof (cases rule: sync_loop_cons)
      case (1 p')
      with first [OF 1(1)] Some show ?thesis by simp
    next
      case (2 p' z qs)
      from Cons.IH [OF 2(2)] have "actions ?A (sy_sys z) (sy_sys y')"
        "sy_available y' \<longrightarrow> sy_available z \<and> qs = ps \<and> quiet (sy_sys z) (sy_sys y')"
        by (auto elim: actions_mono)
      with first [OF 2(1)] 2(3) Some show ?thesis
        by (blast intro: actions_trans quiet_trans)
    qed
  qed
qed

end

text \<open>In order: at most one action, in a slot below which everything has settled.\<close>

definition in_order :: "pod option list \<Rightarrow> api_call \<Rightarrow> bool" where
  "in_order ps c \<longleftrightarrow>
     (\<exists>i p. i < length ps \<and> ps ! i = Some p \<and> sync_action p c \<and>
        (\<forall>q. Some q \<in> set (take i ps) \<longrightarrow> settled q))"

lemma in_order_head: "sync_action p c \<Longrightarrow> in_order (Some p # ps) c"
  unfolding in_order_def by (intro exI [of _ 0]) simp

lemma in_order_tail: "in_order ps c \<Longrightarrow> (\<And>p. po = Some p \<Longrightarrow> settled p) \<Longrightarrow> in_order (po # ps) c"
  unfolding in_order_def by (elim exE conjE, rule_tac x = "Suc i" in exI) auto

context pod_control
begin

lemma sync_loop_ordered:
  "sync_loop env pc app False mrs ps y = Some (ps', y') \<Longrightarrow>
     one_action (in_order ps) (sy_sys y) (sy_sys y') \<and>
     (sy_available y' \<and> sy_err y' = None \<longrightarrow> (\<forall>p. Some p \<in> set ps \<longrightarrow> settled p))"
proof (induction ps arbitrary: y ps')
  case Nil
  then show ?case by (simp add: one_action_def)
next
  case (Cons po ps)
  show ?case
  proof (cases po)
    case None
    with Cons.prems obtain qs where "sync_loop env pc app False mrs ps y = Some (qs, y')" "ps' = None # qs"
      by (auto simp: bind_eq_Some_conv)
    with Cons.IH [OF this(1)] have "one_action (in_order ps) (sy_sys y) (sy_sys y')"
      "sy_available y' \<and> sy_err y' = None \<longrightarrow> (\<forall>p. Some p \<in> set ps \<longrightarrow> settled p)" by simp_all
    moreover from this(1) have "one_action (in_order (po # ps)) (sy_sys y) (sy_sys y')"
      by (rule one_action_mono) (rule in_order_tail, simp_all add: None)
    ultimately show ?thesis using None by simp
  next
    case (Some p)
    from Cons.prems [unfolded Some] show ?thesis
    proof (cases rule: sync_loop_cons)
      case (1 p')
      with sync_pod_spec [OF 1(1)] Some show ?thesis
        by (auto elim!: one_action_mono intro: in_order_head)
    next
      case (2 p' z qs)
      with sync_pod_spec [OF 2(1)] have p: "settled p" "quiet (sy_sys y) (sy_sys z)" by simp_all
      from Cons.IH [OF 2(2)] have "one_action (in_order ps) (sy_sys z) (sy_sys y')"
        and all: "sy_available y' \<and> sy_err y' = None \<longrightarrow> (\<forall>p. Some p \<in> set ps \<longrightarrow> settled p)" by simp_all
      from this(1) have "one_action (in_order (po # ps)) (sy_sys z) (sy_sys y')"
        by (rule one_action_mono) (rule in_order_tail, use Some p in auto)
      from quiet_then_one_action [OF p(2) this] all p(1) Some show ?thesis by auto
    qed
  qed
qed

lemma scale_down_actions:
  "scale_down pc app b first i bad s = (exit, err, s') \<Longrightarrow>
     actions (\<lambda>c. \<exists>p \<in> set bad. deletes p c) s s'"
proof (induction bad arbitrary: i s)
  case Nil
  then show ?case by (simp add: actions_def)
next
  case (Cons p bad)
  obtain e u where del: "po_delete pc app p s = (e, u)" by fastforce
  have one: "actions (\<lambda>c. \<exists>q \<in> set (p # bad). deletes q c) s u"
    by (rule actions_mono [OF one_action_actions [OF delete_one [OF del]]]) simp
  have quiet: "actions A s s" for A by (simp add: actions_def)
  have event: "actions (\<lambda>c. \<exists>q \<in> set (p # bad). deletes q c) s (failed_delete p x u)" for x
    by (rule actions_trans [OF one quiet_actions]) (simp add: quiet_failed_delete)
  have rest: "actions (\<lambda>c. \<exists>q \<in> set (p # bad). deletes q c) s s'"
    if "scale_down pc app b first (Suc i) bad u = (exit, err, s')"
    by (rule actions_trans [OF one actions_mono [OF Cons.IH [OF that]]]) simp
  from Cons.prems del show ?case
    using one quiet event rest by (auto split: if_splits option.splits)
qed

lemma scale_down_ordered:
  assumes "scale_down pc app False first 0 bad s = (exit, err, s')"
  shows "(bad \<noteq> [] \<longrightarrow> exit) \<and>
    one_action (\<lambda>c. bad \<noteq> [] \<and> deletes (hd bad) c \<and>
      (getPodReady (Some (hd bad)) \<or> first = Some (InvalidRef 0))) s s'"
proof (cases bad)
  case Nil
  with assms show ?thesis by (simp add: one_action_def)
next
  case (Cons p ps)
  let ?A = "\<lambda>c. bad \<noteq> [] \<and> deletes (hd bad) c \<and> (getPodReady (Some (hd bad)) \<or> first = Some (InvalidRef 0))"
  obtain e u where del: "po_delete pc app p s = (e, u)" by fastforce
  have one: "one_action ?A s u" if "getPodReady (Some p) \<or> first = Some (InvalidRef 0)"
    by (rule one_action_mono [OF delete_one [OF del]]) (use that Cons in simp)
  have stay: "one_action ?A s s" by (simp add: one_action_def)
  from assms Cons del one stay show ?thesis
    by (auto split: if_splits option.splits intro: one_action_failed_delete)
qed

end

text \<open>The rolling update: a slot at or above the partition whose successors have been rolled.\<close>

definition rolled :: "controller_revision \<Rightarrow> pod \<Rightarrow> bool" where
  "rolled upd q \<longleftrightarrow>
     (getPodRevision q = rev_name upd \<or> p_deletion q \<noteq> None) \<and>
     (in_place_pending q \<or> getPodReady (Some q) \<or> p_deletion q \<noteq> None)"

definition roll_action ::
  "controller_revision \<Rightarrow> int \<Rightarrow> pod option list \<Rightarrow> api_call \<Rightarrow> bool" where
  "roll_action upd updateMin replicas c \<longleftrightarrow>
     (\<exists>t p. updateMin \<le> int t \<and> t < length replicas \<and> replicas ! t = Some p \<and>
        getPodRevision p \<noteq> rev_name upd \<and> deletes p c \<and>
        (\<forall>q. Some q \<in> set (drop (Suc t) replicas) \<longrightarrow> rolled upd q))"

definition updates_on :: "app \<Rightarrow> int \<Rightarrow> bool" where
  "updates_on app updateMin \<longleftrightarrow>
     strategy app \<noteq> OnDeleteType \<and> a_deletion app = None \<and>
     (\<exists>ru p. rolling app = Some ru \<and> \<not> ru_paused ru \<and> ru_partition ru = Some p \<and> updateMin = sint p)"

definition update_action ::
  "app \<Rightarrow> controller_revision \<Rightarrow> pod option list \<Rightarrow> api_call \<Rightarrow> bool" where
  "update_action app upd replicas c \<longleftrightarrow>
     (\<exists>updateMin. updates_on app updateMin \<and> roll_action upd updateMin replicas c)"

lemma push_check_one_action [simp]: "one_action A s (push_check app d s') = one_action A s s'"
  by (auto simp: one_action_def adds_def push_check_def)

context pod_control
begin

lemma recreate_pod_one:
  assumes "recreate_pod pc app p status s = (res, s')"
  shows "one_action (deletes p) s s'"
proof -
  obtain e u where del: "po_delete pc app p s = (e, u)" by fastforce
  with assms have "u = s'" by (auto simp: recreate_pod_def split: if_splits)
  with delete_one [OF del] show ?thesis by simp
qed

lemma update_target_one:
  assumes "update_target env pc app upd revs p status s = Some (res, s')"
  shows "one_action (deletes p) s s'"
proof (cases "in_place_allowed app")
  case False
  with assms show ?thesis by (auto simp: update_target_def intro: recreate_pod_one)
next
  case True
  with assms obtain e w u where ip: "InPlaceUpdatePod env app p upd revs s = Some ((e, w), u)"
    by (auto simp: update_target_def bind_eq_Some_conv)
  have quiet: "quiet s u" by (rule InPlaceUpdatePod_quiet [OF ip])
  show ?thesis
  proof (cases e)
    case None
    with True ip assms quiet show ?thesis by (auto simp: update_target_def one_action_def)
  next
    case (Some x)
    with True ip assms have "recreate_pod pc app p status u = (res, s')"
      by (simp add: update_target_def)
    from quiet_then_one_action [OF quiet recreate_pod_one [OF this]] show ?thesis .
  qed
qed

lemma roll_loop_step:
  assumes "roll_loop env pc app upd revs umin replicas (Suc t) status s = Some (res, s')"
    and "replicas ! t = Some p" and "\<not> int t < umin"
  shows "getPodRevision p \<noteq> rev_name upd \<and> p_deletion p = None \<and> update_target env pc app upd revs p status s = Some (res, s') \<or>
    (\<exists>u. quiet s u \<and>
       (s' = u \<or> rolled upd p \<and> roll_loop env pc app upd revs umin replicas t status u = Some (res, s')))"
proof (cases "getPodRevision p \<noteq> rev_name upd \<and> p_deletion p = None")
  case True
  with assms show ?thesis by simp
next
  case old: False
  show ?thesis
  proof (cases "in_place_pending p \<and> IsInPlaceUpdateDone env p = (True, None)")
    case True
    with old assms obtain e u where clean: "CleanUpInPlaceUpdate env p s = Some (e, u)"
      by (auto simp: bind_eq_Some_conv)
    have "roll_loop env pc app upd revs umin replicas t status u = Some (res, s') \<or> s' = u"
      using True clean old assms by (cases e) auto
    moreover have "rolled upd p" using old True by (simp add: rolled_def)
    ultimately show ?thesis using CleanUpInPlaceUpdate_quiet [OF clean] by blast
  next
    case False
    with old assms have "s' = s \<or>
      rolled upd p \<and> roll_loop env pc app upd revs umin replicas t status s = Some (res, s')"
      by (auto simp: rolled_def split: prod.splits option.splits bool.splits if_splits)
    then show ?thesis using only_refl by blast
  qed
qed

lemma roll_loop_one:
  "roll_loop env pc app upd revs umin replicas n status s = Some (res, s') \<Longrightarrow> n \<le> length replicas \<Longrightarrow>
     (\<And>q. Some q \<in> set (drop n replicas) \<Longrightarrow> rolled upd q) \<Longrightarrow>
     one_action (roll_action upd umin replicas) s s'"
proof (induction n arbitrary: s)
  case 0
  then show ?case by (auto simp: one_action_def split: if_splits)
next
  case (Suc t)
  show ?case
  proof (cases "int t < umin")
    case True
    with Suc.prems show ?thesis by (simp add: one_action_def)
  next
    case min: False
    with Suc.prems(1) obtain p where p: "replicas ! t = Some p" by (auto split: option.splits)
    have drop: "drop t replicas = Some p # drop (Suc t) replicas"
      using Suc.prems(2) p by (metis Cons_nth_drop_Suc Suc_le_eq)
    from roll_loop_step [OF Suc.prems(1) p min] show ?thesis
    proof (elim disjE exE conjE)
      assume old: "getPodRevision p \<noteq> rev_name upd" "p_deletion p = None"
        and "update_target env pc app upd revs p status s = Some (res, s')"
      from update_target_one [OF this(3)] show ?thesis
        by (rule one_action_mono)
          (use min old p Suc.prems(2,3) in \<open>auto simp: roll_action_def intro!: exI [of _ t]\<close>)
    next
      fix u assume quiet: "quiet s u" and p: "rolled upd p"
        and "roll_loop env pc app upd revs umin replicas t status u = Some (res, s')"
      from this(3) have "one_action (roll_action upd umin replicas) u s'"
        by (rule Suc.IH) (use Suc.prems(2,3) p in \<open>auto simp: drop\<close>)
      with quiet show ?thesis by (rule quiet_then_one_action)
    qed (simp add: one_action_def)
  qed
qed

lemma roll_update_one:
  assumes "roll_update env pc app upd revs replicas status s = Some (res, s')"
    and "strategy app \<noteq> OnDeleteType" and "a_deletion app = None"
  shows "one_action (update_action app upd replicas) s s'"
proof -
  from assms(1) obtain ru where ru: "rolling app = Some ru"
    by (auto simp: roll_update_def bind_eq_Some_conv)
  show ?thesis
  proof (cases "ru_paused ru")
    case True
    with assms(1) ru show ?thesis by (simp add: roll_update_def one_action_def)
  next
    case False
    with assms(1) ru obtain pt where pt: "ru_partition ru = Some pt"
      "roll_loop env pc app upd revs (sint pt) replicas (length replicas) status s = Some (res, s')"
      by (auto simp: roll_update_def bind_eq_Some_conv)
    have "updates_on app (sint pt)"
      unfolding updates_on_def using assms(2,3) ru False pt(1) by blast
    then show ?thesis
      by (intro one_action_mono [OF roll_loop_one [OF pt(2)]]) (auto simp: update_action_def)
  qed
qed

end

section \<open>A whole pass\<close>

definition all_settled :: "pod option list \<Rightarrow> bool" where
  "all_settled replicas \<longleftrightarrow> (\<forall>q. Some q \<in> set replicas \<longrightarrow> settled q)"

text \<open>What a pass may do in any mode, and what it may do when pods are managed in order.\<close>

definition pass_action ::
  "app \<Rightarrow> controller_revision \<Rightarrow> pod option list \<Rightarrow> pod list \<Rightarrow> api_call \<Rightarrow> bool" where
  "pass_action app upd replicas bad c \<longleftrightarrow>
     (\<exists>p. Some p \<in> set replicas \<and> sync_action p c) \<or> (\<exists>p \<in> set bad. deletes p c) \<or>
     update_action app upd replicas c"

definition ordered_action ::
  "app \<Rightarrow> controller_revision \<Rightarrow> pod option list \<Rightarrow> pod list \<Rightarrow> api_call \<Rightarrow> bool" where
  "ordered_action app upd replicas bad c \<longleftrightarrow>
     in_order replicas c \<or>
     all_settled replicas \<and> bad \<noteq> [] \<and> deletes (hd bad) c \<or>
     all_settled replicas \<and> bad = [] \<and> update_action app upd replicas c"

context pod_control
begin

text \<open>The ways a pass ends: in the synchronisation, in the scaling down, or in the update.\<close>

lemma manage_pods_cases:
  assumes "manage_pods env pc app cur upd revs replicas bad status s = Some (res, s')"
  obtains (sync) replicas' y where
    "sync_loop env pc app (burstable app) (getMinReadySeconds app) replicas
       \<lparr>sy_sys = s, sy_status = status, sy_available = True, sy_err = None\<rparr> = Some (replicas', y)" "s' = sy_sys y"
  | (scale) y first err where
    "sync_loop env pc app (burstable app) (getMinReadySeconds app) replicas
       \<lparr>sy_sys = s, sy_status = status, sy_available = True, sy_err = None\<rparr> = Some (replicas, y)"
    "sy_available y" "sy_err y = None"
    "scale_down pc app (burstable app) first 0 bad (sy_sys y) = (True, err, s') \<or>
     scale_down pc app (burstable app) first 0 bad (sy_sys y) = (False, err, s')"
  | (roll) y first u st where
    "sync_loop env pc app (burstable app) (getMinReadySeconds app) replicas
       \<lparr>sy_sys = s, sy_status = status, sy_available = True, sy_err = None\<rparr> = Some (replicas, y)"
    "sy_available y" "sy_err y = None"
    "scale_down pc app (burstable app) first 0 bad (sy_sys y) = (False, None, u)"
    "strategy app \<noteq> OnDeleteType" "a_deletion app = None"
    "roll_update env pc app upd revs replicas st u = Some (res, s')"
proof -
  let ?y = "\<lparr>sy_sys = s, sy_status = status, sy_available = True, sy_err = None\<rparr>"
  from assms obtain replicas' y
    where loop: "sync_loop env pc app (burstable app) (getMinReadySeconds app) replicas ?y = Some (replicas', y)"
    by (auto simp: manage_pods_def Let_def bind_eq_Some_conv)
  show ?thesis
  proof (cases "sy_err y \<noteq> None \<or> \<not> sy_available y")
    case True
    with assms loop have "s' = sy_sys y" by (auto simp: manage_pods_def Let_def)
    with loop show ?thesis by (rule sync)
  next
    case False
    then have av: "sy_available y" "sy_err y = None" by simp_all
    with sync_loop_actions [OF loop] have same: "replicas' = replicas" by blast
    let ?first = "sc_first (first_unhealthy replicas bad)"
    obtain exit err u where scale: "scale_down pc app (burstable app) ?first 0 bad (sy_sys y) = (exit, err, u)"
      by (cases "scale_down pc app (burstable app) ?first 0 bad (sy_sys y)") auto
    show ?thesis
    proof (cases "exit \<or> err \<noteq> None \<or> strategy app = OnDeleteType \<or> a_deletion app \<noteq> None")
      case True
      with assms loop scale av same have "s' = u"
        by (auto simp: manage_pods_def Let_def split: if_splits)
      with loop same av scale show ?thesis
        by (intro that(2) [of y ?first err]) (cases exit, auto)
    next
      case False
      with assms loop scale av same obtain st where "roll_update env pc app upd revs replicas st u = Some (res, s')"
        by (auto simp: manage_pods_def Let_def)
      with loop same av scale False show ?thesis by (intro that(3) [of y ?first u st]) auto
    qed
  qed
qed

lemma manage_pods_actions:
  assumes "manage_pods env pc app cur upd revs replicas bad status s = Some (res, s')"
  shows "actions (pass_action app upd replicas bad) s s'"
  using assms
proof (cases rule: manage_pods_cases)
  case (sync replicas' y)
  from sync_loop_actions [OF sync(1)] sync(2) show ?thesis
    by (auto simp: pass_action_def elim!: actions_mono)
next
  case (scale y first err)
  from sync_loop_actions [OF scale(1)] scale(2) have "quiet s (sy_sys y)" by simp
  moreover have "actions (pass_action app upd replicas bad) (sy_sys y) s'"
    using scale(4) by (auto dest!: scale_down_actions elim!: actions_mono simp: pass_action_def)
  ultimately show ?thesis by (blast intro: actions_trans quiet_actions)
next
  case (roll y first u st)
  from sync_loop_actions [OF roll(1)] roll(2) have "quiet s (sy_sys y)" by simp
  moreover have "actions (pass_action app upd replicas bad) (sy_sys y) u"
    using scale_down_actions [OF roll(4)] by (rule actions_mono) (simp add: pass_action_def)
  moreover have "actions (pass_action app upd replicas bad) u s'"
    by (rule one_action_actions, rule one_action_mono [OF roll_update_one [OF roll(7,5,6)]])
      (simp add: pass_action_def)
  ultimately show ?thesis by (blast intro: actions_trans quiet_actions)
qed

lemma manage_pods_ordered:
  assumes "manage_pods env pc app cur upd revs replicas bad status s = Some (res, s')"
    and "\<not> burstable app"
  shows "one_action (ordered_action app upd replicas bad) s s'"
  using assms(1)
proof (cases rule: manage_pods_cases)
  case (sync replicas' y)
  with sync_loop_ordered [of env app] assms(2) have "one_action (in_order replicas) s s'" by fastforce
  then show ?thesis by (rule one_action_mono) (simp add: ordered_action_def)
next
  case (scale y first err)
  from sync_loop_actions [OF scale(1)] scale(2) have quiet: "quiet s (sy_sys y)" by simp
  have all: "all_settled replicas"
    using scale(1-3) assms(2) sync_loop_ordered [of env app _ replicas] by (fastforce simp: all_settled_def)
  from scale(4) assms(2) obtain exit where "scale_down pc app False first 0 bad (sy_sys y) = (exit, err, s')"
    by auto
  have "one_action (ordered_action app upd replicas bad) (sy_sys y) s'"
    by (rule one_action_mono [OF conjunct2 [OF scale_down_ordered [OF \<open>scale_down pc app False _ _ _ _ = _\<close>]]])
      (use all in \<open>auto simp: ordered_action_def\<close>)
  with quiet show ?thesis by (rule quiet_then_one_action)
next
  case (roll y first u st)
  from sync_loop_actions [OF roll(1)] roll(2) have quiet: "quiet s (sy_sys y)" by simp
  have all: "all_settled replicas"
    using roll(1-3) assms(2) sync_loop_ordered [of env app _ replicas] by (fastforce simp: all_settled_def)
  have none: "bad = []"
    using scale_down_ordered [of app first bad "sy_sys y" False None u] roll(4) assms(2) by auto
  with roll(4) have "u = sy_sys y" by simp
  with roll_update_one [OF roll(7,5,6)] have "one_action (update_action app upd replicas) (sy_sys y) s'" by simp
  then have "one_action (ordered_action app upd replicas bad) (sy_sys y) s'"
    by (rule one_action_mono) (simp add: ordered_action_def none all)
  with quiet show ?thesis by (rule quiet_then_one_action)
qed

end

text \<open>Everything before the loops is quiet; the loops run on the arranged pods.\<close>

lemma write_rolling_quiet:
  assumes "retry_on_conflict env (write_rolling env ru) (app, s) = Some (err, app', s')"
  shows "quiet s s' \<and> requeue_store s' = requeue_store s"
proof -
  have "(\<lambda>(_, u). quiet s u \<and> requeue_store u = requeue_store s) (app', s')"
    by (rule retry_loop_invariant [OF assms [unfolded retry_on_conflict_def]])
      (auto simp: write_rolling_def app_Update_def Let_def split: sum.splits intro!: quiet_log)
  then show ?thesis by simp
qed

lemma applyUpdate_cases:
  assumes "applyUpdate env pc app cur upd collision pods revs s = Some (res, s')"
  obtains (quiet) "quiet s s'"
  | (manage) currentApp updateApp replicas bad status where
    "ApplyRevision env app cur = Some (Inr currentApp)" "ApplyRevision env app upd = Some (Inr updateApp)"
    "arrange_pods env app currentApp updateApp cur upd pods s = Some (replicas, bad)"
    "manage_pods env pc app cur upd revs replicas bad status s = Some (res, s')"
proof -
  show ?thesis
  proof (cases "strategy app = RollingUpdateType \<and> fst (setDefaultRollingUpdateStrategy app)")
    case True
    with assms have "quiet s s'"
      by (auto simp: applyUpdate_def Let_def bind_eq_Some_conv split: sum.splits option.splits prod.splits
          dest: write_rolling_quiet)
    then show ?thesis by (rule quiet)
  next
    case False
    with assms show ?thesis
      by (auto simp: applyUpdate_def Let_def bind_eq_Some_conv split: sum.splits option.splits prod.splits if_splits
          intro: that)
  qed
qed

section \<open>The arrangement of the pods\<close>

lemma place_pods_spec:
  assumes "place_pods n ps reps bad = Some (reps', bad')" and "int (length reps) = n"
  shows "length reps' = length reps \<and> bad' = bad @ filter (\<lambda>p. n \<le> ordinal p) ps \<and>
    (\<forall>p \<in> set ps. 0 \<le> ordinal p) \<and>
    (\<forall>i < length reps. reps' ! i =
       (case first_match (\<lambda>p. ordinal p = int i) (rev ps) of None \<Rightarrow> reps ! i | Some p \<Rightarrow> Some p))"
  using assms
proof (induction ps arbitrary: reps bad)
  case (Cons p ps)
  have first_match_snoc: "first_match P (xs @ [x]) =
      (case first_match P xs of None \<Rightarrow> if P x then Some x else None | Some y \<Rightarrow> Some y)" for P xs and x :: pod
    by (induction xs) auto
  show ?case
  proof (cases "ordinal p < n")
    case True
    with Cons.prems have pos: "0 \<le> ordinal p"
      and rest: "place_pods n ps (reps[nat (ordinal p) := Some p]) bad = Some (reps', bad')"
      by (auto simp: Let_def split: if_splits)
    from Cons.IH [OF rest] Cons.prems(2) True pos show ?thesis
      by (auto simp: first_match_snoc nth_list_update split: option.splits)
  next
    case False
    with Cons.prems(2) have pos: "0 \<le> ordinal p" by linarith
    with False Cons.prems have rest: "place_pods n ps reps (bad @ [p]) = Some (reps', bad')"
      by (simp add: Let_def)
    from Cons.IH [OF rest] Cons.prems(2) False pos show ?thesis
      by (auto simp: first_match_snoc split: option.splits)
  qed
qed simp

text \<open>A new pod is named for the slot by one of the two Apps and carries that App's revision.\<close>

definition new_pod :: "app \<Rightarrow> app \<Rightarrow> string \<Rightarrow> string \<Rightarrow> int \<Rightarrow> pod \<Rightarrow> bool" where
  "new_pod currentApp updateApp cur upd n q \<longleftrightarrow>
     p_name q = getPodOutName currentApp n \<and> getPodRevision q = cur \<or>
     p_name q = getPodOutName updateApp n \<and> getPodRevision q = upd"

lemma newAppPod_name:
  assumes "newAppPod ft ord app n = Some q" and "0 \<le> n" and "n \<le> max_int64"
  shows "p_name q = getPodOutName app n"
proof -
  let ?p = "(ft (sp_template (a_spec app)) app)\<lparr>p_name := getPodOutName app n\<rparr>"
  have "GetPodAppNameAndOrdinal ?p = (a_name app, n)"
    by (rule ordinal_of_out_name) (simp_all add: assms(2,3))
  then have "p_name (updatePodIdentity app ?p) = getPodOutName app n"
    by (simp add: updatePodIdentity_def Let_def)
  with assms(1) show ?thesis
    by (auto simp: newAppPod_def Let_def updateVolume_def bind_eq_Some_conv)
qed

lemma newVersionedPod_new:
  assumes "newVersionedPodForApp ft ord ca ua cur upd n reps = Some q" and "0 \<le> n" and "n \<le> max_int64"
  shows "new_pod ca ua cur upd n q"
  using assms
  by (auto simp: newVersionedPodForApp_def bind_eq_Some_conv new_pod_def getPodRevision_def
      split: if_splits dest: newAppPod_name)

text \<open>A slot that was empty gets the pod that is made for it, in view of some slots filled before.\<close>

definition made :: "(pod_template \<Rightarrow> app \<Rightarrow> pod) \<Rightarrow> range_order \<Rightarrow> app \<Rightarrow> app \<Rightarrow> string \<Rightarrow> string \<Rightarrow> nat \<Rightarrow> pod \<Rightarrow> bool" where
  "made ft ord ca ua cur upd i q \<longleftrightarrow> (\<exists>reps. newVersionedPodForApp ft ord ca ua cur upd (int i) reps = Some q)"

lemma fill_slots_spec:
  assumes "fill_slots ft ord ca ua cur upd is reps = Some reps'" and "\<forall>i \<in> set is. i < length reps"
  shows "length reps' = length reps \<and> (\<forall>i. reps ! i \<noteq> None \<longrightarrow> reps' ! i = reps ! i) \<and>
    (\<forall>i \<in> set is. reps ! i = None \<longrightarrow> (\<exists>q. reps' ! i = Some q \<and> made ft ord ca ua cur upd i q))"
  using assms
proof (induction "is" arbitrary: reps)
  case (Cons i "is")
  show ?case
  proof (cases "reps ! i")
    case None
    with Cons.prems obtain q where q: "newVersionedPodForApp ft ord ca ua cur upd (int i) reps = Some q"
      and rest: "fill_slots ft ord ca ua cur upd is (reps[i := Some q]) = Some reps'"
      by (auto simp: bind_eq_Some_conv)
    have i: "i < length reps" using Cons.prems by simp
    have new: "made ft ord ca ua cur upd i q" using q by (auto simp: made_def)
    from Cons.IH [OF rest] Cons.prems i
    have "length reps' = length reps" "reps' ! i = Some q" "\<forall>j. reps ! j \<noteq> None \<longrightarrow> reps' ! j = reps ! j"
      "\<forall>j \<in> set is. j \<noteq> i \<longrightarrow> reps ! j = None \<longrightarrow> (\<exists>q. reps' ! j = Some q \<and> made ft ord ca ua cur upd j q)"
      using None by (auto simp: nth_list_update split: if_splits)
    with new None show ?thesis by (metis set_ConsD)
  next
    case (Some p)
    with Cons.prems have "fill_slots ft ord ca ua cur upd is reps = Some reps'" by simp
    from Cons.IH [OF this] Cons.prems Some show ?thesis by auto
  qed
qed simp

text \<open>The pod of an ordinal: the last of that ordinal in the list.\<close>

definition pod_at :: "pod list \<Rightarrow> nat \<Rightarrow> pod option" where
  "pod_at pods i = first_match (\<lambda>p. ordinal p = int i) (rev pods)"

lemma arrange_pods_made:
  assumes "arrange_pods env app ca ua cur upd pods s = Some (replicas, bad)"
  shows "\<exists>n. sp_replicas (a_spec app) = Some n \<and> int (length replicas) = sint n \<and>
    (\<forall>p \<in> set pods. 0 \<le> ordinal p) \<and>
    (\<forall>i < length replicas. \<exists>q. replicas ! i = Some q \<and>
       (case pod_at pods i of
          Some p \<Rightarrow> q = p
        | None \<Rightarrow> made (e_from_template env) (e_range env (trace s)) ca ua (rev_name cur) (rev_name upd) i q)) \<and>
    mset bad = mset (filter (\<lambda>p. sint n \<le> ordinal p) pods) \<and>
    sorted_wrt (\<lambda>p q. ordinal p \<ge> ordinal q) bad"
proof -
  from assms obtain n reps bad0 where n: "sp_replicas (a_spec app) = Some n" "0 \<le> sint n"
    and place: "place_pods (sint n) pods (replicate (nat (sint n)) None) [] = Some (reps, bad0)"
    and fill: "fill_slots (e_from_template env) (e_range env (trace s)) ca ua (rev_name cur) (rev_name upd)
      [0..<nat (sint n)] reps = Some replicas" and bad: "bad = sort_descending bad0"
    by (auto simp: arrange_pods_def bind_eq_Some_conv split: if_splits)
  from place_pods_spec [OF place] n(2) have p: "length reps = nat (sint n)"
    "bad0 = filter (\<lambda>p. sint n \<le> ordinal p) pods" "\<forall>p \<in> set pods. 0 \<le> ordinal p"
    "\<forall>i < nat (sint n). reps ! i = pod_at pods i"
    by (auto simp: pod_at_def split: option.splits)
  let ?made = "made (e_from_template env) (e_range env (trace s)) ca ua (rev_name cur) (rev_name upd)"
  from fill_slots_spec [OF fill] p(1) have f: "length replicas = nat (sint n)"
    "\<forall>i. reps ! i \<noteq> None \<longrightarrow> replicas ! i = reps ! i"
    "\<forall>i < nat (sint n). reps ! i = None \<longrightarrow> (\<exists>q. replicas ! i = Some q \<and> ?made i q)"
    by auto
  have "\<exists>q. replicas ! i = Some q \<and> (case pod_at pods i of Some p \<Rightarrow> q = p | None \<Rightarrow> ?made i q)"
    if "i < length replicas" for i
    using that f p(4) by (cases "pod_at pods i") auto
  then have slots: "\<forall>i < length replicas. \<exists>q. replicas ! i = Some q \<and>
      (case pod_at pods i of Some p \<Rightarrow> q = p | None \<Rightarrow> ?made i q)" by blast
  have "mset bad = mset (filter (\<lambda>p. sint n \<le> ordinal p) pods)"
    by (simp add: bad p(2) sort_descending_def)
  moreover have "sorted_wrt (\<lambda>p q. ordinal p \<ge> ordinal q) bad"
    unfolding bad by (rule sort_descending_sorted)
  moreover have "int (length replicas) = sint n" using f(1) n(2) by simp
  ultimately show ?thesis using n(1) p(3) slots by blast
qed

lemma arrange_pods_lemma:
  assumes "arrange_pods env app ca ua cur upd pods s = Some (replicas, bad)"
  shows "\<exists>n. sp_replicas (a_spec app) = Some n \<and> int (length replicas) = sint n \<and>
    (\<forall>p \<in> set pods. 0 \<le> ordinal p) \<and>
    (\<forall>i < length replicas. \<exists>q. replicas ! i = Some q \<and>
       (case pod_at pods i of Some p \<Rightarrow> q = p | None \<Rightarrow> new_pod ca ua (rev_name cur) (rev_name upd) (int i) q)) \<and>
    mset bad = mset (filter (\<lambda>p. sint n \<le> ordinal p) pods) \<and>
    sorted_wrt (\<lambda>p q. ordinal p \<ge> ordinal q) bad"
proof -
  from arrange_pods_made [OF assms] obtain n where n: "sp_replicas (a_spec app) = Some n" "int (length replicas) = sint n"
    "\<forall>p \<in> set pods. 0 \<le> ordinal p" "mset bad = mset (filter (\<lambda>p. sint n \<le> ordinal p) pods)"
    "sorted_wrt (\<lambda>p q. ordinal p \<ge> ordinal q) bad" and slots: "\<forall>i < length replicas. \<exists>q. replicas ! i = Some q \<and>
      (case pod_at pods i of
         Some p \<Rightarrow> q = p
       | None \<Rightarrow> made (e_from_template env) (e_range env (trace s)) ca ua (rev_name cur) (rev_name upd) i q)" by blast
  have "new_pod ca ua (rev_name cur) (rev_name upd) (int i) q"
    if "i < length replicas" "made (e_from_template env) (e_range env (trace s)) ca ua (rev_name cur) (rev_name upd) i q" for i q
    using that n(2) sint32_bounds [of n] newVersionedPod_new
    by (fastforce simp: made_def max_int64_def)
  then have "\<forall>i < length replicas. \<exists>q. replicas ! i = Some q \<and>
      (case pod_at pods i of Some p \<Rightarrow> q = p | None \<Rightarrow> new_pod ca ua (rev_name cur) (rev_name upd) (int i) q)"
    using slots by (fastforce split: option.splits)
  with n show ?thesis by blast
qed

section \<open>Properties\<close>

text \<open>
  C1.  In order, one at a time: unless the App asks for parallel management, a pass creates or
  deletes at most one pod, and only as \<open>ordered\_action\<close> says: it creates a missing replica or
  deletes a finished one when every replica of a lower ordinal is running, ready and not
  terminating; it deletes a surplus pod, the one of the highest ordinal, only when all
  replicas are so; and it deletes a replica for an update only when moreover no surplus pod
  is left, from the top down to the partition.
\<close>

theorem applyUpdate_in_order:
  assumes "applyUpdate env (PodController env) app cur upd collision pods revs s = Some (res, s')"
    and "sp_management_policy (a_spec app) \<noteq> Parallel"
  shows "lifecycle (calls_between s s') = [] \<or>
    (\<exists>ca ua replicas bad c. ApplyRevision env app cur = Some (Inr ca) \<and> ApplyRevision env app upd = Some (Inr ua) \<and>
       arrange_pods env app ca ua cur upd pods s = Some (replicas, bad) \<and>
       lifecycle (calls_between s s') = [c] \<and> ordered_action app upd replicas bad c)"
  using assms(1)
proof (cases rule: applyUpdate_cases)
  case quiet
  then show ?thesis by (simp add: quiet_calls_between)
next
  case (manage ca ua replicas bad status)
  have "one_action (ordered_action app upd replicas bad) s s'"
    by (rule pod_controller.manage_pods_ordered [OF manage(4)]) (use assms(2) in \<open>simp add: burstable_def\<close>)
  with manage(1-3) show ?thesis
    unfolding one_action_def by (metis adds_calls_between quiet_calls_between)
qed

text \<open>
  C2.  In every mode, parallel management included, an action of a pass is one of these: the
  creation of a replica that has no phase yet, the deletion of a replica that failed or
  succeeded, the deletion of a surplus pod, or, when updates are on, the deletion of a
  replica at or above the partition that is not at the update revision.
\<close>

theorem applyUpdate_only_allowed:
  assumes "applyUpdate env (PodController env) app cur upd collision pods revs s = Some (res, s')"
    and "c \<in> set (calls_between s s')" and "is_lifecycle c"
  shows "\<exists>ca ua replicas bad. ApplyRevision env app cur = Some (Inr ca) \<and> ApplyRevision env app upd = Some (Inr ua) \<and>
    arrange_pods env app ca ua cur upd pods s = Some (replicas, bad) \<and> pass_action app upd replicas bad c"
  using assms(1)
proof (cases rule: applyUpdate_cases)
  case quiet
  with assms(2,3) only_calls_between [OF quiet assms(2)] show ?thesis by simp
next
  case (manage ca ua replicas bad status)
  have "actions (pass_action app upd replicas bad) s s'"
    by (rule pod_controller.manage_pods_actions [OF manage(4)])
  with assms(2,3) have "pass_action app upd replicas bad c"
    by (auto simp: actions_def dest: only_calls_between)
  with manage(1-3) show ?thesis by blast
qed

text \<open>
  C17.  Updates that are off stay off: with the strategy OnDelete, for an App that is being
  deleted, or while the rolling update is paused, a pass deletes only pods that have finished
  or are surplus.
\<close>

theorem applyUpdate_off:
  assumes "applyUpdate env (PodController env) app cur upd collision pods revs s = Some (res, s')"
    and "strategy app = OnDeleteType \<or> a_deletion app \<noteq> None \<or> map_option ru_paused (rolling app) = Some True"
    and "CallPodDelete ns n \<in> set (calls_between s s')"
  shows "\<exists>ca ua replicas bad p. arrange_pods env app ca ua cur upd pods s = Some (replicas, bad) \<and>
    (Some p \<in> set replicas \<and> finished p \<or> p \<in> set bad) \<and>
    p_deletion p = None \<and> ns = p_namespace p \<and> n = p_name p"
  using assms(1)
proof (cases rule: applyUpdate_cases)
  case quiet
  from only_calls_between [OF quiet assms(3)] show ?thesis by simp
next
  case (manage ca ua replicas bad status)
  have "actions (pass_action app upd replicas bad) s s'"
    by (rule pod_controller.manage_pods_actions [OF manage(4)])
  with assms(3) have "pass_action app upd replicas bad (CallPodDelete ns n)"
    by (auto simp: actions_def dest: only_calls_between)
  moreover have "\<not> update_action app upd replicas (CallPodDelete ns n)"
    using assms(2) by (auto simp: update_action_def updates_on_def)
  ultimately obtain p where "Some p \<in> set replicas \<and> finished p \<or> p \<in> set bad"
    "deletes p (CallPodDelete ns n)"
    by (auto simp: pass_action_def sync_action_def creates_def)
  moreover from this(2) have "p_deletion p = None" "ns = p_namespace p" "n = p_name p"
    by (simp_all add: deletes_def)
  ultimately show ?thesis using manage(3) by blast
qed

text \<open>
  C18.  The arrangement: there is one slot per wanted replica; a slot holds the pod of its
  ordinal when the App has one and a new pod named for that ordinal otherwise, at the current
  or the update revision; the surplus pods are exactly those of the ordinals beyond, highest
  first.
\<close>

theorem arrange_pods_spec:
  assumes "arrange_pods env app ca ua cur upd pods s = Some (replicas, bad)"
  shows "\<exists>n. sp_replicas (a_spec app) = Some n \<and> int (length replicas) = sint n \<and>
    (\<forall>p \<in> set pods. 0 \<le> ordinal p) \<and>
    (\<forall>i < length replicas. \<exists>q. replicas ! i = Some q \<and>
       (case pod_at pods i of Some p \<Rightarrow> q = p | None \<Rightarrow> new_pod ca ua (rev_name cur) (rev_name upd) (int i) q)) \<and>
    mset bad = mset (filter (\<lambda>p. sint n \<le> ordinal p) pods) \<and>
    sorted_wrt (\<lambda>p q. ordinal p \<ge> ordinal q) bad"
  by (rule arrange_pods_lemma [OF assms])

section \<open>A concrete pass\<close>

text \<open>One replica that has failed, updates by deletion only.\<close>

definition single_app :: app where
  "single_app = sample_app\<lparr>a_spec := (a_spec sample_app)
     \<lparr>sp_replicas := Some 1, sp_claim_templates := [],
      sp_update_strategy := \<lparr>us_type = OnDeleteType, us_rolling_update = None\<rparr>\<rparr>\<rparr>"

definition failed_pod :: pod where
  "failed_pod = (running_pod ''web-site-0'' ''r1'')\<lparr>p_phase := PodFailed\<rparr>"

lemma failed_pod_simps [simp]:
  "GetPodAppNameAndOrdinal failed_pod = (''web-site'', 0)" "p_phase failed_pod = PodFailed"
  "p_deletion failed_pod = None" "p_namespace failed_pod = ''ns''" "p_name failed_pod = ''web-site-0''"
proof -
  show "GetPodAppNameAndOrdinal failed_pod = (''web-site'', 0)"
    by (rule ordinal_of_out_name [of _ sample_app 0, unfolded sample_app_simps])
      (simp_all add: failed_pod_def running_pod_def getPodOutName_def itoa_def nat_dec.simps blank_pod_def max_int64_def)
qed (simp_all add: failed_pod_def running_pod_def blank_pod_def)

lemma failed_pod_arranged:
  "arrange_pods sample_env single_app ca ua cur upd [failed_pod] s = Some ([Some failed_pod], [])"
  by (simp add: arrange_pods_def single_app_def sort_descending_def go_sort_def)

lemma failed_pod_run:
  "\<exists>res s'. applyUpdate sample_env (PodController sample_env) single_app cur upd n [failed_pod] revs s =
       Some (res, s') \<and>
     CallPodDelete ''ns'' ''web-site-0'' \<in> set (calls_between s s')"
proof -
  have sel: "e_selector sample_env l = Inr ''app=nginx''" for l by (simp add: sample_env_def)
  have rev: "ApplyRevision sample_env a r = Some (Inr sample_app)" for a r
    by (simp add: ApplyRevision_def sample_env_def)
  have strat: "strategy single_app = OnDeleteType" by (simp add: single_app_def)
  have del: "e_pod_delete sample_env cs ns n = None" for cs ns n by (simp add: sample_env_def)
  have fin: "sync_pod sample_env pc single_app b mrs failed_pod y = Some (sync_finished pc single_app failed_pod y)"
    for pc b mrs y by (simp add: sync_pod_def)
  have "\<exists>res s'. manage_pods sample_env (PodController sample_env) single_app cur upd revs
       [Some failed_pod] [] st s = Some (res, s') \<and>
     CallPodDelete ''ns'' ''web-site-0'' \<in> set (calls_between s s')" for st
    by (simp add: manage_pods_def Let_def fin sync_finished_def PodController_def DeleteStatefulPod_def
        recordPodEvent_def del calls_between_def)
  then show ?thesis
    unfolding applyUpdate_def
    by (simp add: sel rev strat failed_pod_arranged Let_def split: prod.splits)
qed

theorem applyUpdate_in_order_witness:
  "\<exists>ca ua replicas bad c.
     arrange_pods sample_env single_app ca ua (sample_revision ''r1'' 1) (sample_revision ''r2'' 2) [failed_pod]
       sample_sys = Some (replicas, bad) \<and>
     ordered_action single_app (sample_revision ''r2'' 2) replicas bad c"
proof -
  obtain res s' where run: "applyUpdate sample_env (PodController sample_env) single_app (sample_revision ''r1'' 1)
       (sample_revision ''r2'' 2) 0 [failed_pod] [] sample_sys = Some (res, s')"
    and del: "CallPodDelete ''ns'' ''web-site-0'' \<in> set (calls_between sample_sys s')"
    using failed_pod_run by blast
  from del have "lifecycle (calls_between sample_sys s') \<noteq> []"
    by (force simp: lifecycle_def filter_empty_conv)
  moreover have "sp_management_policy (a_spec single_app) \<noteq> Parallel" by (simp add: single_app_def)
  ultimately show ?thesis using applyUpdate_in_order [OF run] by metis
qed

theorem applyUpdate_only_allowed_witness:
  "\<exists>ca ua replicas bad.
     arrange_pods sample_env single_app ca ua (sample_revision ''r1'' 1) (sample_revision ''r2'' 2) [failed_pod]
       sample_sys = Some (replicas, bad) \<and>
     pass_action single_app (sample_revision ''r2'' 2) replicas bad (CallPodDelete ''ns'' ''web-site-0'')"
proof -
  obtain res s' where run: "applyUpdate sample_env (PodController sample_env) single_app (sample_revision ''r1'' 1)
       (sample_revision ''r2'' 2) 0 [failed_pod] [] sample_sys = Some (res, s')"
    and del: "CallPodDelete ''ns'' ''web-site-0'' \<in> set (calls_between sample_sys s')"
    using failed_pod_run by blast
  from applyUpdate_only_allowed [OF run del] show ?thesis by auto
qed

theorem applyUpdate_off_witness:
  "\<exists>ca ua replicas bad p.
     arrange_pods sample_env single_app ca ua (sample_revision ''r1'' 1) (sample_revision ''r2'' 2) [failed_pod]
       sample_sys = Some (replicas, bad) \<and>
     (Some p \<in> set replicas \<and> finished p \<or> p \<in> set bad) \<and> p_name p = ''web-site-0''"
proof -
  obtain res s' where run: "applyUpdate sample_env (PodController sample_env) single_app (sample_revision ''r1'' 1)
       (sample_revision ''r2'' 2) 0 [failed_pod] [] sample_sys = Some (res, s')"
    and del: "CallPodDelete ''ns'' ''web-site-0'' \<in> set (calls_between sample_sys s')"
    using failed_pod_run by blast
  have "strategy single_app = OnDeleteType" by (simp add: single_app_def)
  with applyUpdate_off [OF run _ del] show ?thesis by metis
qed

theorem arrange_pods_spec_witness:
  "\<exists>q. [Some failed_pod] ! 0 = Some q \<and>
     (case pod_at [failed_pod] 0 of Some p \<Rightarrow> q = p | None \<Rightarrow> new_pod sample_app sample_app ''r1'' ''r2'' 0 q)"
  using arrange_pods_spec [OF failed_pod_arranged [of sample_app sample_app "sample_revision ''r1'' 1"
      "sample_revision ''r2'' 2" sample_sys]]
  by (auto simp: sample_revision_def split: option.splits)

section \<open>Parallel management does not wait\<close>

text \<open>
  Parallel management does not wait for a terminating replica: in a pass over two slots,
  the lower running, ready and identified but at an old revision, the upper terminating, the
  synchronisation stops at the terminating pod and still counts all replicas as available; the
  rolling update passes over that pod too and deletes the lower one.
\<close>

theorem parallel_update_passes_terminating:
  assumes "sp_management_policy (a_spec app) = Parallel" and "updates_on app updateMin" and "updateMin \<le> 0"
    and "\<not> in_place_allowed app" and "getMinReadySeconds app = 0"
    and "settled p" and "matchAppAndPod app p" and "matchAppPVC app p" and "getPodRevision p \<noteq> rev_name upd"
    and "p_phase q = PodRunning" and "p_deletion q \<noteq> None" and "\<not> in_place_pending q"
  shows "\<exists>res s'. manage_pods env (PodController env) app cur upd revs [Some p, Some q] [] status s = Some (res, s') \<and>
    lifecycle (calls_between s s') = [CallPodDelete (p_namespace p) (p_name p)]"
proof -
  have p: "p_phase p = PodRunning" "p_deletion p = None" "getPodReady (Some p)"
    using assms(6) by (simp_all add: settled_def)
  have avail: "getPodAvailableAndNextCheckInterval now p 0 = (True, 0)" for now
    using p by (simp add: getPodAvailableAndNextCheckInterval_def)
  have burst: "burstable app" using assms(1) by (simp add: burstable_def)
  let ?y = "\<lparr>sy_sys = s, sy_status = status, sy_available = True, sy_err = None\<rparr>"
  have "sync_pod env (PodController env) app True 0 p ?y = Some (Continue, p, ?y)"
    using p assms(7,8) by (simp add: sync_pod_def sync_existing_def avail sync_identity_def)
  moreover have "sync_pod env (PodController env) app True 0 q ?y = Some (Break, q, ?y)"
    using assms(10,11) by (simp add: sync_pod_def sync_existing_def)
  ultimately have loop: "sync_loop env (PodController env) app True 0 [Some p, Some q] ?y =
      Some ([Some p, Some q], ?y)" by simp
  obtain e u where del: "po_delete (PodController env) app p s = (e, u)" by fastforce
  from pod_controller.delete_calls [OF p(2) del]
  have life: "lifecycle (calls_between s u) = [CallPodDelete (p_namespace p) (p_name p)]"
    by (auto simp: adds_calls_between)
  have rec: "\<exists>res. recreate_pod (PodController env) app p st s = (res, u)" for st
    by (simp add: recreate_pod_def del)
  from assms(2) obtain ru m where ru: "rolling app = Some ru" "\<not> ru_paused ru" "ru_partition ru = Some m"
    "updateMin = sint m" "strategy app \<noteq> OnDeleteType" "a_deletion app = None"
    by (auto simp: updates_on_def)
  have "roll_update env (PodController env) app upd revs [Some p, Some q] st s =
      Some (recreate_pod (PodController env) app p st s)" for st
    using ru assms(3,4,9,11,12) p(2)
    by (auto simp: roll_update_def numeral_2_eq_2 update_target_def)
  with rec have roll: "\<exists>res. roll_update env (PodController env) app upd revs [Some p, Some q] st s = Some (res, u)" for st
    by metis
  have "manage_pods env (PodController env) app cur upd revs [Some p, Some q] [] status s =
      roll_update env (PodController env) app upd revs [Some p, Some q]
        (updateStatus (e_clock env (trace s)) status 0 cur upd [[Some p, Some q], []]) s"
    by (simp add: manage_pods_def Let_def burst assms(5) loop ru del: sync_loop.simps)
  with roll life show ?thesis by metis
qed

text \<open>Two replicas of a parallel App without claims; the upper one terminates.\<close>

definition parallel_app :: app where
  "parallel_app = sample_app\<lparr>a_spec := (a_spec sample_app)
     \<lparr>sp_replicas := Some 2, sp_claim_templates := [], sp_management_policy := Parallel\<rparr>\<rparr>"

definition old_replica :: pod where
  "old_replica = updatePodIdentity parallel_app (running_pod ''web-site-0'' ''r1'')"

definition terminating_replica :: pod where
  "terminating_replica = (running_pod ''web-site-1'' ''r2'')\<lparr>p_deletion := Some 7\<rparr>"

lemma old_replica_simps:
  "matchAppAndPod parallel_app old_replica" "ordinal old_replica = 0"
  "settled old_replica" "getPodRevision old_replica = ''r1''"
  "p_namespace old_replica = ''ns''" "p_name old_replica = ''web-site-0''" "\<not> in_place_pending old_replica"
proof -
  have ord: "GetPodAppNameAndOrdinal (running_pod ''web-site-0'' ''r1'') = (''web-site'', 0)"
    by (rule ordinal_of_out_name [of _ sample_app 0, unfolded sample_app_simps])
      (simp_all add: running_pod_def getPodOutName_def itoa_def nat_dec.simps blank_pod_def max_int64_def)
  show "matchAppAndPod parallel_app old_replica" "ordinal old_replica = 0"
    using updatePodIdentity_matches [of "running_pod ''web-site-0'' ''r1''" parallel_app]
    by (simp_all add: old_replica_def ord)
  show "settled old_replica" "getPodRevision old_replica = ''r1''"
    "p_namespace old_replica = ''ns''" "p_name old_replica = ''web-site-0''" "\<not> in_place_pending old_replica"
    by (simp_all add: old_replica_def updatePodIdentity_def Let_def ord settled_def getPodReady_def
        getPodRevision_def in_place_pending_def)
      (simp_all add: running_pod_def blank_pod_def ready_at_def parallel_app_def getPodOutName_def
        itoa_def nat_dec.simps label_pod_owner_app_def label_pod_ordinal_def revision_label_def)
qed

theorem parallel_update_passes_terminating_witness:
  "\<exists>res s'. manage_pods sample_env (PodController sample_env) parallel_app (sample_revision ''r1'' 1)
       (sample_revision ''r2'' 2) [] [Some old_replica, Some terminating_replica] [] zero_status sample_sys =
       Some (res, s') \<and>
     lifecycle (calls_between sample_sys s') = [CallPodDelete ''ns'' ''web-site-0'']"
proof -
  have "matchAppPVC parallel_app old_replica"
    by (simp add: matchAppPVC_def old_replica_simps(2) parallel_app_def)
  with old_replica_simps show ?thesis
    using parallel_update_passes_terminating [of parallel_app 0 old_replica "sample_revision ''r2'' 2"
        terminating_replica sample_env "sample_revision ''r1'' 1" "[]" zero_status sample_sys]
    by (simp add: updates_on_def in_place_allowed_def getMinReadySeconds_def terminating_replica_def
        in_place_pending_def parallel_app_def sample_app_def sample_rolling_def running_pod_def
        blank_pod_def sample_revision_def)
qed

end
