(* ===== verification/State_Controller.thy ===== *)
theory State_Controller
  imports Update_Safety
begin

text \<open>
  \<open>UpdateApp\<close> and \<open>updateAppStatus\<close> of
  \<open>deployer/internal/controller/app/state\_controller.go\<close>: a whole synchronisation of an App,
  from the choice of the update revision over the pass \<open>applyUpdate\<close> to the writing of the
  status and the truncation of the history.
\<close>

section \<open>Writing the status\<close>

text \<open>
  The closure; the captured variable \<open>app\<close> is refreshed from the lister after a failure.
  The error of the lister is only logged.
\<close>

definition put_status :: "env \<Rightarrow> app_status \<Rightarrow> app \<times> sys \<Rightarrow> (go_error option \<times> app \<times> sys) option" where
  "put_status env status = (\<lambda>(app, s).
     let app = app\<lparr>a_status := status\<rparr> in
     case app_UpdateStatus env app s of
       ((_, None), s) \<Rightarrow> Some (None, app, s)
     | ((_, Some err), s) \<Rightarrow>
         (case app_lister_Get env (a_namespace app) (a_name app) s of
            Inr updated \<Rightarrow> Some (Some err, updated, s)
          | Inl _ \<Rightarrow> Some (Some err, app, s)))"

definition updateAppStatus ::
  "env \<Rightarrow> app \<Rightarrow> app_status \<Rightarrow> sys \<Rightarrow> (go_error option \<times> sys) option" where
  "updateAppStatus env app status s =
     (let status = completeRollingUpdate app status in
      if statusConsistent app status then Some (None, s)
      else do {
        (err, app, s) \<leftarrow> retry_on_conflict env (put_status env status) (app, s);
        Some (err, s)
      })"

section \<open>UpdateApp\<close>

text \<open>
  The error of the pass wins over the error of the status, and both over the error of the
  truncation.  \<open>applyUpdate\<close> never returns a nil status, so the early return for that case
  is not taken.
\<close>

definition sync_revisions ::
  "env \<Rightarrow> pod_ops \<Rightarrow> app \<Rightarrow> pod list \<Rightarrow> controller_revision list \<Rightarrow> controller_revision \<Rightarrow> int32 \<Rightarrow> sys \<Rightarrow>
   (go_error option \<times> sys) option" where
  "sync_revisions env pc app pods revisions updateRevision collisionCount s =
     do {
       let currentRevision = current_revision app revisions updateRevision;
       ((currentStatus, getStatusErr), s) \<leftarrow>
         applyUpdate env pc app currentRevision updateRevision collisionCount pods revisions s;
       (updateStatusErr, s) \<leftarrow> updateAppStatus env app currentStatus s;
       let err = (case getStatusErr of Some e \<Rightarrow> Some e | None \<Rightarrow> updateStatusErr);
       (truncateErr, s) \<leftarrow>
         truncateHistory env app pods revisions (Some currentRevision) (Some updateRevision) s;
       Some (case err of Some e \<Rightarrow> Some e | None \<Rightarrow> truncateErr, s)
     }"

definition UpdateApp ::
  "env \<Rightarrow> pod_ops \<Rightarrow> app option \<Rightarrow> pod list \<Rightarrow> sys \<Rightarrow> (go_error option \<times> sys) option" where
  "UpdateApp env pc appo pods s =
     (case appo of
        None \<Rightarrow> Some (Some (ErrFmt ''app is nil'' []), s)
      | Some app \<Rightarrow>
          (case e_selector env (sp_selector (a_spec app)) of
             Inl err \<Rightarrow> Some (Some err, s)
           | Inr selector \<Rightarrow>
               (case e_rev_list env (trace s) app selector of
                  Inl err \<Rightarrow> Some (Some err, s)
                | Inr listed \<Rightarrow>
                    let revisions = e_rev_sort env listed in do {
                      ((chosen, collisionCount), s) \<leftarrow> choose_revision env app revisions s;
                      case chosen of
                        Inl err \<Rightarrow> Some (Some err, s)
                      | Inr updateRevision \<Rightarrow>
                          sync_revisions env pc app pods revisions updateRevision collisionCount s
                    })))"

section \<open>Lemmas\<close>

fun is_status_call :: "app_status \<Rightarrow> api_call \<Rightarrow> bool" where
  "is_status_call st (CallAppUpdateStatus a) = (a_status a = st)"
| "is_status_call st _ = False"

lemma put_status_calls:
  assumes "retry_on_conflict env (put_status env st) (app, s) = Some (err, app', s')"
  shows "only (is_status_call st) s s' \<and> requeue_store s' = requeue_store s"
proof -
  have "(\<lambda>(_, u). only (is_status_call st) s u \<and> requeue_store u = requeue_store s) (app', s')"
    by (rule retry_loop_invariant [OF assms [unfolded retry_on_conflict_def]])
      (auto simp: put_status_def app_UpdateStatus_def Let_def split: sum.splits intro!: only_log)
  then show ?thesis by simp
qed

lemma updateAppStatus_calls:
  assumes "updateAppStatus env app status s = Some (err, s')"
  shows "only (is_status_call (completeRollingUpdate app status)) s s' \<and> requeue_store s' = requeue_store s"
  using assms put_status_calls
  by (auto simp: updateAppStatus_def Let_def bind_eq_Some_conv split: if_splits)

lemma updateAppStatus_quiet:
  assumes "updateAppStatus env app status s = Some (err, s')"
  shows "quiet s s' \<and> requeue_store s' = requeue_store s"
proof -
  have "\<not> is_lifecycle c" if "is_status_call st c" for st c
    using that by (cases c) simp_all
  with updateAppStatus_calls [OF assms] show ?thesis by (auto elim: only_mono)
qed

text \<open>The states of the environment around the pass within a synchronisation.\<close>

lemma UpdateApp_cases:
  assumes "UpdateApp env pc (Some app) pods s = Some (err, s')"
  obtains (quiet) "quiet s s'"
  | (pass) cur upd n revs res t u where "quiet s t"
    "applyUpdate env pc app cur upd n pods revs t = Some (res, u)" "quiet u s'"
proof (cases "quiet s s'")
  case True
  then show ?thesis by (rule quiet)
next
  case False
  then obtain selector listed where sel: "e_selector env (sp_selector (a_spec app)) = Inr selector"
    and list: "e_rev_list env (trace s) app selector = Inr listed"
    using assms by (auto simp: UpdateApp_def split: sum.splits)
  let ?revs = "e_rev_sort env listed"
  from assms sel list obtain chosen n t
    where choose: "choose_revision env app ?revs s = Some ((chosen, n), t)"
    by (auto simp: UpdateApp_def Let_def bind_eq_Some_conv)
  have st: "quiet s t" using choose_revision_quiet [OF choose] by simp
  with False assms sel list choose obtain upd where "chosen = Inr upd"
    and sync: "sync_revisions env pc app pods ?revs upd n t = Some (err, s')"
    by (cases chosen) (auto simp: UpdateApp_def Let_def)
  let ?cur = "current_revision app ?revs upd"
  from sync obtain status e1 u e2 v e3 where
    "applyUpdate env pc app ?cur upd n pods ?revs t = Some ((status, e1), u)"
    "updateAppStatus env app status u = Some (e2, v)"
    "truncateHistory env app pods ?revs (Some ?cur) (Some upd) v = Some (e3, s')"
    by (auto simp: sync_revisions_def Let_def bind_eq_Some_conv)
  with st updateAppStatus_quiet truncateHistory_quiet show ?thesis
    by (intro pass [of t ?cur upd n ?revs "(status, e1)" u]) (blast intro: quiet_trans)+
qed

text \<open>In order, a whole synchronisation performs at most one action.\<close>

lemma UpdateApp_one:
  assumes "UpdateApp env (PodController env) (Some app) pods s = Some (err, s')"
    and "sp_management_policy (a_spec app) \<noteq> Parallel"
  shows "one_action (\<lambda>_. True) s s'"
  using assms(1)
proof (cases rule: UpdateApp_cases)
  case quiet
  then show ?thesis by (simp add: one_action_def)
next
  case (pass cur upd n revs res t u)
  have "one_action (\<lambda>_. True) t u"
    using pass(2)
  proof (cases rule: applyUpdate_cases)
    case quiet
    then show ?thesis by (simp add: one_action_def)
  next
    case (manage ca ua replicas bad status)
    from pod_controller.manage_pods_ordered [OF manage(4)] assms(2) show ?thesis
      by (auto simp: burstable_def elim: one_action_mono)
  qed
  with pass(1,3) show ?thesis
    by (blast intro: quiet_then_one_action one_action_then_quiet)
qed

lemma one_action_length: "one_action A s s' \<Longrightarrow> length (lifecycle (calls_between s s')) \<le> 1"
  by (auto simp: one_action_def quiet_calls_between dest: adds_calls_between)

text \<open>Nothing but the patch, the pass and a negative history limit can panic.\<close>

lemma updateAppStatus_total: "updateAppStatus env app status s \<noteq> None"
proof -
  have total: "retry_on_conflict env (put_status env st) (app, s) \<noteq> None" for st
    unfolding retry_on_conflict_def
    by (rule retry_loop_no_panic [where P = "\<lambda>_. True"])
      (auto simp: put_status_def app_UpdateStatus_def Let_def split: sum.splits)
  obtain e a t where "retry_on_conflict env (put_status env (completeRollingUpdate app status)) (app, s) = Some (e, a, t)"
    using total by fastforce
  then show ?thesis by (simp add: updateAppStatus_def Let_def)
qed

lemma truncateHistory_total:
  "0 \<le> history_limit app \<Longrightarrow> truncateHistory env app pods revs cur upd s \<noteq> None"
  using delete_revisions_total by (simp add: truncateHistory_def Let_def surplus_nonneg)

lemma sync_revisions_total:
  assumes "0 \<le> history_limit app"
    and "applyUpdate env pc app (current_revision app revs upd) upd n pods revs s \<noteq> None"
  shows "sync_revisions env pc app pods revs upd n s \<noteq> None"
proof -
  let ?cur = "current_revision app revs upd"
  from assms(2) obtain status e1 t where "applyUpdate env pc app ?cur upd n pods revs s = Some ((status, e1), t)"
    by fastforce
  moreover obtain e2 u where "updateAppStatus env app status t = Some (e2, u)"
    using updateAppStatus_total by fastforce
  moreover obtain e3 v where "truncateHistory env app pods revs (Some ?cur) (Some upd) u = Some (e3, v)"
    using truncateHistory_total [OF assms(1)] by fastforce
  ultimately show ?thesis by (simp add: sync_revisions_def Let_def)
qed

section \<open>Properties\<close>

text \<open>
  The status that is written is the status that was computed: every call of
  \<open>updateAppStatus\<close> sends an App whose status is the computed one with the rolling update
  completed, whatever the refreshed App held, and no call is made when that status agrees with
  the App's.
\<close>

theorem updateAppStatus_sends_computed:
  assumes "updateAppStatus env app status s = Some (err, s')" and "c \<in> set (calls_between s s')"
  shows "\<not> statusConsistent app (completeRollingUpdate app status) \<and>
    (\<exists>a. c = CallAppUpdateStatus a \<and> a_status a = completeRollingUpdate app status)"
proof
  show "\<not> statusConsistent app (completeRollingUpdate app status)"
    using assms by (auto simp: updateAppStatus_def Let_def calls_between_def)
  from updateAppStatus_calls [OF assms(1)] assms(2)
  have "is_status_call (completeRollingUpdate app status) c" by (blast dest: only_calls_between)
  then show "\<exists>a. c = CallAppUpdateStatus a \<and> a_status a = completeRollingUpdate app status"
    by (cases c) simp_all
qed

text \<open>
  A whole synchronisation of an App whose pods are managed in order creates or deletes at
  most one pod, retries, status writes, revision handling and truncation included.
\<close>

theorem UpdateApp_one_action:
  assumes "UpdateApp env (PodController env) (Some app) pods s = Some (err, s')"
    and "sp_management_policy (a_spec app) \<noteq> Parallel"
  shows "length (lifecycle (calls_between s s')) \<le> 1"
  by (rule one_action_length, rule UpdateApp_one, rule assms, rule assms)

text \<open>
  The error of a synchronisation: once the revisions are settled, the error of the pass is
  returned if there is one, else that of the status, else that of the truncation, and the
  status is written and the history truncated in every case.
\<close>

theorem sync_revisions_error:
  assumes "applyUpdate env pc app (current_revision app revs upd) upd n pods revs s = Some ((status, e1), t)"
    and "updateAppStatus env app status t = Some (e2, u)"
    and "truncateHistory env app pods revs (Some (current_revision app revs upd)) (Some upd) u = Some (e3, s')"
  shows "sync_revisions env pc app pods revs upd n s =
    Some (if e1 \<noteq> None then e1 else if e2 \<noteq> None then e2 else e3, s')"
  using assms by (auto simp: sync_revisions_def Let_def split: option.splits)

section \<open>Concrete runs\<close>

definition three_replicas :: app_status where
  "three_replicas = zero_status\<lparr>st_replicas := 3\<rparr>"

theorem updateAppStatus_sends_computed_witness:
  "\<not> statusConsistent sample_app (completeRollingUpdate sample_app three_replicas) \<and>
   (\<exists>a :: app. a_status a = completeRollingUpdate sample_app three_replicas)"
proof -
  let ?st = "completeRollingUpdate sample_app three_replicas"
  have "\<not> statusConsistent sample_app ?st"
    by (simp add: statusConsistent_def completeRollingUpdate_def three_replicas_def zero_status_def)
  then have run: "updateAppStatus sample_env sample_app three_replicas sample_sys =
      Some (None, log_call (CallAppUpdateStatus (sample_app\<lparr>a_status := ?st\<rparr>)) sample_sys)"
    by (simp add: updateAppStatus_def retry_on_conflict_def put_status_def app_UpdateStatus_def Let_def
        sample_env_def eval_nat_numeral)
  let ?c = "CallAppUpdateStatus (sample_app\<lparr>a_status := ?st\<rparr>)"
  have "?c \<in> set (calls_between sample_sys (log_call ?c sample_sys))" by (simp add: calls_between_def)
  from updateAppStatus_sends_computed [OF run this] show ?thesis by blast
qed

lemma failed_pod_sync:
  "\<exists>err s'. UpdateApp sample_env (PodController sample_env) (Some single_app) [failed_pod] sample_sys = Some (err, s')"
proof -
  have rev: "choose_revision sample_env single_app [] sample_sys =
      Some ((Inr (sample_revision ''patch'' 1\<lparr>rev_annotations := annotate None None\<rparr>), 0),
        log_call (CallRevCreate (sample_revision ''patch'' 1\<lparr>rev_annotations := annotate None None\<rparr>)) sample_sys)"
    by (simp add: choose_revision_def new_candidate_def getAppPatch_def settle_revision_def Let_def
        next_revision_id_def sample_env_def single_app_def zero_status_def json_field_def sample_revision_def)
  have limit: "0 \<le> history_limit single_app" by (simp add: history_limit_def single_app_def)
  have "sync_revisions sample_env (PodController sample_env) single_app [failed_pod] [] upd n s \<noteq> None" for upd n s
    by (rule sync_revisions_total [OF limit])
      (use failed_pod_run [of "current_revision single_app [] upd" upd n "[]" s] in auto)
  then obtain err s' where "sync_revisions sample_env (PodController sample_env) single_app [failed_pod] []
      (sample_revision ''patch'' 1\<lparr>rev_annotations := annotate None None\<rparr>) 0
      (log_call (CallRevCreate (sample_revision ''patch'' 1\<lparr>rev_annotations := annotate None None\<rparr>)) sample_sys) =
      Some (err, s')" by fastforce
  then show ?thesis
    by (simp add: UpdateApp_def Let_def rev) (simp add: sample_env_def rev [unfolded sample_env_def])
qed

theorem UpdateApp_one_action_witness:
  "\<exists>err s'. UpdateApp sample_env (PodController sample_env) (Some single_app) [failed_pod] sample_sys = Some (err, s') \<and>
     length (lifecycle (calls_between sample_sys s')) \<le> 1"
proof -
  obtain err s' where run: "UpdateApp sample_env (PodController sample_env) (Some single_app) [failed_pod]
      sample_sys = Some (err, s')" using failed_pod_sync by blast
  have "sp_management_policy (a_spec single_app) \<noteq> Parallel" by (simp add: single_app_def)
  with run UpdateApp_one_action [OF run] show ?thesis by blast
qed

theorem sync_revisions_error_witness:
  "\<exists>e1 e2 e3 s'. sync_revisions sample_env (PodController sample_env) single_app [failed_pod] [] (sample_revision ''r1'' 1) 0
      sample_sys = Some (if e1 \<noteq> None then e1 else if e2 \<noteq> None then e2 else e3, s')"
proof -
  let ?upd = "sample_revision ''r1'' 1"
  let ?cur = "current_revision single_app [] ?upd"
  obtain status e1 t where "applyUpdate sample_env (PodController sample_env) single_app ?cur ?upd 0 [failed_pod] []
      sample_sys = Some ((status, e1), t)"
    using failed_pod_run [of ?cur ?upd 0 "[]" sample_sys] by auto
  moreover obtain e2 u where "updateAppStatus sample_env single_app status t = Some (e2, u)"
    using updateAppStatus_total by fastforce
  moreover obtain e3 s' where "truncateHistory sample_env single_app [failed_pod] [] (Some ?cur) (Some ?upd) u = Some (e3, s')"
    using truncateHistory_total [of single_app] by (fastforce simp: history_limit_def single_app_def)
  ultimately show ?thesis using sync_revisions_error by metis
qed

end
