(* ===== verification/Update_Progress.thy ===== *)
theory Update_Progress
  imports State_Controller
begin

text \<open>
  When a pass cannot panic.  The contract of the pod controller is extended by totality for
  the Apps it is fit for (\<open>live\_pod\_control\<close>); the program's controller is fit for Apps
  whose claims have a selector.  Then a pass over pods with ordinals panics in two cases
  only: the App cannot be encoded, or its replicas, which the API calls optional, are not given.
\<close>

section \<open>A controller that returns\<close>

locale live_pod_control = pod_control +
  fixes fit :: "app \<Rightarrow> bool"
  assumes create_total: "fit app \<Longrightarrow> po_create pc app pod s \<noteq> None"
    and update_total: "fit app \<Longrightarrow> po_update pc app pod s \<noteq> None"
    and create_pvc_total: "fit app \<Longrightarrow> po_create_pvc pc app pod s \<noteq> None"

definition claims_ready :: "app \<Rightarrow> bool" where
  "claims_ready app \<longleftrightarrow> sp_claim_templates (a_spec app) = [] \<or> sp_selector (a_spec app) \<noteq> None"

lemma claims_ready_total: "claims_ready app \<Longrightarrow> \<exists>cs. getPVCFromApp app pod = Some cs"
  using getPVCFromApp_total [of app pod] by (auto simp: claims_ready_def)

lemma createPVC_total: "claims_ready app \<Longrightarrow> createPVC env app pod s \<noteq> None"
  using claims_ready_total [of app pod] by (auto simp: createPVC_def)

lemma updatePodVolume_total: "claims_ready app \<Longrightarrow> updatePodVolume ord app pod \<noteq> None"
  using claims_ready_total [of app pod] by (auto simp: updatePodVolume_def)

lemma update_pod_attempt_total:
  assumes "claims_ready app"
  shows "update_pod_attempt env app st \<noteq> None"
proof -
  obtain pod tried s where st: "st = (pod, tried, s)" by (cases st)
  let ?send = "\<lambda>q. do {
       p \<leftarrow> updatePodVolume (e_range env (trace s)) app q;
       (err, s) \<leftarrow> createPVC env app p s;
       case err of
         Some e \<Rightarrow> Some (Some e, p, tried, recordPodEvent ''update'' app p (Some e) s)
       | None \<Rightarrow> Some (update_pod_send env p s)
     }"
  have send: "?send q \<noteq> None" for q
  proof -
    obtain p where p: "updatePodVolume (e_range env (trace s)) app q = Some p"
      using updatePodVolume_total [OF assms] by fastforce
    obtain e u where "createPVC env app p s = Some (e, u)"
      using createPVC_total [OF assms] by fastforce
    with p show ?thesis by (cases e) (simp_all del: not_None_eq)
  qed
  have "update_pod_attempt env app (pod, tried, s) =
      (let q = (if \<not> matchAppAndPod app pod then updatePodIdentity app pod else pod)
       in if matchAppPVC app q then ?send q
          else if \<not> matchAppAndPod app pod then Some (update_pod_send env q s) else Some (None, q, tried, s))"
    by (simp only: update_pod_attempt_def Let_def prod.case)
  then show ?thesis unfolding st Let_def using send by (simp only: split: if_split) blast
qed

lemma UpdateStatefulPod_total:
  assumes "claims_ready app"
  shows "UpdateStatefulPod env app pod s \<noteq> None"
proof -
  have "retry_on_conflict env (update_pod_attempt env app) (pod, False, s) \<noteq> None"
    unfolding retry_on_conflict_def
    by (rule retry_loop_no_panic [where P = "\<lambda>_. True"]) (simp_all add: update_pod_attempt_total [OF assms])
  then show ?thesis by (auto simp: UpdateStatefulPod_def)
qed

lemma CreateStatefulPod_total:
  assumes "claims_ready app"
  shows "CreateStatefulPod env app pod s \<noteq> None"
proof -
  obtain e u where "createPVC env app pod s = Some (e, u)"
    using createPVC_total [OF assms] by fastforce
  then show ?thesis by (cases e) (simp_all add: CreateStatefulPod_def Let_def)
qed

interpretation live_controller: live_pod_control "PodController env" claims_ready for env
  by unfold_locales
    (simp_all add: PodController_def CreateStatefulPod_total UpdateStatefulPod_total createPVC_total)

section \<open>In-place updates return\<close>

text \<open>
  What an in-place update relies on and does not check: the data of a revision are not the text
  \<open>null\<close>, an image in a patch between revisions is a string, and a pod in the cache has a status
  for each of its containers.
\<close>

definition in_place_safe :: "env \<Rightarrow> controller_revision \<Rightarrow> controller_revision list \<Rightarrow> bool" where
  "in_place_safe env upd revs \<longleftrightarrow>
     (\<forall>r \<in> set revs. e_unmarshal_template env (rev_data r) \<noteq> Inr None \<and>
        (\<forall>ops. e_json_patch env (rev_data r) (rev_data upd) = Inr ops \<longrightarrow>
           (\<forall>op \<in> set ops. container_image_index (cut_first ''/spec/template'' (jo_path op)) \<noteq> None \<and>
              jo_operation op = ''replace'' \<longrightarrow> jo_value op \<noteq> None))) \<and>
     (\<forall>cs ns name p. e_pod_lister env cs ns name = Inr p \<longrightarrow>
        (\<forall>c \<in> set (p_containers p). \<exists>v \<in> set (p_container_statuses p). cs_name v = ctr_name c))"

lemma in_place_images_total:
  "(\<And>op. op \<in> set ops \<Longrightarrow> container_image_index (cut_first ''/spec/template'' (jo_path op)) \<noteq> None \<Longrightarrow>
      jo_operation op = ''replace'' \<Longrightarrow> jo_value op \<noteq> None) \<Longrightarrow> in_place_images tm ops m \<noteq> None"
proof (induction ops arbitrary: m)
  case (Cons op ops)
  have "in_place_images tm ops m' \<noteq> None" for m' by (rule Cons.IH) (use Cons.prems in auto)
  with Cons.prems [of op] show ?case by (auto simp: Let_def split: option.splits)
qed simp

lemma in_place_plan_total:
  assumes "in_place_safe env upd revs"
  shows "in_place_plan env pod upd revs \<noteq> None"
proof -
  have template: "GetTemplateFromRevision env r \<noteq> None" if "r \<in> set revs" for r
    using assms that by (auto simp: in_place_safe_def GetTemplateFromRevision_def split: sum.splits option.splits)
  have images: "in_place_images tm ops m \<noteq> None"
    if "r \<in> set revs" "e_json_patch env (rev_data r) (rev_data upd) = Inr ops" for r tm ops m
    using assms that unfolding in_place_safe_def by (intro in_place_images_total) blast
  show ?thesis
  proof (cases "first_match (\<lambda>r. rev_name r = getPodRevision pod) revs")
    case (Some old)
    then have old: "old \<in> set revs" using first_match_Some by fastforce
    show ?thesis
    proof (cases "e_json_patch env (rev_data old) (rev_data upd)")
      case (Inr ops)
      obtain t where "GetTemplateFromRevision env old = Some t" using template [OF old] by blast
      with Some Inr images [OF old Inr] show ?thesis
        by (cases t) (simp_all add: in_place_plan_def del: not_None_eq)
    qed (use Some in \<open>simp add: in_place_plan_def\<close>)
  qed (simp add: in_place_plan_def)
qed

lemma first_match_total: "x \<in> set xs \<Longrightarrow> P x \<Longrightarrow> first_match P xs \<noteq> None"
  by (induction xs) auto

lemma change_images_total:
  "(\<And>c. c \<in> set cs \<Longrightarrow> \<exists>v \<in> set statuses. cs_name v = ctr_name c) \<Longrightarrow> change_images newImage statuses cs \<noteq> None"
proof (induction cs)
  case (Cons c cs)
  have "change_images newImage statuses cs \<noteq> None" by (rule Cons.IH) (use Cons.prems in auto)
  moreover have "first_match (\<lambda>v. cs_name v = ctr_name c) (rev statuses) \<noteq> None"
    using Cons.prems [of c] first_match_total [of _ "rev statuses" "\<lambda>v. cs_name v = ctr_name c"] by auto
  ultimately show ?case by (auto split: option.splits)
qed simp

lemma in_place_step_total:
  assumes "in_place_safe env upd revs"
  shows "in_place_step env app pod upd newImage s \<noteq> None"
proof -
  have loop: "retry_on_conflict env f s \<noteq> None" if "\<And>s. f s \<noteq> None" for f and s :: sys
    unfolding retry_on_conflict_def by (rule retry_loop_no_panic [where P = "\<lambda>_. True"]) (use that in simp_all)
  have "mark_not_ready env pod c s \<noteq> None" "start_grace env pod upd s \<noteq> None" for c s
    by (auto simp: mark_not_ready_def start_grace_def Let_def split: sum.splits)
  moreover have "send_images env app pod upd newImage s \<noteq> None" for s
  proof (cases "e_pod_lister env (trace s) (p_namespace pod) (p_name pod)")
    case (Inr origin)
    with assms have "change_images newImage (p_container_statuses origin) (p_containers origin) \<noteq> None"
      unfolding in_place_safe_def by (intro change_images_total) blast
    with Inr show ?thesis by (auto simp: send_images_def Let_def)
  qed (simp add: send_images_def)
  ultimately have "retry_on_conflict env (mark_not_ready env pod c) s \<noteq> None" "retry_on_conflict env (start_grace env pod upd) s \<noteq> None"
    "retry_on_conflict env (send_images env app pod upd newImage) s \<noteq> None" for c
    using loop by blast+
  moreover have returned: "retry_and_return env f s \<noteq> None" if "retry_on_conflict env f s \<noteq> None" for f
    using that by (auto simp: retry_and_return_def)
  ultimately have marks: "retry_and_return env (mark_not_ready env pod c) s \<noteq> None"
    and sends: "retry_and_return env (send_images env app pod upd newImage) s \<noteq> None"
    and grace: "(do {
       (err, s) \<leftarrow> retry_on_conflict env (start_grace env pod upd) s;
       case err of
         Some e \<Rightarrow> Some ((Some e, 0), s)
       | None \<Rightarrow> Some ((None, w), s)
     }) \<noteq> None" for c and w :: int
    using returned by (blast, blast, auto split: option.splits)
  show ?thesis
    unfolding in_place_step_def Let_def by (simp only: marks sends grace option.distinct simp_thms split: if_split)
qed

lemma InPlaceUpdatePod_total:
  assumes "in_place_safe env upd revs"
  shows "InPlaceUpdatePod env app pod upd revs s \<noteq> None"
  using in_place_plan_total [OF assms, of pod] in_place_step_total [OF assms, of app pod]
  by (auto simp: InPlaceUpdatePod_def bind_eq_None_conv split: sum.splits)

lemma update_target_total:
  assumes "in_place_allowed app \<longrightarrow> in_place_safe env upd revs"
  shows "update_target env pc app upd revs p status s \<noteq> None"
proof (cases "in_place_allowed app")
  case True
  with assms InPlaceUpdatePod_total obtain e w u where "InPlaceUpdatePod env app p upd revs s = Some ((e, w), u)"
    by fastforce
  with True show ?thesis by (cases e) (simp_all add: update_target_def)
qed (simp add: update_target_def)

section \<open>The loops return\<close>

context live_pod_control
begin

lemma sync_existing_total:
  assumes "fit app"
  shows "sync_existing env pc app b mrs p y \<noteq> None"
proof -
  obtain e u where "po_update pc app p (sy_sys y) = Some (e, u)"
    using update_total [OF assms] by fastforce
  then have "sync_identity pc app p y \<noteq> None"
    by (cases e) (simp_all add: sync_identity_def Let_def)
  then show ?thesis by (auto simp: sync_existing_def split: prod.splits)
qed

lemma sync_pod_total:
  assumes "fit app"
  shows "sync_pod env pc app b mrs p y \<noteq> None"
proof -
  obtain e q u where "po_create pc app p (sy_sys y) = Some (e, q, u)"
    using create_total [OF assms] by fastforce
  then have "sync_missing pc app b p y \<noteq> None" by (simp add: sync_missing_def Let_def)
  moreover obtain e' v where "po_create_pvc pc app p (sy_sys y) = Some (e', v)"
    using create_pvc_total [OF assms] by fastforce
  ultimately show ?thesis
    using sync_existing_total [OF assms] by (cases e') (simp_all add: sync_pod_def Let_def del: not_None_eq)
qed

lemma sync_loop_total: "fit app \<Longrightarrow> sync_loop env pc app b mrs ps y \<noteq> None"
proof (induction ps arbitrary: y)
  case (Cons po ps)
  show ?case
  proof (cases po)
    case None
    with Cons.IH [OF Cons.prems, of y] show ?thesis by auto
  next
    case (Some p)
    obtain fl q z where step: "sync_pod env pc app b mrs p y = Some (fl, q, z)"
      using sync_pod_total [OF Cons.prems] by fastforce
    with Cons.IH [OF Cons.prems, of z] Some show ?thesis by (cases fl) auto
  qed
qed simp

lemma roll_loop_total:
  assumes "in_place_allowed app \<longrightarrow> in_place_safe env upd revs" and "0 \<le> umin"
  shows "n \<le> length replicas \<Longrightarrow> None \<notin> set replicas \<Longrightarrow>
    roll_loop env pc app upd revs umin replicas n status s \<noteq> None"
proof (induction n arbitrary: s)
  case 0
  with assms show ?case by simp
next
  case (Suc t)
  then have "replicas ! t \<in> set replicas" by simp
  with Suc.prems(2) obtain p where p: "replicas ! t = Some p" by (metis option.exhaust)
  obtain e u where clean: "CleanUpInPlaceUpdate env p s = Some (e, u)"
  proof -
    have "CleanUpInPlaceUpdate env p s \<noteq> None"
      unfolding CleanUpInPlaceUpdate_def Let_def retry_on_conflict_def
      by (rule retry_loop_no_panic [where P = "\<lambda>_. True"]) (auto simp: mark_done_def Let_def split: sum.splits)
    then show ?thesis using that by fastforce
  qed
  have "roll_loop env pc app upd revs umin replicas t status u \<noteq> None" for u
    by (rule Suc.IH) (use Suc.prems in simp_all)
  with clean show ?case
    using update_target_total [OF assms(1)] p
    by (cases e) (simp_all del: not_None_eq split: prod.splits option.splits bool.splits)
qed

lemma manage_pods_total:
  assumes "fit app" and "None \<notin> set replicas" and "in_place_allowed app \<longrightarrow> in_place_safe env upd revs"
    and "strategy app = OnDeleteType \<or> (\<exists>ru p. rolling app = Some ru \<and> ru_partition ru = Some p \<and> 0 \<le> sint p)"
  shows "manage_pods env pc app cur upd revs replicas bad status s \<noteq> None"
proof -
  let ?y = "\<lparr>sy_sys = s, sy_status = status, sy_available = True, sy_err = None\<rparr>"
  obtain reps y where loop: "sync_loop env pc app (burstable app) (getMinReadySeconds app) replicas ?y = Some (reps, y)"
    using sync_loop_total [OF assms(1)] by fastforce
  have same: "sy_available y \<Longrightarrow> reps = replicas" using sync_loop_actions [OF loop] by simp
  have roll: "strategy app \<noteq> OnDeleteType \<Longrightarrow> roll_update env pc app upd revs replicas st u \<noteq> None" for st u
    using assms roll_loop_total [of app env upd revs] by (auto simp: roll_update_def)
  obtain exit e u where "scale_down pc app (burstable app) (sc_first (first_unhealthy replicas bad)) 0 bad (sy_sys y) = (exit, e, u)"
    by (cases "scale_down pc app (burstable app) (sc_first (first_unhealthy replicas bad)) 0 bad (sy_sys y)") auto
  with loop same roll show ?thesis by (auto simp: manage_pods_def Let_def)
qed

end

section \<open>The arrangement returns\<close>

lemma place_pods_total:
  "(\<And>p. p \<in> set ps \<Longrightarrow> 0 \<le> ordinal p) \<Longrightarrow> place_pods n ps reps bad \<noteq> None"
proof (induction ps arbitrary: reps bad)
  case (Cons p ps)
  have "0 \<le> ordinal p" using Cons.prems [of p] by simp
  moreover have "place_pods n ps r b \<noteq> None" for r b by (rule Cons.IH) (use Cons.prems in simp)
  ultimately show ?case by (simp add: Let_def del: not_None_eq)
qed simp

definition revision_ready :: "app \<Rightarrow> bool" where
  "revision_ready app \<longleftrightarrow>
     strategy app \<noteq> RollingUpdateType \<or> (\<forall>ru. rolling app = Some ru \<longrightarrow> ru_partition ru \<noteq> None)"

lemma newVersionedPod_total:
  assumes "claims_ready ca" and "claims_ready ua" and "revision_ready ca"
  shows "newVersionedPodForApp ft ord ca ua cur upd n reps \<noteq> None"
proof -
  have vol: "updateVolume ord app q \<noteq> None" if "claims_ready app" for app q
    using claims_ready_total [OF that, of q] by (auto simp: updateVolume_def)
  have new: "newAppPod ft ord app n \<noteq> None" if "claims_ready app" for app
    unfolding newAppPod_def Let_def by (rule vol [OF that])
  have "isCurrentRevisionExpected ca upd n reps \<noteq> None"
    using assms(3) by (cases "rolling ca") (auto simp: revision_ready_def isCurrentRevisionExpected_def)
  then obtain b where "isCurrentRevisionExpected ca upd n reps = Some b" by blast
  moreover obtain p q where "newAppPod ft ord ca n = Some p" "newAppPod ft ord ua n = Some q"
    using new assms(1,2) by blast
  ultimately show ?thesis by (cases b) (simp_all add: newVersionedPodForApp_def)
qed

lemma fill_slots_total:
  assumes "claims_ready ca" and "claims_ready ua" and "revision_ready ca"
  shows "fill_slots ft ord ca ua cur upd is reps \<noteq> None"
proof (induction "is" arbitrary: reps)
  case (Cons i "is")
  obtain q where "newVersionedPodForApp ft ord ca ua cur upd (int i) reps = Some q"
    using newVersionedPod_total [OF assms] by fastforce
  with Cons.IH show ?case by (cases "reps ! i") auto
qed simp

lemma arrange_pods_total:
  assumes "sp_replicas (a_spec app) = Some n" and "0 \<le> sint n" and "\<And>p. p \<in> set pods \<Longrightarrow> 0 \<le> ordinal p"
    and "claims_ready ca" and "claims_ready ua" and "revision_ready ca"
  shows "\<exists>replicas bad. arrange_pods env app ca ua cur upd pods s = Some (replicas, bad) \<and> None \<notin> set replicas"
proof -
  obtain reps bad where "place_pods (sint n) pods (replicate (nat (sint n)) None) [] = Some (reps, bad)"
    using place_pods_total [of pods] assms(3) by fastforce
  moreover obtain replicas where "fill_slots (e_from_template env) (e_range env (trace s)) ca ua
      (rev_name cur) (rev_name upd) [0..<nat (sint n)] reps = Some replicas"
    using fill_slots_total [OF assms(4-6)] by fastforce
  ultimately have arr: "arrange_pods env app ca ua cur upd pods s = Some (replicas, sort_descending bad)"
    using assms(1,2) by (simp add: arrange_pods_def)
  have "None \<notin> set replicas"
    using arrange_pods_lemma [OF arr] by (fastforce simp: in_set_conv_nth)
  with arr show ?thesis by blast
qed

section \<open>Properties\<close>

text \<open>
  An update strategy with what the code relies on: deletion, a rolling update whose partition, when
  it is given, is not negative, or any other strategy with such a partition.  Restoring an App
  from a revision keeps what is not the template (revisions are patches of the template).
\<close>

definition handled_strategy :: "app \<Rightarrow> bool" where
  "handled_strategy app \<longleftrightarrow>
     strategy app = OnDeleteType \<or>
     strategy app = RollingUpdateType \<and> (\<forall>ru p. rolling app = Some ru \<and> ru_partition ru = Some p \<longrightarrow> 0 \<le> sint p) \<or>
     (\<exists>ru p. rolling app = Some ru \<and> ru_partition ru = Some p \<and> 0 \<le> sint p)"

definition restores_template_only :: "env \<Rightarrow> app \<Rightarrow> bool" where
  "restores_template_only env app \<longleftrightarrow>
     (\<forall>r a. ApplyRevision env app r = Some (Inr a) \<longrightarrow>
        sp_claim_templates (a_spec a) = sp_claim_templates (a_spec app) \<and>
        sp_selector (a_spec a) = sp_selector (a_spec app) \<and>
        sp_update_strategy (a_spec a) = sp_update_strategy (a_spec app))"

lemma no_defaults_needed:
  assumes "\<not> fst (setDefaultRollingUpdateStrategy app)"
  shows "\<exists>ru p. rolling app = Some ru \<and> ru_partition ru = Some p"
  using assms
  by (auto simp: setDefaultRollingUpdateStrategy_def Let_def split: option.splits if_splits)

text \<open>The pass up to the arrangement: an error, the write of defaults, or the arrangement and the management.\<close>

lemma applyUpdate_unfold:
  assumes "e_selector env (sp_selector (a_spec app)) = Inr sel"
    and "ApplyRevision env app cur = Some (Inr ca)" and "ApplyRevision env app upd = Some (Inr ua)"
    and "\<not> (strategy app = RollingUpdateType \<and> fst (setDefaultRollingUpdateStrategy app))"
  shows "\<exists>st. applyUpdate env pc app cur upd n pods revs s =
      do {
        (replicas, bad) \<leftarrow> arrange_pods env app ca ua cur upd pods s;
        manage_pods env pc app cur upd revs replicas bad st s
      }"
  using assms by (auto simp: applyUpdate_def Let_def split: prod.splits)

lemma defaults_written:
  assumes "e_selector env (sp_selector (a_spec app)) = Inr sel"
    and "ApplyRevision env app cur = Some (Inr ca)" and "ApplyRevision env app upd = Some (Inr ua)"
    and "strategy app = RollingUpdateType" and "fst (setDefaultRollingUpdateStrategy app)"
  shows "applyUpdate env pc app cur upd n pods revs s \<noteq> None"
proof -
  let ?ru = "snd (setDefaultRollingUpdateStrategy app)"
  have "retry_on_conflict env (write_rolling env ?ru) (app, s) \<noteq> None"
    unfolding retry_on_conflict_def
    by (rule retry_loop_no_panic [where P = "\<lambda>_. True"]) (auto simp: write_rolling_def split: prod.splits)
  then obtain e a u where "retry_on_conflict env (write_rolling env ?ru) (app, s) = Some (e, a, u)" by fastforce
  with assms show ?thesis by (auto simp: applyUpdate_def Let_def split: prod.splits)
qed

lemma arrange_pods_panics:
  assumes "case sp_replicas (a_spec app) of None \<Rightarrow> True | Some m \<Rightarrow> sint m < 0"
  shows "arrange_pods env app ca ua cur upd pods s = None"
  using assms by (auto simp: arrange_pods_def split: option.splits)

lemma managed_pass_returns:
  assumes "claims_ready app" and "handled_strategy app" and "in_place_allowed app \<longrightarrow> in_place_safe env upd revs"
    and "restores_template_only env app" and "\<forall>p \<in> set pods. 0 \<le> ordinal p"
    and "ApplyRevision env app cur = Some (Inr ca)" and "ApplyRevision env app upd = Some (Inr ua)"
    and "\<not> (strategy app = RollingUpdateType \<and> fst (setDefaultRollingUpdateStrategy app))"
    and "sp_replicas (a_spec app) = Some m" and "0 \<le> sint m"
  shows "\<exists>replicas bad. arrange_pods env app ca ua cur upd pods s = Some (replicas, bad) \<and>
      (\<forall>st. manage_pods env (PodController env) app cur upd revs replicas bad st s \<noteq> None)"
proof -
  have strat: "strategy app = OnDeleteType \<or> (\<exists>ru p. rolling app = Some ru \<and> ru_partition ru = Some p \<and> 0 \<le> sint p)"
    using assms(2,8) no_defaults_needed [of app] by (auto simp: handled_strategy_def)
  have restored: "claims_ready a \<and> revision_ready a" if "ApplyRevision env app r = Some (Inr a)" for a r
    using that assms(1,4) strat
    by (auto simp: restores_template_only_def claims_ready_def revision_ready_def)
  have "\<exists>reps bad. arrange_pods env app ca ua cur upd pods s = Some (reps, bad) \<and> None \<notin> set reps"
    by (rule arrange_pods_total [OF assms(9,10)]) (use assms(5-7) restored in simp_all)
  moreover have "manage_pods env (PodController env) app cur upd revs reps bad st s \<noteq> None"
    if "None \<notin> set reps" for reps bad st
    by (rule live_controller.manage_pods_total [OF assms(1) that assms(3) strat])
  ultimately show ?thesis by blast
qed

lemma applyUpdate_panics_iff:
  assumes "claims_ready app" and "handled_strategy app" and "in_place_allowed app \<longrightarrow> in_place_safe env upd revs"
    and "restores_template_only env app" and "\<forall>p \<in> set pods. 0 \<le> ordinal p"
  shows "applyUpdate env (PodController env) app cur upd n pods revs s = None \<longleftrightarrow>
    (\<exists>sel. e_selector env (sp_selector (a_spec app)) = Inr sel) \<and>
    (e_encode_app env app = None \<or>
     (\<exists>ca ua. ApplyRevision env app cur = Some (Inr ca) \<and> ApplyRevision env app upd = Some (Inr ua)) \<and>
     \<not> (strategy app = RollingUpdateType \<and> fst (setDefaultRollingUpdateStrategy app)) \<and>
     (case sp_replicas (a_spec app) of None \<Rightarrow> True | Some m \<Rightarrow> sint m < 0))"
    (is "?run = None \<longleftrightarrow> ?panics")
proof -
  consider (selector) e where "e_selector env (sp_selector (a_spec app)) = Inl e"
    | (encode) sel where "e_selector env (sp_selector (a_spec app)) = Inr sel" "e_encode_app env app = None"
    | (cur) sel e where "e_selector env (sp_selector (a_spec app)) = Inr sel" "ApplyRevision env app cur = Some (Inl e)"
    | (upd) sel ca e where "e_selector env (sp_selector (a_spec app)) = Inr sel" "ApplyRevision env app cur = Some (Inr ca)"
        "ApplyRevision env app upd = Some (Inl e)"
    | (both) sel ca ua where "e_selector env (sp_selector (a_spec app)) = Inr sel" "ApplyRevision env app cur = Some (Inr ca)"
        "ApplyRevision env app upd = Some (Inr ua)"
    using ApplyRevision_panics by (metis obj_sumE option.exhaust)
  then show ?thesis
  proof cases
    case both
    have encoded: "e_encode_app env app \<noteq> None" using both(2) ApplyRevision_panics [of env app cur] by auto
    show ?thesis
    proof (cases "strategy app = RollingUpdateType \<and> fst (setDefaultRollingUpdateStrategy app)")
      case True
      then have "?run \<noteq> None" using defaults_written [OF both] by blast
      with True encoded show ?thesis by blast
    next
      case False
      from applyUpdate_unfold [OF both False, of "PodController env" n pods revs s] obtain st where
        run: "?run = do {
            (replicas, bad) \<leftarrow> arrange_pods env app ca ua cur upd pods s;
            manage_pods env (PodController env) app cur upd revs replicas bad st s
          }" by blast
      show ?thesis
      proof (cases "case sp_replicas (a_spec app) of None \<Rightarrow> True | Some m \<Rightarrow> sint m < 0")
        case True
        with run arrange_pods_panics [OF this] both False show ?thesis by simp
      next
        case given: False
        then obtain m where "sp_replicas (a_spec app) = Some m" "0 \<le> sint m" by (auto split: option.splits)
        from managed_pass_returns [OF assms both(2,3) False this, of s] obtain replicas bad where
          "arrange_pods env app ca ua cur upd pods s = Some (replicas, bad)"
          "manage_pods env (PodController env) app cur upd revs replicas bad st s \<noteq> None" by blast
        with run have "?run \<noteq> None" by (simp del: not_None_eq)
        with given encoded show ?thesis by blast
      qed
    qed
  qed (use ApplyRevision_panics [of env app cur] ApplyRevision_panics [of env app upd] in \<open>auto simp: applyUpdate_def\<close>)
qed

text \<open>
  Specs for which passes return whatever the cluster answers, as long as the App can be encoded:
  replicas given and not negative, and pods that are updated by deletion.
\<close>

definition recreating_spec :: "app \<Rightarrow> bool" where
  "recreating_spec app \<longleftrightarrow>
     (\<exists>n. sp_replicas (a_spec app) = Some n \<and> 0 \<le> sint n) \<and> claims_ready app \<and>
     \<not> in_place_allowed app \<and>
     (strategy app = OnDeleteType \<or>
      strategy app = RollingUpdateType \<and>
        (\<forall>ru p. rolling app = Some ru \<and> ru_partition ru = Some p \<longrightarrow> 0 \<le> sint p))"

lemma applyUpdate_never_panics:
  assumes "recreating_spec app" and "restores_template_only env app" and "\<forall>p \<in> set pods. 0 \<le> ordinal p"
    and "e_encode_app env app \<noteq> None"
  shows "applyUpdate env (PodController env) app cur upd n pods revs s \<noteq> None"
proof -
  have "claims_ready app" "handled_strategy app" "in_place_allowed app \<longrightarrow> in_place_safe env upd revs"
    using assms(1) by (auto simp: recreating_spec_def handled_strategy_def)
  from applyUpdate_panics_iff [OF this assms(2,3)] assms(1,4) show ?thesis
    by (auto simp: recreating_spec_def split: option.splits)
qed

text \<open>
  C9.  When a pass panics, for Apps whose claims come with a selector, whose strategy is deletion or has no
  negative partition, whose revisions restore the template only, and pods that all have an
  ordinal, whatever the cluster answers.  It panics exactly when the selector is valid and
  either the App cannot be encoded, or both revisions are restored, no defaults of the rolling
  update are to be written, and the replicas are not given (although the API calls them
  optional with the default 1) or negative.  This holds for both policies of updating pods; for
  the update in place it is assumed that the data of revisions are not \<open>null\<close>, that images in patches
  between them are strings and that every pod in the cache has a status for each of its containers
  (\<open>in\_place\_safe\<close>): the code checks none of it.
\<close>

theorem applyUpdate_returns:
  assumes "claims_ready app" and "handled_strategy app" and "in_place_allowed app \<longrightarrow> in_place_safe env upd revs"
    and "restores_template_only env app" and "\<forall>p \<in> set pods. 0 \<le> ordinal p"
  shows "applyUpdate env (PodController env) app cur upd n pods revs s = None \<longleftrightarrow>
    (\<exists>sel. e_selector env (sp_selector (a_spec app)) = Inr sel) \<and>
    (e_encode_app env app = None \<or>
     (\<exists>ca ua. ApplyRevision env app cur = Some (Inr ca) \<and> ApplyRevision env app upd = Some (Inr ua)) \<and>
     \<not> (strategy app = RollingUpdateType \<and> fst (setDefaultRollingUpdateStrategy app)) \<and>
     (case sp_replicas (a_spec app) of None \<Rightarrow> True | Some m \<Rightarrow> sint m < 0))"
  by (rule applyUpdate_panics_iff [OF assms])

text \<open>An App with updates in place: its pass returns, and panics when the replicas are left out.\<close>

definition in_place_app :: app where
  "in_place_app = sample_app\<lparr>a_spec := (a_spec sample_app)
     \<lparr>sp_update_strategy := \<lparr>us_type = RollingUpdateType, us_rolling_update = Some (sample_rolling\<lparr>ru_pod_update_policy := InPlaceIfPossible\<rparr>)\<rparr>\<rparr>\<rparr>"

definition in_place_env :: env where
  "in_place_env = sample_env\<lparr>e_unmarshal_app := \<lambda>_. Inr in_place_app\<rparr>"

definition without_replicas :: "app \<Rightarrow> app" where
  "without_replicas app = app\<lparr>a_spec := (a_spec app)\<lparr>sp_replicas := None\<rparr>\<rparr>"

theorem applyUpdate_returns_witness:
  "in_place_allowed in_place_app \<and>
   applyUpdate in_place_env (PodController in_place_env) in_place_app (sample_revision ''r1'' 1)
     (sample_revision ''r2'' 2) 0 [running_pod ''web-site-1'' ''r1''] [sample_revision ''r1'' 1] sample_sys \<noteq> None \<and>
   applyUpdate in_place_env (PodController in_place_env) (without_replicas in_place_app) (sample_revision ''r1'' 1)
     (sample_revision ''r2'' 2) 0 [running_pod ''web-site-1'' ''r1''] [sample_revision ''r1'' 1] sample_sys = None"
proof -
  let ?cur = "sample_revision ''r1'' 1" and ?upd = "sample_revision ''r2'' 2"
  have applied: "ApplyRevision in_place_env a r = Some (Inr in_place_app)" for a r
    by (simp add: ApplyRevision_def in_place_env_def sample_env_def)
  have env: "e_selector in_place_env x = e_selector sample_env x" "e_encode_app in_place_env a = Some ''app''" for x a
    by (simp_all add: in_place_env_def sample_env_def)
  have selector: "\<exists>sel. e_selector sample_env x = Inr sel" for x by (simp add: sample_env_def)
  have same: "sp_claim_templates (a_spec (without_replicas in_place_app)) = sp_claim_templates (a_spec in_place_app)"
    "sp_selector (a_spec (without_replicas in_place_app)) = sp_selector (a_spec in_place_app)"
    "sp_update_strategy (a_spec (without_replicas in_place_app)) = sp_update_strategy (a_spec in_place_app)"
    by (simp_all add: without_replicas_def)
  have hyps: "claims_ready in_place_app" "handled_strategy in_place_app"
    by (simp_all add: claims_ready_def handled_strategy_def in_place_app_def sample_app_def sample_rolling_def)
  have safe: "in_place_safe in_place_env ?upd [?cur]" by (simp add: in_place_safe_def in_place_env_def sample_env_def)
  have restores: "restores_template_only in_place_env in_place_app"
    "restores_template_only in_place_env (without_replicas in_place_app)"
    by (simp_all add: restores_template_only_def applied same)
  have "claims_ready (without_replicas in_place_app)" "handled_strategy (without_replicas in_place_app)"
    using hyps(1,2) by (simp_all add: claims_ready_def handled_strategy_def same)
  note missing = applyUpdate_returns [OF this _ restores(2)]
  have rolled: "fst (setDefaultRollingUpdateStrategy in_place_app) = False" "fst (setDefaultRollingUpdateStrategy (without_replicas in_place_app)) = False"
    by (simp_all add: setDefaultRollingUpdateStrategy_def in_place_app_def without_replicas_def sample_app_def sample_rolling_def Let_def)
  have none: "sp_replicas (a_spec (without_replicas in_place_app)) = None" by (simp add: without_replicas_def)
  have ord: "\<forall>p \<in> set [running_pod ''web-site-1'' ''r1'']. 0 \<le> ordinal p" by (simp add: sample_ordinal)
  have "in_place_allowed in_place_app" by (simp add: in_place_allowed_def in_place_app_def)
  moreover have "applyUpdate in_place_env (PodController in_place_env) in_place_app ?cur ?upd 0 [running_pod ''web-site-1'' ''r1'']
      [?cur] sample_sys \<noteq> None"
    using applyUpdate_returns [OF hyps _ restores(1) ord, of ?upd "[?cur]" ?cur 0 sample_sys] safe
    by (simp add: env applied rolled selector in_place_app_def sample_app_def)
  moreover have "applyUpdate in_place_env (PodController in_place_env) (without_replicas in_place_app) ?cur ?upd 0
      [running_pod ''web-site-1'' ''r1''] [?cur] sample_sys = None"
    using missing [OF _ ord, of ?upd "[?cur]" ?cur 0 sample_sys] safe
    by (simp add: env applied rolled selector none)
  ultimately show ?thesis by blast
qed

section \<open>At which revision missing pods are created\<close>

definition old_pods :: "string \<Rightarrow> pod option list \<Rightarrow> nat" where
  "old_pods upd reps =
     length (filter (\<lambda>po. case po of None \<Rightarrow> False | Some p \<Rightarrow> getPodRevision p \<noteq> upd) reps)"

lemma not_updated_others_eq:
  assumes "reps ! i = None" and "i < length reps"
  shows "not_updated_others upd (int i) reps = old_pods upd reps"
proof -
  have "filter (\<lambda>(j, po). case po of None \<Rightarrow> False
        | Some p \<Rightarrow> int j \<noteq> int i \<and> map_get (p_labels p) revision_label \<noteq> upd) (enumerate 0 reps) =
      filter (\<lambda>(j, po). case po of None \<Rightarrow> False | Some p \<Rightarrow> getPodRevision p \<noteq> upd) (enumerate 0 reps)"
    using assms by (intro filter_cong) (auto simp: in_set_enumerate_eq getPodRevision_def split: option.splits)
  also have "map snd \<dots> = filter (\<lambda>po. case po of None \<Rightarrow> False | Some p \<Rightarrow> getPodRevision p \<noteq> upd)
      (map snd (enumerate 0 reps))"
    by (simp only: filter_map comp_def case_prod_unfold)
  finally show ?thesis
    unfolding not_updated_others_def old_pods_def by (metis length_map map_snd_enumerate)
qed

lemma old_pods_update:
  assumes "reps ! i = None" and "i < length reps"
  shows "old_pods upd (reps[i := Some q]) = old_pods upd reps + (if getPodRevision q \<noteq> upd then 1 else 0)"
proof -
  let ?P = "\<lambda>po. case po of None \<Rightarrow> False | Some p \<Rightarrow> getPodRevision p \<noteq> upd"
  have "reps = take i reps @ None # drop (Suc i) reps" using assms by (metis id_take_nth_drop)
  then have "length (filter ?P reps) = length (filter ?P (take i reps)) + length (filter ?P (drop (Suc i) reps))"
    by (metis (no_types, lifting) filter.simps(2) filter_append length_append option.simps(4))
  then show ?thesis
    using assms(2) by (simp add: old_pods_def upd_conv_take_nth_drop)
qed

lemma newVersionedPod_revision:
  assumes "newVersionedPodForApp ft ord ca ua cur upd n reps = Some q"
  obtains b where "isCurrentRevisionExpected ca upd n reps = Some b" "getPodRevision q = (if b then cur else upd)"
proof -
  from assms obtain b where b: "isCurrentRevisionExpected ca upd n reps = Some b"
    by (auto simp: newVersionedPodForApp_def bind_eq_Some_conv)
  with assms have "getPodRevision q = (if b then cur else upd)"
    by (cases b) (auto simp: newVersionedPodForApp_def bind_eq_Some_conv getPodRevision_def)
  with b show ?thesis by (rule that)
qed

text \<open>
  With an unordered update the partition bounds the replicas that are not at the update
  revision: filling the missing slots, whatever their order, leaves at most the larger of the
  partition and the number there was before.
\<close>

theorem fill_slots_unordered_bound:
  assumes "fill_slots ft ord ca ua cur upd is reps = Some reps'"
    and "\<forall>i \<in> set is. i < length reps"
    and "strategy ca = RollingUpdateType" and "rolling ca = Some ru" and "ru_unordered ru"
    and "ru_partition ru = Some p"
  shows "int (old_pods upd reps') \<le> max (int (old_pods upd reps)) (sint p)"
  using assms(1,2)
proof (induction "is" arbitrary: reps)
  case (Cons i "is")
  have i: "i < length reps" using Cons.prems(2) by simp
  show ?case
  proof (cases "reps ! i")
    case None
    with Cons.prems obtain q where q: "newVersionedPodForApp ft ord ca ua cur upd (int i) reps = Some q"
      and rest: "fill_slots ft ord ca ua cur upd is (reps[i := Some q]) = Some reps'"
      by (auto simp: bind_eq_Some_conv)
    from q obtain b where b: "isCurrentRevisionExpected ca upd (int i) reps = Some b"
      "getPodRevision q = (if b then cur else upd)" by (rule newVersionedPod_revision)
    have "b \<longleftrightarrow> int (old_pods upd reps) < sint p"
      using b(1) assms(3-6) not_updated_others_eq [OF None i] by (simp add: isCurrentRevisionExpected_def)
    with b(2) have "int (old_pods upd (reps[i := Some q])) \<le> max (int (old_pods upd reps)) (sint p)"
      by (auto simp: old_pods_update [OF None i])
    moreover have "int (old_pods upd reps') \<le> max (int (old_pods upd (reps[i := Some q]))) (sint p)"
      by (rule Cons.IH [OF rest]) (use Cons.prems(2) in simp)
    ultimately show ?thesis by linarith
  next
    case (Some q)
    with Cons show ?thesis by simp
  qed
qed simp

theorem fill_slots_unordered_bound_witness:
  "\<exists>reps'. fill_slots sample_from_template (\<lambda>m. m) (with_rolling sample_app (sample_rolling\<lparr>ru_unordered := True, ru_partition := Some 1\<rparr>))
       sample_app ''r1'' ''r2'' [0, 1, 2] [None, None, None] = Some reps' \<and>
     int (old_pods ''r2'' reps') \<le> 1"
proof -
  let ?ru = "sample_rolling\<lparr>ru_unordered := True, ru_partition := Some 1\<rparr>"
  let ?ca = "with_rolling sample_app ?ru"
  have "fill_slots sample_from_template (\<lambda>m. m) ?ca sample_app ''r1'' ''r2'' [0, 1, 2] [None, None, None] \<noteq> None"
    by (rule fill_slots_total)
      (simp_all add: claims_ready_def revision_ready_def with_rolling_def sample_app_def)
  then obtain reps' where run: "fill_slots sample_from_template (\<lambda>m. m) ?ca sample_app ''r1'' ''r2'' [0, 1, 2] [None, None, None] = Some reps'"
    by blast
  have "int (old_pods ''r2'' reps') \<le> max (int (old_pods ''r2'' [None, None, None])) (sint (1 :: int32))"
    by (rule fill_slots_unordered_bound [OF run, where ru = ?ru])
      (simp_all add: with_rolling_def sample_app_def)
  with run show ?thesis by (simp add: old_pods_def)
qed

text \<open>
  With an ordered update the partition splits the ordinals: a missing pod is created at the
  current revision when its ordinal is below the partition and at the update revision
  otherwise; without a rolling update it is always created at the update revision.
\<close>

theorem newVersionedPodForApp_revision:
  assumes "newVersionedPodForApp ft ord ca ua cur upd n reps = Some q"
  shows "(strategy ca \<noteq> RollingUpdateType \<longrightarrow> getPodRevision q = upd) \<and>
    (\<forall>ru p. strategy ca = RollingUpdateType \<and> rolling ca = Some ru \<and> \<not> ru_unordered ru \<and> ru_partition ru = Some p \<longrightarrow>
       getPodRevision q = (if n < sint p then cur else upd))"
proof -
  from assms obtain b where "isCurrentRevisionExpected ca upd n reps = Some b"
    "getPodRevision q = (if b then cur else upd)" by (rule newVersionedPod_revision)
  then show ?thesis by (auto simp: isCurrentRevisionExpected_def)
qed

theorem newVersionedPodForApp_revision_witness:
  "\<exists>q. newVersionedPodForApp sample_from_template (\<lambda>m. m) sample_app sample_app ''r1'' ''r2'' 2 [] = Some q \<and>
     getPodRevision q = ''r2''"
proof -
  have "newVersionedPodForApp sample_from_template (\<lambda>m. m) sample_app sample_app ''r1'' ''r2'' 2 [] \<noteq> None"
    by (rule newVersionedPod_total) (simp_all add: claims_ready_def revision_ready_def sample_rolling_def)
  then obtain q where "newVersionedPodForApp sample_from_template (\<lambda>m. m) sample_app sample_app ''r1'' ''r2'' 2 [] = Some q"
    by blast
  with newVersionedPodForApp_revision [OF this] show ?thesis by (auto simp: sample_rolling_def)
qed

section \<open>Progress\<close>

text \<open>A replica that needs nothing.\<close>

definition steady :: "app \<Rightarrow> pod \<Rightarrow> bool" where
  "steady app p \<longleftrightarrow> settled p \<and> matchAppAndPod app p \<and> matchAppPVC app p \<and> \<not> in_place_pending p"

lemma sync_pod_steady:
  assumes "steady app p"
  shows "sync_pod env pc app False 0 p y = Some (Continue, p, y)"
proof -
  have "getPodAvailableAndNextCheckInterval now p 0 = (True, 0)" for now
    using assms by (simp add: steady_def settled_def getPodAvailableAndNextCheckInterval_def)
  with assms show ?thesis
    by (simp add: steady_def settled_def sync_pod_def sync_existing_def sync_identity_def)
qed

lemma sync_loop_steady:
  assumes "\<forall>p \<in> set ps. steady app p"
  shows "sync_loop env pc app False 0 (map Some ps @ rest) y =
    do { (rs, z) \<leftarrow> sync_loop env pc app False 0 rest y; Some (map Some ps @ rs, z) }"
  using assms
proof (induction ps)
  case Nil
  show ?case by (cases "sync_loop env pc app False 0 rest y") auto
next
  case (Cons p ps)
  then show ?case
    by (cases "sync_loop env pc app False 0 rest y") (auto simp: sync_pod_steady)
qed

text \<open>The slots the rolling update still has to replace, highest first.\<close>

definition outdated :: "controller_revision \<Rightarrow> int \<Rightarrow> pod list \<Rightarrow> nat \<Rightarrow> nat list" where
  "outdated upd umin ps n =
     rev (filter (\<lambda>t. umin \<le> int t \<and> getPodRevision (ps ! t) \<noteq> rev_name upd) [0..<n])"

lemma roll_loop_steady:
  assumes "\<forall>p \<in> set ps. steady app p" and "\<not> in_place_allowed app" and "0 \<le> umin"
  shows "n \<le> length ps \<Longrightarrow>
    roll_loop env pc app upd revs umin (map Some ps) n status s =
      (case outdated upd umin ps n of
         [] \<Rightarrow> Some ((status, None), s)
       | t # _ \<Rightarrow> Some (recreate_pod pc app (ps ! t) status s))"
proof (induction n)
  case 0
  with assms(3) show ?case by (simp add: outdated_def)
next
  case (Suc t)
  then have p: "map Some ps ! t = Some (ps ! t)" "steady app (ps ! t)" using assms(1) by simp_all
  show ?case
  proof (cases "int t < umin")
    case True
    then have "outdated upd umin ps (Suc t) = []" by (auto simp: outdated_def)
    with True show ?thesis by simp
  next
    case False
    show ?thesis
    proof (cases "getPodRevision (ps ! t) = rev_name upd")
      case True
      then have "outdated upd umin ps (Suc t) = outdated upd umin ps t" by (simp add: outdated_def)
      with True False p Suc show ?thesis by (simp add: steady_def settled_def)
    next
      case old: False
      with False have "outdated upd umin ps (Suc t) = t # outdated upd umin ps t" by (simp add: outdated_def)
      with old False p assms(2) show ?thesis by (simp add: steady_def settled_def update_target_def)
    qed
  qed
qed

text \<open>The three steps of progress: a missing replica, a surplus pod, an outdated replica.\<close>

lemma manage_create:
  assumes "manage_pods env (PodController env) app cur upd revs (map Some ps @ Some q # rs) bad status s =
      Some ((st, err), s')"
    and "\<not> burstable app" and "getMinReadySeconds app = 0" and "\<forall>p \<in> set ps. steady app p"
    and "p_phase q = PhaseUnset"
  shows "\<exists>q'. po_create (PodController env) app q s = Some (err, q', s')"
proof -
  let ?y = "\<lparr>sy_sys = s, sy_status = status, sy_available = True, sy_err = None\<rparr>"
  from assms(1,2) obtain reps z
    where loop: "sync_loop env (PodController env) app False 0 (map Some ps @ Some q # rs) ?y = Some (reps, z)"
    by (auto simp: manage_pods_def Let_def bind_eq_Some_conv assms(3))
  then obtain reps' where tail: "sync_loop env (PodController env) app False 0 (Some q # rs) ?y = Some (reps', z)"
    using sync_loop_steady [OF assms(4), of env "PodController env" "Some q # rs" ?y]
    by (auto simp: bind_eq_Some_conv simp del: sync_loop.simps)
  then obtain q' e u where create: "po_create (PodController env) app q s = Some (e, q', u)"
    and z: "sy_sys z = u" "sy_err z = e" "\<not> sy_available z"
    by (auto simp: sync_pod_def assms(5) sync_missing_def Let_def bind_eq_Some_conv split: option.splits)
  have "manage_pods env (PodController env) app cur upd revs (map Some ps @ Some q # rs) bad status s =
      Some ((updateStatus (e_clock env (trace u)) (sy_status z) 0 cur upd [reps, map Some bad], e), u)"
    using loop z assms(2) by (simp add: manage_pods_def Let_def assms(3) del: sync_loop.simps)
  with assms(1) create show ?thesis by auto
qed

lemma progress_create:
  assumes "manage_pods env (PodController env) app cur upd revs (map Some ps @ Some q # rs) bad status s =
      Some ((st, err), s')"
    and "\<not> burstable app" and "getMinReadySeconds app = 0" and "\<forall>p \<in> set ps. steady app p"
    and "p_phase q = PhaseUnset"
  shows "err \<noteq> None \<or> (\<exists>c. lifecycle (calls_between s s') = [c] \<and> creates q c)"
proof -
  from manage_create [OF assms] obtain q' where create: "po_create (PodController env) app q s = Some (err, q', s')" ..
  from pod_controller.create_calls [OF create] pod_controller.create_one(2) [OF create]
  show ?thesis by (fastforce simp: creates_def dest: adds_calls_between)
qed

lemma sync_loop_all_steady:
  "\<forall>p \<in> set ps. steady app p \<Longrightarrow> sync_loop env pc app False 0 (map Some ps) y = Some (map Some ps, y)"
  using sync_loop_steady [of ps app env pc "[]" y] by simp

lemma manage_scale_down:
  assumes "manage_pods env (PodController env) app cur upd revs (map Some ps) (b # bs) status s =
      Some ((st, err), s')"
    and "\<not> burstable app" and "getMinReadySeconds app = 0" and "\<forall>p \<in> set ps. steady app p"
    and "getPodReady (Some b)" and "p_deletion b = None"
  shows "\<exists>u. po_delete (PodController env) app b s = (err, u) \<and>
    s' = (case err of None \<Rightarrow> u | Some e \<Rightarrow> failed_delete b e u)"
proof -
  obtain e u where del: "po_delete (PodController env) app b s = (e, u)" by fastforce
  from assms(1,2,5,6) sync_loop_all_steady [OF assms(4), of env "PodController env"] del
  show ?thesis by (auto simp: manage_pods_def Let_def assms(3) split: option.splits if_splits)
qed

lemma progress_scale_down:
  assumes "manage_pods env (PodController env) app cur upd revs (map Some ps) (b # bs) status s =
      Some ((st, err), s')"
    and "\<not> burstable app" and "getMinReadySeconds app = 0" and "\<forall>p \<in> set ps. steady app p"
    and "getPodReady (Some b)" and "p_deletion b = None"
  shows "lifecycle (calls_between s s') = [CallPodDelete (p_namespace b) (p_name b)]"
proof -
  from manage_scale_down [OF assms] obtain u where del: "po_delete (PodController env) app b s = (err, u)"
    and s': "s' = (case err of None \<Rightarrow> u | Some e \<Rightarrow> failed_delete b e u)" by blast
  from pod_controller.delete_calls [OF assms(6) del]
  obtain cs where cs: "adds s u cs" "lifecycle cs = [CallPodDelete (p_namespace b) (p_name b)]" by blast
  have "lifecycle (calls_between s (failed_delete b x u)) = lifecycle cs" for x
    unfolding failed_delete_def by (subst adds_calls_between [OF adds_log [OF cs(1)]]) simp
  with cs show ?thesis by (auto simp: s' adds_calls_between split: option.split)
qed

lemma manage_roll:
  assumes "manage_pods env (PodController env) app cur upd revs (map Some ps) [] status s = Some ((st, err), s')"
    and "\<not> burstable app" and "getMinReadySeconds app = 0" and "\<forall>p \<in> set ps. steady app p"
    and "updates_on app umin" and "0 \<le> umin" and "\<not> in_place_allowed app"
  shows "case outdated upd umin ps (length ps) of
       [] \<Rightarrow> err = None \<and> s' = s
     | t # _ \<Rightarrow> \<exists>st0. recreate_pod (PodController env) app (ps ! t) st0 s = ((st, err), s')"
proof -
  from assms(5) obtain ru m where ru: "rolling app = Some ru" "\<not> ru_paused ru" "ru_partition ru = Some m"
    "umin = sint m" "strategy app \<noteq> OnDeleteType" "a_deletion app = None" by (auto simp: updates_on_def)
  from assms(1,2) ru sync_loop_all_steady [OF assms(4), of env "PodController env"] obtain st0
    where "roll_loop env (PodController env) app upd revs umin (map Some ps) (length ps) st0 s = Some ((st, err), s')"
    by (auto simp: manage_pods_def Let_def assms(3) roll_update_def)
  with roll_loop_steady [OF assms(4,7,6), of "length ps"] show ?thesis by (auto split: list.splits)
qed

lemma progress_roll:
  assumes "manage_pods env (PodController env) app cur upd revs (map Some ps) [] status s = Some ((st, err), s')"
    and "\<not> burstable app" and "getMinReadySeconds app = 0" and "\<forall>p \<in> set ps. steady app p"
    and "updates_on app umin" and "0 \<le> umin" and "\<not> in_place_allowed app"
  shows "lifecycle (calls_between s s') =
    (case outdated upd umin ps (length ps) of
       [] \<Rightarrow> []
     | t # _ \<Rightarrow> [CallPodDelete (p_namespace (ps ! t)) (p_name (ps ! t))])"
proof (cases "outdated upd umin ps (length ps)")
  case Nil
  with manage_roll [OF assms] show ?thesis by (simp add: calls_between_def)
next
  case (Cons t ts)
  then have "t \<in> set (outdated upd umin ps (length ps))" by simp
  then have "t < length ps" by (simp add: outdated_def)
  then have live: "p_deletion (ps ! t) = None" using assms(4) by (simp add: steady_def settled_def)
  obtain e u where del: "po_delete (PodController env) app (ps ! t) s = (e, u)" by fastforce
  with Cons manage_roll [OF assms] have "s' = u" by (auto simp: recreate_pod_def split: if_splits)
  with pod_controller.delete_calls [OF live del] Cons show ?thesis by (auto simp: adds_calls_between)
qed

text \<open>
  C8.  Progress: in order and without a minimal ready time, when the replicas below the first
  missing one are steady the pass asks for that replica or reports an error; when all replicas
  are steady it deletes the topmost surplus pod if that pod is ready and not terminating; and
  when moreover there is no surplus and updates are on, it deletes the highest replica at or
  above the partition that is not at the update revision, and does nothing to the pods when
  there is none.
\<close>

theorem manage_pods_progress:
  assumes "manage_pods env (PodController env) app cur upd revs (map Some ps @ rest) bad status s =
      Some ((st, err), s')"
    and "sp_management_policy (a_spec app) \<noteq> Parallel" and "getMinReadySeconds app = 0"
    and "\<forall>p \<in> set ps. steady app p"
  shows "case rest of
      Some q # _ \<Rightarrow> p_phase q = PhaseUnset \<longrightarrow>
        err \<noteq> None \<or> (\<exists>c. lifecycle (calls_between s s') = [c] \<and> creates q c)
    | None # _ \<Rightarrow> True
    | [] \<Rightarrow>
        (case bad of
           b # _ \<Rightarrow> getPodReady (Some b) \<and> p_deletion b = None \<longrightarrow>
             lifecycle (calls_between s s') = [CallPodDelete (p_namespace b) (p_name b)]
         | [] \<Rightarrow> (\<forall>umin. updates_on app umin \<and> 0 \<le> umin \<and> \<not> in_place_allowed app \<longrightarrow>
             lifecycle (calls_between s s') =
               (case outdated upd umin ps (length ps) of
                  [] \<Rightarrow> []
                | t # _ \<Rightarrow> [CallPodDelete (p_namespace (ps ! t)) (p_name (ps ! t))])))"
proof -
  have burst: "\<not> burstable app" using assms(2) by (simp add: burstable_def)
  show ?thesis
  proof (cases rest)
    case Nil
    with assms(1) have run: "manage_pods env (PodController env) app cur upd revs (map Some ps) bad status s =
        Some ((st, err), s')" by simp
    show ?thesis
      using Nil progress_scale_down [OF _ burst assms(3,4)] progress_roll [OF _ burst assms(3,4)] run
      by (auto split: list.split)
  next
    case (Cons po rs)
    with assms(1) progress_create [OF _ burst assms(3,4)] show ?thesis by (cases po) auto
  qed
qed

definition ordered_app :: app where
  "ordered_app = sample_app\<lparr>a_spec := (a_spec sample_app)\<lparr>sp_replicas := Some 1, sp_claim_templates := []\<rparr>\<rparr>"

lemma old_replica_steady: "steady ordered_app old_replica"
proof -
  have "a_name ordered_app = a_name parallel_app" "a_namespace ordered_app = a_namespace parallel_app"
    by (simp_all add: ordered_app_def parallel_app_def)
  then have "matchAppAndPod ordered_app old_replica = matchAppAndPod parallel_app old_replica"
    by (simp only: matchAppAndPod_def getPodOutName_def)
  then show ?thesis using old_replica_simps by (simp add: steady_def matchAppPVC_def ordered_app_def)
qed

theorem manage_pods_progress_witness:
  "\<exists>res s'. manage_pods sample_env (PodController sample_env) ordered_app (sample_revision ''r1'' 1)
       (sample_revision ''r2'' 2) [] [Some old_replica] [] zero_status sample_sys = Some (res, s') \<and>
     lifecycle (calls_between sample_sys s') = [CallPodDelete ''ns'' ''web-site-0'']"
proof -
  let ?upd = "sample_revision ''r2'' 2" and ?cur = "sample_revision ''r1'' 1"
  have steady: "\<forall>p \<in> set [old_replica]. steady ordered_app p" using old_replica_steady by simp
  have "manage_pods sample_env (PodController sample_env) ordered_app ?cur ?upd [] [Some old_replica] [] zero_status sample_sys \<noteq> None"
    by (rule live_controller.manage_pods_total)
      (simp_all add: claims_ready_def ordered_app_def in_place_allowed_def sample_app_def sample_rolling_def)
  then obtain st err s' where run: "manage_pods sample_env (PodController sample_env) ordered_app ?cur ?upd []
      (map Some [old_replica] @ []) [] zero_status sample_sys = Some ((st, err), s')" by fastforce
  have on: "updates_on ordered_app 0" "\<not> in_place_allowed ordered_app"
    by (simp_all add: updates_on_def ordered_app_def sample_app_def sample_rolling_def in_place_allowed_def)
  have out: "outdated ?upd 0 [old_replica] 1 = [0]"
    using old_replica_simps by (simp add: outdated_def sample_revision_def)
  have mrs: "getMinReadySeconds ordered_app = 0"
    by (simp add: getMinReadySeconds_def ordered_app_def sample_app_def sample_rolling_def)
  have policy: "sp_management_policy (a_spec ordered_app) \<noteq> Parallel" by (simp add: ordered_app_def)
  from manage_pods_progress [OF run policy mrs steady] on out run old_replica_simps show ?thesis by auto
qed

end
