(* ===== verification/App_Reconciler.thy ===== *)
theory App_Reconciler
  imports Update_Progress
begin

text \<open>
  \<open>deployer/internal/controller/app\_controller.go\<close>: the reconciler.  It guards Apps with a
  finalizer, adopts orphaned revisions, claims the App's pods, scales an App that is being
  deleted down to zero, synchronises it, and removes the finalizer when no pod is left.
  \<open>Reconcile\<close> reads the App from the lister and the result is the answer to the
  controller runtime.
\<close>

definition app_finalizer :: string where
  "app_finalizer = ''unicore.mcyou.cn/app-finalizer''"

record ctrl_result =
  res_requeue :: bool
  res_requeue_after :: duration

definition no_requeue :: ctrl_result where
  "no_requeue = \<lparr>res_requeue = False, res_requeue_after = 0\<rparr>"

section \<open>Writing the App\<close>

text \<open>
  The closure all three writes share: \<open>app, err = Update(app)\<close>.  A failed request leaves the
  empty App of the client in the captured variable.
\<close>

definition put_app :: "env \<Rightarrow> app \<times> sys \<Rightarrow> (go_error option \<times> app \<times> sys) option" where
  "put_app env = (\<lambda>(app, s). case app_Update env app s of ((app, err), s) \<Rightarrow> Some (err, app, s))"

definition write_app :: "env \<Rightarrow> app \<Rightarrow> sys \<Rightarrow> (go_error option \<times> sys) option" where
  "write_app env app s =
     do {
       (err, app, s) \<leftarrow> retry_on_conflict env (put_app env) (app, s);
       Some (err, s)
     }"

section \<open>Orphaned revisions and the App's pods\<close>

definition adoptOrphanRevisions :: "env \<Rightarrow> app \<Rightarrow> sys \<Rightarrow> go_error option \<times> sys" where
  "adoptOrphanRevisions env app s =
     (case ListRevisions env app s of
        Inl err \<Rightarrow> (Some err, s)
      | Inr revisions \<Rightarrow>
          let orphans = filter (\<lambda>r. rev_controller r = None) revisions in
          if orphans \<noteq> [] then
            (case app_Get env (a_namespace app) (a_name app) s of
               ((fresh, Some err), s) \<Rightarrow> (Some err, s)
             | ((fresh, None), s) \<Rightarrow>
                 if a_uid fresh \<noteq> a_uid app
                 then (Some (ErrFmt ''original app is refreshed, uid not match'' [a_namespace app, a_name app]), s)
                 else (case AdoptOrphanRevisions env app orphans s of (err, _, s) \<Rightarrow> (err, s)))
          else (None, s))"

text \<open>
  \<open>ClaimPods\<close> of the library adopts and releases pods as it filters them; its calls are one
  entry of the trace.
\<close>

definition getAppPods :: "env \<Rightarrow> app \<Rightarrow> selector \<Rightarrow> sys \<Rightarrow> (go_error + pod list) \<times> sys" where
  "getAppPods env app selector s =
     (case e_pod_list env (trace s) (a_namespace app) of
        Inl err \<Rightarrow> (Inl err, s)
      | Inr pods \<Rightarrow>
          (e_claim_pods env (trace s) app selector
             (\<lambda>pod. fst (GetPodAppNameAndOrdinal pod) = a_name app) pods,
           log_call (CallPodAdoption app) s))"

section \<open>Reconcile\<close>

text \<open>The deferred function: its own error is logged and does not change the result.\<close>

definition remove_finalizer :: "env \<Rightarrow> app \<Rightarrow> pod list \<Rightarrow> sys \<Rightarrow> sys option" where
  "remove_finalizer env app pods s =
     (if a_name app = '''' then Some s
      else
        let newFinalizers = filter (\<lambda>v. v \<noteq> app_finalizer) (a_finalizers app);
            removed = list_ex (\<lambda>v. v = app_finalizer) (a_finalizers app)
        in if \<not> removed \<or> 0 < length pods then Some s
           else do {
             (err, s) \<leftarrow> write_app env (app\<lparr>a_finalizers := newFinalizers\<rparr>) s;
             Some s
           })"

text \<open>The end of \<open>Reconcile\<close>: the synchronisation and the requeue durations.\<close>

definition sync_and_requeue ::
  "env \<Rightarrow> pod_ops \<Rightarrow> app \<Rightarrow> pod list \<Rightarrow> sys \<Rightarrow> ((ctrl_result \<times> go_error option) \<times> sys) option" where
  "sync_and_requeue env pc app pods s =
     do {
       (err, s) \<leftarrow> UpdateApp env pc (Some app) pods s;
       case err of
         Some e \<Rightarrow>
           (case pop (GetAppKey app) (requeue_store s) of
              (d, q) \<Rightarrow>
                Some ((no_requeue\<lparr>res_requeue_after := d\<rparr>, Some e), s\<lparr>requeue_store := q\<rparr>))
       | None \<Rightarrow>
           (case pop (GetAppKey app) (requeue_store s) of
              (d, q) \<Rightarrow>
                if 0 < d then
                  (case pop (GetAppKey app) q of
                     (d', q') \<Rightarrow>
                       Some ((\<lparr>res_requeue = True, res_requeue_after = d'\<rparr>, None), s\<lparr>requeue_store := q'\<rparr>))
                else Some ((no_requeue, None), s\<lparr>requeue_store := q\<rparr>))
     }"

text \<open>Once the pods are claimed.\<close>

definition reconcile_pods ::
  "env \<Rightarrow> pod_ops \<Rightarrow> app \<Rightarrow> pod list \<Rightarrow> sys \<Rightarrow> ((ctrl_result \<times> go_error option) \<times> sys) option" where
  "reconcile_pods env pc app pods s =
     (if a_deletion app \<noteq> None then
        if sp_replicas (a_spec app) = None \<or> sp_replicas (a_spec app) \<noteq> Some 0 then do {
          (err, s) \<leftarrow> write_app env (app\<lparr>a_spec := (a_spec app)\<lparr>sp_replicas := Some 0\<rparr>\<rparr>) s;
          Some ((no_requeue, err), s)
        }
        else do {
          ((res, retErr), s) \<leftarrow> sync_and_requeue env pc app pods s;
          if retErr = None then do {
            s \<leftarrow> remove_finalizer env app pods s;
            Some ((res, retErr), s)
          }
          else Some ((res, retErr), s)
        }
      else sync_and_requeue env pc app pods s)"

definition Reconcile ::
  "env \<Rightarrow> pod_ops \<Rightarrow> string \<Rightarrow> string \<Rightarrow> sys \<Rightarrow> ((ctrl_result \<times> go_error option) \<times> sys) option" where
  "Reconcile env pc namespace name s =
     (case app_lister_Get env namespace name s of
        Inl err \<Rightarrow> Some ((no_requeue, if err = ErrNotFound then None else Some err), s)
      | Inr app \<Rightarrow>
          if a_deletion app = None \<and> \<not> list_ex (\<lambda>v. v = app_finalizer) (a_finalizers app) then do {
            (err, s) \<leftarrow> write_app env (app\<lparr>a_finalizers := a_finalizers app @ [app_finalizer]\<rparr>) s;
            Some ((no_requeue, err), s)
          }
          else
            (case e_selector env (sp_selector (a_spec app)) of
               Inl err \<Rightarrow> Some ((no_requeue, None), s)
             | Inr selector \<Rightarrow>
                 (case adoptOrphanRevisions env app s of
                    (Some err, s) \<Rightarrow> Some ((no_requeue, Some err), s)
                  | (None, s) \<Rightarrow>
                      (case getAppPods env app selector s of
                         (Inl err, s) \<Rightarrow> Some ((no_requeue, Some err), s)
                       | (Inr pods, s) \<Rightarrow> reconcile_pods env pc app pods s))))"

section \<open>Lemmas\<close>

fun is_app_update :: "api_call \<Rightarrow> bool" where
  "is_app_update (CallAppUpdate a) = True"
| "is_app_update c = False"

lemma app_update_quiet: "only is_app_update s s' \<Longrightarrow> quiet s s'"
  by (erule only_mono) (erule is_app_update.elims, simp_all)

lemma write_app_calls:
  assumes "write_app env app s = Some (err, s')"
  shows "only is_app_update s s' \<and> requeue_store s' = requeue_store s"
proof -
  from assms obtain e a where run: "retry_on_conflict env (put_app env) (app, s) = Some (e, a, s')"
    by (auto simp: write_app_def bind_eq_Some_conv)
  have "(\<lambda>(_, u). only is_app_update s u \<and> requeue_store u = requeue_store s) (a, s')"
    by (rule retry_loop_invariant [OF run [unfolded retry_on_conflict_def]])
      (auto simp: put_app_def app_Update_def Let_def split: sum.splits intro!: only_log)
  then show ?thesis by simp
qed

text \<open>The first request sends the given App; it is the only one when the server accepts it.\<close>

lemma write_app_first:
  assumes "write_app env app s = Some (err, s')"
  shows "\<exists>cs. calls_between s s' = CallAppUpdate app # cs \<and>
    (\<forall>a. e_app_put env (trace s) app = Inr a \<longrightarrow> cs = [] \<and> err = None)"
proof -
  let ?s = "log_call (CallAppUpdate app) s"
  from assms obtain a where run: "retry_on_conflict env (put_app env) (app, s) = Some (err, a, s')"
    by (auto simp: write_app_def bind_eq_Some_conv)
  have later: "\<exists>cs. adds ?s s' cs" if "retry_loop ag n (put_app env) (b, ?s) = Some (err, a, s')" for ag n b
  proof -
    have "(\<lambda>(_, u). only (\<lambda>_. True) ?s u) (a, s')"
      by (rule retry_loop_invariant [OF that])
        (auto simp: put_app_def app_Update_def Let_def split: sum.splits intro!: only_log)
    then show ?thesis by (auto simp: only_def)
  qed
  have one: "calls_between s ?s = [CallAppUpdate app]" by (simp add: calls_between_def)
  have more: "calls_between s s' = CallAppUpdate app # cs" if "adds ?s s' cs" for cs
    using that by (simp add: adds_def calls_between_def)
  show ?thesis
  proof (cases "e_app_put env (trace s) app")
    case (Inr b)
    then have "put_app env (app, s) = Some (None, b, ?s)" by (simp add: put_app_def app_Update_def)
    with run have "err = None" "s' = ?s"
      by (cases "e_retry_steps env", simp_all add: retry_on_conflict_def)+
    with one show ?thesis by simp
  next
    case (Inl e)
    then have "put_app env (app, s) = Some (Some e, zero_app, ?s)" by (simp add: put_app_def app_Update_def)
    with run have "s' = ?s \<or> (\<exists>ag n. retry_loop ag n (put_app env) (zero_app, ?s) = Some (err, a, s'))"
      by (cases "e_retry_steps env") (auto simp: retry_on_conflict_def split: if_splits)
    with later one more Inl show ?thesis by fastforce
  qed
qed

lemma write_app_total: "write_app env app s \<noteq> None"
proof -
  have "retry_on_conflict env (put_app env) (app, s) \<noteq> None"
    unfolding retry_on_conflict_def
    by (rule retry_loop_no_panic [where P = "\<lambda>_. True"]) (auto simp: put_app_def split: prod.splits)
  then show ?thesis by (auto simp: write_app_def)
qed

lemma adoptOrphanRevisions_quiet:
  "adoptOrphanRevisions env app s = (err, s') \<Longrightarrow> quiet s s' \<and> requeue_store s' = requeue_store s"
proof -
  assume run: "adoptOrphanRevisions env app s = (err, s')"
  have get: "quiet s u \<and> requeue_store u = requeue_store s" if "app_Get env ns n s = (r, u)" for ns n r u
    using that by (auto simp: app_Get_def Let_def split: sum.splits intro!: quiet_log)
  have adopt: "quiet u v \<and> requeue_store v = requeue_store u" if "AdoptOrphanRevisions env app rs u = (e, rs', v)" for rs e rs' u v
    using that by (rule AdoptOrphanRevisions_quiet)
  from run show ?thesis
    by (auto simp: adoptOrphanRevisions_def Let_def split: sum.splits if_splits prod.splits option.splits
        dest!: get adopt intro: quiet_trans)
qed

lemma getAppPods_quiet:
  "getAppPods env app selector s = (r, s') \<Longrightarrow> quiet s s' \<and> requeue_store s' = requeue_store s"
  by (auto simp: getAppPods_def split: sum.splits intro!: quiet_log)

lemma remove_finalizer_calls:
  "remove_finalizer env app pods s = Some s' \<Longrightarrow>
     only is_app_update s s' \<and> requeue_store s' = requeue_store s \<and>
     (s' \<noteq> s \<longrightarrow> pods = [] \<and> app_finalizer \<in> set (a_finalizers app))"
  by (auto simp: remove_finalizer_def Let_def bind_eq_Some_conv list_ex_iff split: if_splits
      dest: write_app_calls)

text \<open>Around the synchronisation, \<open>Reconcile\<close> is quiet.\<close>

lemma sync_and_requeue_cases:
  assumes "sync_and_requeue env pc app pods s = Some ((res, err), s')"
  obtains t where "UpdateApp env pc (Some app) pods s = Some (err, t)" "quiet t s'"
    "res_requeue_after res = (if err = None then 0 else fst (pop (GetAppKey app) (requeue_store t)))"
    "res_requeue res \<longleftrightarrow> err = None \<and> 0 < fst (pop (GetAppKey app) (requeue_store t))"
    "requeue_store s' (GetAppKey app) = None"
proof -
  from assms obtain e t where run: "UpdateApp env pc (Some app) pods s = Some (e, t)"
    by (auto simp: sync_and_requeue_def bind_eq_Some_conv)
  obtain d q where p1: "pop (GetAppKey app) (requeue_store t) = (d, q)" by fastforce
  have gone: "q (GetAppKey app) = None"
    using p1 by (auto simp: pop_def split: option.splits)
  have p2: "pop (GetAppKey app) q = (0, q)" using gone by (simp add: pop_def)
  show ?thesis
    using assms run p1 p2 gone by (intro that [of t]) (auto simp: sync_and_requeue_def no_requeue_def split: option.splits if_splits)
qed

lemma reconcile_pods_cases:
  assumes "reconcile_pods env pc app pods s = Some ((res, err), s')"
  obtains (scale) "only is_app_update s s'" "res = no_requeue" "requeue_store s' = requeue_store s"
    "a_deletion app \<noteq> None" "sp_replicas (a_spec app) \<noteq> Some 0"
  | (sync) u where "sync_and_requeue env pc app pods s = Some ((res, err), u)"
    "quiet u s'" "requeue_store s' = requeue_store u"
proof (cases "a_deletion app \<noteq> None \<and> sp_replicas (a_spec app) \<noteq> Some 0")
  case True
  with assms obtain e where "write_app env (app\<lparr>a_spec := (a_spec app)\<lparr>sp_replicas := Some 0\<rparr>\<rparr>) s = Some (e, s')"
    "res = no_requeue" by (auto simp: reconcile_pods_def bind_eq_Some_conv)
  with True write_app_calls [OF this(1)] show ?thesis by (intro that(1)) simp_all
next
  case False
  show ?thesis
  proof (cases "a_deletion app")
    case None
    with assms show ?thesis by (intro that(2) [of s']) (simp_all add: reconcile_pods_def)
  next
    case (Some d)
    with False assms obtain u where run: "sync_and_requeue env pc app pods s = Some ((res, err), u)"
      and "s' = u \<or> remove_finalizer env app pods u = Some s'"
      by (auto simp: reconcile_pods_def bind_eq_Some_conv split: if_splits)
    then show ?thesis
      using app_update_quiet by (intro that(2) [of u]) (auto dest: remove_finalizer_calls)
  qed
qed

lemma Reconcile_cases:
  assumes "Reconcile env pc ns n s = Some ((res, err), s')"
  obtains (quiet) "quiet s s'" "res = no_requeue"
  | (pods) app selector t t' pods where "app_lister_Get env ns n s = Inr app" "quiet s t'"
    "getAppPods env app selector t = (Inr pods, t')"
    "reconcile_pods env pc app pods t' = Some ((res, err), s')"
proof (cases "app_lister_Get env ns n s")
  case (Inl e)
  with assms have "quiet s s'" "res = no_requeue" by (simp_all add: Reconcile_def)
  then show ?thesis by (rule quiet)
next
  case (Inr app)
  show ?thesis
  proof (cases "a_deletion app = None \<and> \<not> list_ex (\<lambda>v. v = app_finalizer) (a_finalizers app)")
    case True
    with Inr assms obtain e where "write_app env (app\<lparr>a_finalizers := a_finalizers app @ [app_finalizer]\<rparr>) s = Some (e, s')"
      "res = no_requeue" by (auto simp: Reconcile_def bind_eq_Some_conv)
    with write_app_calls [OF this(1)] app_update_quiet show ?thesis by (intro that(1)) simp_all
  next
    case guarded: False
    show ?thesis
    proof (cases "e_selector env (sp_selector (a_spec app))")
      case (Inl e)
      with Inr guarded assms have "quiet s s'" "res = no_requeue" by (auto simp: Reconcile_def)
      then show ?thesis by (rule quiet)
    next
      case sel: (Inr selector)
      obtain e t where adopt: "adoptOrphanRevisions env app s = (e, t)" by fastforce
      obtain r t' where claim: "getAppPods env app selector t = (r, t')" by fastforce
      from adoptOrphanRevisions_quiet [OF adopt] getAppPods_quiet [OF claim]
      have q: "quiet s t" "quiet s t'" by (auto intro: quiet_trans)
      show ?thesis
      proof (cases "e = None \<and> (\<exists>pods. r = Inr pods)")
        case True
        then obtain pods where "r = Inr pods" by blast
        with True Inr guarded sel adopt claim assms
        have "reconcile_pods env pc app pods t' = Some ((res, err), s')" by (auto simp: Reconcile_def)
        with Inr q claim \<open>r = Inr pods\<close> show ?thesis by (intro that(2)) simp_all
      next
        case False
        with Inr guarded sel adopt claim assms have "res = no_requeue" "s' = t \<or> s' = t'"
          by (auto simp: Reconcile_def split: option.splits sum.splits)
        with q show ?thesis by (intro that(1)) auto
      qed
    qed
  qed
qed

section \<open>Properties\<close>

text \<open>
  C19.  The finalizer goes last: when the deferred function writes the App at all, no pod was
  claimed and the finalizer was there; without an error of the server it makes one call, which
  sends the App with every other finalizer kept.
\<close>

theorem remove_finalizer_last:
  assumes "remove_finalizer env app pods s = Some s'" and "calls_between s s' \<noteq> []"
  shows "pods = [] \<and> app_finalizer \<in> set (a_finalizers app) \<and>
    (let a = app\<lparr>a_finalizers := filter (\<lambda>v. v \<noteq> app_finalizer) (a_finalizers app)\<rparr> in
     \<exists>cs. calls_between s s' = CallAppUpdate a # cs \<and>
       (\<forall>b. e_app_put env (trace s) a = Inr b \<longrightarrow> cs = []))"
proof -
  have "s' \<noteq> s" using assms(2) by (auto simp: calls_between_def)
  with assms(1) obtain e where "pods = []" "app_finalizer \<in> set (a_finalizers app)"
    "write_app env (app\<lparr>a_finalizers := filter (\<lambda>v. v \<noteq> app_finalizer) (a_finalizers app)\<rparr>) s = Some (e, s')"
    by (auto simp: remove_finalizer_def Let_def bind_eq_Some_conv list_ex_iff split: if_splits)
  with write_app_first [OF this(3)] show ?thesis by (auto simp: Let_def)
qed

definition guarded_app :: app where
  "guarded_app = sample_app\<lparr>a_deletion := Some 5, a_finalizers := [app_finalizer]\<rparr>"

theorem remove_finalizer_last_witness:
  "\<exists>s'. remove_finalizer sample_env guarded_app [] sample_sys = Some s' \<and>
     calls_between sample_sys s' = [CallAppUpdate (guarded_app\<lparr>a_finalizers := []\<rparr>)]"
proof -
  obtain e s' where w: "write_app sample_env (guarded_app\<lparr>a_finalizers := []\<rparr>) sample_sys = Some (e, s')"
    using write_app_total by fastforce
  then have run: "remove_finalizer sample_env guarded_app [] sample_sys = Some s'"
    by (simp add: remove_finalizer_def guarded_app_def)
  have "calls_between sample_sys s' \<noteq> []" using write_app_first [OF w] by auto
  from remove_finalizer_last [OF run this] run show ?thesis
    by (auto simp: Let_def guarded_app_def sample_env_def)
qed

text \<open>
  An App that is being deleted is first scaled to zero: as long as its replicas are not 0,
  \<open>Reconcile\<close> creates and deletes no pod; it asks the server to set the replicas to 0 and
  keeps the finalizers.
\<close>

theorem reconcile_pods_scales_to_zero:
  assumes "reconcile_pods env pc app pods s = Some (res, s')"
    and "a_deletion app \<noteq> None" and "sp_replicas (a_spec app) \<noteq> Some 0"
  shows "lifecycle (calls_between s s') = [] \<and>
    (\<exists>a. hd (calls_between s s') = CallAppUpdate a \<and> sp_replicas (a_spec a) = Some 0 \<and>
       a_finalizers a = a_finalizers app)"
proof -
  let ?a = "app\<lparr>a_spec := (a_spec app)\<lparr>sp_replicas := Some 0\<rparr>\<rparr>"
  from assms obtain e where w: "write_app env ?a s = Some (e, s')"
    by (auto simp: reconcile_pods_def bind_eq_Some_conv)
  have "lifecycle (calls_between s s') = []"
    using write_app_calls [OF w] app_update_quiet quiet_calls_between by blast
  moreover have "hd (calls_between s s') = CallAppUpdate ?a" using write_app_first [OF w] by auto
  ultimately show ?thesis by (intro conjI exI [of _ ?a]) simp_all
qed

theorem reconcile_pods_scales_to_zero_witness:
  "\<exists>res s' a. reconcile_pods sample_env (PodController sample_env) guarded_app [] sample_sys = Some (res, s') \<and>
     hd (calls_between sample_sys s') = CallAppUpdate a \<and> sp_replicas (a_spec a) = Some 0"
proof -
  have "write_app sample_env (guarded_app\<lparr>a_spec := (a_spec guarded_app)\<lparr>sp_replicas := Some 0\<rparr>\<rparr>) sample_sys \<noteq> None"
    by (rule write_app_total)
  then obtain res s' where run: "reconcile_pods sample_env (PodController sample_env) guarded_app [] sample_sys = Some (res, s')"
    by (auto simp: reconcile_pods_def guarded_app_def)
  from reconcile_pods_scales_to_zero [OF run] run show ?thesis by (auto simp: guarded_app_def)
qed

text \<open>
  The requeue duration is lost: after a successful pass \<open>RequeueAfter\<close> is 0, whatever
  duration the pass had stored, because the second \<open>Pop\<close> finds the entry gone.
\<close>

theorem Reconcile_never_requeues_later:
  assumes "Reconcile env pc ns n s = Some ((res, None), s')"
  shows "res_requeue_after res = 0"
  using assms
proof (cases rule: Reconcile_cases)
  case quiet
  then show ?thesis by (simp add: no_requeue_def)
next
  case (pods app selector t t' pods)
  from pods(4) show ?thesis
  proof (cases rule: reconcile_pods_cases)
    case scale
    then show ?thesis by (simp add: no_requeue_def)
  next
    case (sync u)
    from sync(1) show ?thesis by (cases rule: sync_and_requeue_cases) simp
  qed
qed

text \<open>
  C3.  One action per reconciliation: for an App whose pods are managed in order, one run of
  \<open>Reconcile\<close> as a whole creates or deletes at most one pod.
\<close>

theorem Reconcile_one_action:
  assumes "Reconcile env (PodController env) ns n s = Some (res, s')"
    and "\<And>app. app_lister_Get env ns n s = Inr app \<Longrightarrow> sp_management_policy (a_spec app) \<noteq> Parallel"
  shows "length (lifecycle (calls_between s s')) \<le> 1"
proof -
  obtain r err where res: "res = (r, err)" by fastforce
  from assms(1) [unfolded res] show ?thesis
  proof (cases rule: Reconcile_cases)
    case quiet
    then show ?thesis by (simp add: quiet_calls_between)
  next
    case (pods app selector t t' pods)
    from pods(4) show ?thesis
    proof (cases rule: reconcile_pods_cases)
      case scale
      then have "quiet s s'" using pods(2) app_update_quiet quiet_trans by blast
      then show ?thesis by (simp add: quiet_calls_between)
    next
      case (sync u)
      from sync(1) show ?thesis
      proof (cases rule: sync_and_requeue_cases)
        case (1 v)
        have "one_action (\<lambda>_. True) t' v" by (rule UpdateApp_one [OF 1(1) assms(2) [OF pods(1)]])
        then have "one_action (\<lambda>_. True) s s'"
          using pods(2) 1(2) sync(2) by (blast intro: quiet_then_one_action one_action_then_quiet)
        then show ?thesis by (rule one_action_length)
      qed
    qed
  qed
qed

section \<open>The reconciler returns\<close>

text \<open>
  The library's documented contract: only pods that pass the filter are claimed.
\<close>

definition claims_filtered :: "env \<Rightarrow> bool" where
  "claims_filtered env \<longleftrightarrow>
     (\<forall>h app sel f ps qs. e_claim_pods env h app sel f ps = Inr qs \<longrightarrow> (\<forall>q \<in> set qs. f q))"

definition reconcilable :: "env \<Rightarrow> app \<Rightarrow> bool" where
  "reconcilable env app \<longleftrightarrow>
     a_name app \<noteq> '''' \<and> recreating_spec app \<and> 0 \<le> history_limit app \<and>
     restores_template_only env app \<and> e_encode_app env app \<noteq> None \<and> getAppPatch env app \<noteq> None"

lemma getAppPods_ordinals:
  assumes "claims_filtered env" and "a_name app \<noteq> ''''" and "getAppPods env app sel s = (Inr pods, s')"
  shows "\<forall>p \<in> set pods. 0 \<le> ordinal p"
proof -
  have "\<forall>p \<in> set pods. fst (GetPodAppNameAndOrdinal p) = a_name app"
    using assms(3) assms(1) [unfolded claims_filtered_def, rule_format, where f = "\<lambda>pod. fst (GetPodAppNameAndOrdinal pod) = a_name app"]
    by (auto simp: getAppPods_def split: sum.splits)
  with assms(2) show ?thesis
    using ordinal_neg_iff by (metis fst_conv linorder_not_le)
qed

lemma choose_revision_total:
  assumes "getAppPatch env app \<noteq> None"
  shows "choose_revision env app revs s \<noteq> None"
proof -
  have "new_candidate env app revs n \<noteq> None" for n
    using assms by (auto simp: new_candidate_def split: sum.splits)
  then obtain cand where "new_candidate env app revs
      (case st_collision_count (a_status app) of None \<Rightarrow> 0 | Some n \<Rightarrow> n) = Some cand" by blast
  then show ?thesis by (cases cand) (simp_all add: choose_revision_def Let_def)
qed

lemma UpdateApp_total:
  assumes "reconcilable env app" and "\<forall>p \<in> set pods. 0 \<le> ordinal p"
  shows "UpdateApp env (PodController env) (Some app) pods s \<noteq> None"
proof -
  have sync: "sync_revisions env (PodController env) app pods revs upd n t \<noteq> None" for revs upd n t
    by (rule sync_revisions_total)
      (use assms in \<open>simp_all add: reconcilable_def applyUpdate_never_panics del: not_None_eq\<close>)
  have choose: "choose_revision env app revs s \<noteq> None" for revs
    by (rule choose_revision_total) (use assms(1) in \<open>simp add: reconcilable_def\<close>)
  show ?thesis
  proof (cases "e_selector env (sp_selector (a_spec app))")
    case (Inr sel)
    show ?thesis
    proof (cases "e_rev_list env (trace s) app sel")
      case (Inr listed)
      obtain chosen n t where "choose_revision env app (e_rev_sort env listed) s = Some ((chosen, n), t)"
        using choose by fastforce
      with Inr \<open>e_selector env _ = Inr sel\<close> sync show ?thesis
        by (cases chosen) (simp_all add: UpdateApp_def Let_def del: not_None_eq)
    qed (simp add: UpdateApp_def Inr)
  qed (simp add: UpdateApp_def)
qed

lemma reconcile_pods_total:
  assumes "reconcilable env app" and "\<forall>p \<in> set pods. 0 \<le> ordinal p"
  shows "reconcile_pods env (PodController env) app pods s \<noteq> None"
proof -
  obtain e t where "UpdateApp env (PodController env) (Some app) pods s = Some (e, t)"
    using UpdateApp_total [OF assms] by fastforce
  then have "sync_and_requeue env (PodController env) app pods s \<noteq> None"
    by (cases e) (auto simp: sync_and_requeue_def split: prod.splits)
  then obtain res err u where sync: "sync_and_requeue env (PodController env) app pods s = Some ((res, err), u)"
    by fastforce
  have fin: "remove_finalizer env app pods u \<noteq> None" for u
  proof -
    obtain x v where "write_app env (app\<lparr>a_finalizers := filter (\<lambda>v. v \<noteq> app_finalizer) (a_finalizers app)\<rparr>) u = Some (x, v)"
      using write_app_total by fastforce
    then show ?thesis by (simp add: remove_finalizer_def Let_def)
  qed
  obtain e' t' where "write_app env (app\<lparr>a_spec := (a_spec app)\<lparr>sp_replicas := Some 0\<rparr>\<rparr>) s = Some (e', t')"
    using write_app_total by fastforce
  moreover obtain v where "remove_finalizer env app pods u = Some v" using fin by blast
  ultimately show ?thesis using sync by (cases err) (simp_all add: reconcile_pods_def)
qed

text \<open>
  \<open>Reconcile\<close> returns, whatever the cluster answers, if every App the lister may return has a
  name, can be encoded, with a template, has a history limit that is not negative and the spec of
  \<open>recreating\_spec\<close>: replicas given and pods updated by deletion.  The filter on the pods'
  names keeps pods without an ordinal away from the arrangement.
\<close>

theorem Reconcile_returns:
  assumes "claims_filtered env"
    and "\<And>app. app_lister_Get env ns n s = Inr app \<Longrightarrow> reconcilable env app"
  shows "Reconcile env (PodController env) ns n s \<noteq> None"
proof (cases "app_lister_Get env ns n s")
  case (Inr app)
  have ok: "reconcilable env app" by (rule assms(2) [OF Inr])
  have pods: "reconcile_pods env (PodController env) app pods t' \<noteq> None"
    if "getAppPods env app sel t = (Inr pods, t')" for sel t t' pods
    by (rule reconcile_pods_total [OF ok getAppPods_ordinals [OF assms(1) _ that]])
      (use ok in \<open>simp add: reconcilable_def\<close>)
  obtain e' u where "write_app env (app\<lparr>a_finalizers := a_finalizers app @ [app_finalizer]\<rparr>) s = Some (e', u)"
    using write_app_total by fastforce
  then show ?thesis
    using Inr pods by (auto simp: Reconcile_def split: sum.splits prod.splits option.splits simp del: not_None_eq)
qed (simp add: Reconcile_def)

section \<open>Concrete runs\<close>

lemma single_app_guarded:
  "\<exists>s'. Reconcile sample_env (PodController sample_env) ''ns'' ''web-site'' sample_sys = Some ((no_requeue, None), s')"
  by (simp add: Reconcile_def app_lister_Get_def sample_env_def write_app_def put_app_def retry_on_conflict_def
      app_Update_def Let_def eval_nat_numeral)

lemma sample_reconcilable: "reconcilable sample_env sample_app"
  by (auto simp: reconcilable_def recreating_spec_def claims_ready_def in_place_allowed_def sample_rolling_def
      history_limit_def restores_template_only_def ApplyRevision_def sample_env_def getAppPatch_def
      json_field_def)

theorem Reconcile_returns_witness:
  "Reconcile sample_env (PodController sample_env) ''ns'' ''web-site'' sample_sys \<noteq> None"
proof (rule Reconcile_returns)
  show "claims_filtered sample_env" by (simp add: claims_filtered_def sample_env_def)
next
  fix app assume "app_lister_Get sample_env ''ns'' ''web-site'' sample_sys = Inr app"
  then have "app = sample_app" by (simp add: app_lister_Get_def sample_env_def)
  then show "reconcilable sample_env app" by (simp add: sample_reconcilable)
qed

theorem Reconcile_one_action_witness:
  "\<exists>res s'. Reconcile sample_env (PodController sample_env) ''ns'' ''web-site'' sample_sys = Some (res, s') \<and>
     length (lifecycle (calls_between sample_sys s')) \<le> 1"
proof -
  obtain res s' where run: "Reconcile sample_env (PodController sample_env) ''ns'' ''web-site'' sample_sys = Some (res, s')"
    using single_app_guarded by blast
  have "length (lifecycle (calls_between sample_sys s')) \<le> 1"
    by (rule Reconcile_one_action [OF run]) (auto simp: app_lister_Get_def sample_env_def)
  with run show ?thesis by blast
qed

theorem Reconcile_never_requeues_later_witness:
  "\<exists>res s'. Reconcile sample_env (PodController sample_env) ''ns'' ''web-site'' sample_sys = Some ((res, None), s') \<and>
     res_requeue_after res = 0"
proof -
  obtain s' where run: "Reconcile sample_env (PodController sample_env) ''ns'' ''web-site'' sample_sys = Some ((no_requeue, None), s')"
    using single_app_guarded by blast
  from Reconcile_never_requeues_later [OF run] run show ?thesis by blast
qed

end
