(* ===== verification/Gang_Scheduler.thy ===== *)
theory Gang_Scheduler
  imports Samples Go_Sort "HOL-Library.List_Lexorder" "HOL-Library.Char_ord"
begin

text \<open>
  \<open>deployer/schedule\_plugin/pkg/plugin/gang/gang.go\<close>: the gang scheduling plugin.  Pods that
  carry a gang label are permitted only when enough pods of the gang run, are permitted or
  wait; then the waiting pods of the gang are allowed together.

  The scheduler framework is not modelled: the pods that wait when a function iterates over
  them, the answer of the pod lister and the clock are arguments, and what the plugin tells
  the framework about a waiting pod is a list of signals.  The maps of the plugin are
  \<open>gang\_state\<close>; a set of pod keys is a list without duplicates.  The texts of the statuses
  are left out.
\<close>

definition label_gang_name :: string where
  "label_gang_name = ''gang.unicore.mcyou.cn/name''"

definition label_gang_available :: string where
  "label_gang_available = ''gang.unicore.mcyou.cn/available-count''"

definition gang_expiration :: duration where
  "gang_expiration = 300 * second"

record gang_state =
  gs_created :: "string \<rightharpoonup> gotime"
  gs_permitted_at :: "string \<rightharpoonup> gotime"
  gs_permitted :: "string \<rightharpoonup> string list"
  gs_rejected :: "string \<rightharpoonup> bool"

definition new_gang_state :: gang_state where
  "new_gang_state =
     \<lparr>gs_created = Map.empty, gs_permitted_at = Map.empty, gs_permitted = Map.empty,
      gs_rejected = Map.empty\<rparr>"

datatype signal = Allowed pod | Rejected pod

type_synonym gang_lister = "string \<Rightarrow> go_error + pod list"

abbreviation gang_of :: "pod \<Rightarrow> string" where
  "gang_of p \<equiv> map_get (p_labels p) label_gang_name"

abbreviation available_of :: "pod \<Rightarrow> string" where
  "available_of p \<equiv> map_get (p_labels p) label_gang_available"

definition pod_key :: "pod \<Rightarrow> string" where
  "pod_key p = p_namespace p @ ''/'' @ p_name p"

section \<open>Helpers of the plugin\<close>

definition setPermittedInPodMap :: "string \<Rightarrow> pod \<Rightarrow> gang_state \<Rightarrow> gang_state" where
  "setPermittedInPodMap gang p st =
     (let permitted = (case gs_permitted st gang of None \<Rightarrow> [] | Some ks \<Rightarrow> ks)
      in st\<lparr>gs_permitted := (gs_permitted st)(gang \<mapsto> List.insert (pod_key p) permitted)\<rparr>)"

definition getWaitingPodsInGang :: "string \<Rightarrow> pod list \<Rightarrow> pod list" where
  "getWaitingPodsInGang gang waiting = filter (\<lambda>p. gang_of p = gang) waiting"

definition getRunningAndPendingPodsInGang ::
  "gang_lister \<Rightarrow> string \<Rightarrow> go_error + pod list \<times> pod list" where
  "getRunningAndPendingPodsInGang lister gang =
     (case lister gang of
        Inl err \<Rightarrow> Inl err
      | Inr pods \<Rightarrow> Inr (filter (\<lambda>p. p_phase p = PodRunning) pods, filter (\<lambda>p. p_phase p = PodPending) pods))"

section \<open>PreFilter, Unreserve and CleanUp\<close>

definition PreFilter :: "gang_lister \<Rightarrow> gang_state \<Rightarrow> pod \<Rightarrow> fw_code" where
  "PreFilter lister st p =
     (if gang_of p = '''' \<or> available_of p = '''' then Success
      else if gs_rejected st (gang_of p) \<noteq> None then UnschedulableAndUnresolvable
      else case getRunningAndPendingPodsInGang lister (gang_of p) of
             Inl err \<Rightarrow> Error
           | Inr (running, pending) \<Rightarrow>
               (case atoi (available_of p) of
                  None \<Rightarrow> Error
                | Some availableCnt \<Rightarrow>
                    if int (length running + length pending) < availableCnt then Unschedulable else Success))"

definition Unreserve :: "pod list \<Rightarrow> pod \<Rightarrow> gang_state \<Rightarrow> signal list \<times> gang_state" where
  "Unreserve waiting p st =
     (if gang_of p = '''' then ([], st)
      else (map Rejected (getWaitingPodsInGang (gang_of p) waiting),
            st\<lparr>gs_rejected := (gs_rejected st)(gang_of p \<mapsto> True)\<rparr>))"

definition gang_expired :: "gotime \<Rightarrow> gang_state \<Rightarrow> string \<Rightarrow> bool" where
  "gang_expired now st gang =
     (case gs_permitted_at st gang of
        None \<Rightarrow> False
      | Some t \<Rightarrow> \<not> time_is_zero t \<and> time_before (time_add t gang_expiration) now)"

text \<open>
  One round of the endless loop, under the lock; \<open>now\<close> is the reading of the clock when the
  round visits a gang.
\<close>

definition CleanUp_round :: "(string \<Rightarrow> gotime) \<Rightarrow> gang_state \<Rightarrow> gang_state" where
  "CleanUp_round now st =
     \<lparr>gs_created = (\<lambda>g. if gang_expired (now g) st g then None else gs_created st g),
      gs_permitted_at = (\<lambda>g. if gang_expired (now g) st g then None else gs_permitted_at st g),
      gs_permitted = (\<lambda>g. if gang_expired (now g) st g then None else gs_permitted st g),
      gs_rejected = (\<lambda>g. if gang_expired (now g) st g then None else gs_rejected st g)\<rparr>"

section \<open>Less\<close>

text \<open>The time of a pod's gang: the stored one, or the pod's own, which is then stored.\<close>

definition gang_time :: "pod \<Rightarrow> gang_state \<Rightarrow> gotime \<times> gang_state" where
  "gang_time p st =
     (if gang_of p \<noteq> '''' then
        (case gs_created st (gang_of p) of
           Some t \<Rightarrow> (t, st)
         | None \<Rightarrow> (p_creation p, st\<lparr>gs_created := (gs_created st)(gang_of p \<mapsto> p_creation p)\<rparr>))
      else (p_creation p, st))"

definition key_less :: "gotime \<times> string \<Rightarrow> gotime \<times> string \<Rightarrow> bool" where
  "key_less a b =
     (if fst a = fst b \<and> snd a \<noteq> '''' \<and> snd b \<noteq> '''' then snd a < snd b
      else time_before (fst a) (fst b))"

definition Less :: "pod \<Rightarrow> pod \<Rightarrow> gang_state \<Rightarrow> bool \<times> gang_state" where
  "Less p q st =
     (let (time1, st) = gang_time p st;
          (time2, st) = gang_time q st
      in (key_less (time1, gang_of p) (time2, gang_of q), st))"

section \<open>Permit\<close>

definition permitted_not_running :: "gang_state \<Rightarrow> string \<Rightarrow> pod list \<Rightarrow> nat" where
  "permitted_not_running st gang running =
     (case gs_permitted st gang of
        None \<Rightarrow> 0
      | Some ks \<Rightarrow> length (filter (\<lambda>k. k \<notin> set (map pod_key running)) ks))"

text \<open>
  What the first part of \<open>Permit\<close> reads decides: pass a pod without a gang, refuse, wait, or
  admit the whole gang.
\<close>

datatype decision = Pass | Refuse fw_code | WaitForGang | AdmitGang

definition Permit_decide :: "gang_lister \<Rightarrow> pod list \<Rightarrow> gang_state \<Rightarrow> pod \<Rightarrow> decision" where
  "Permit_decide lister waiting st p =
     (let gang = gang_of p in
      if gang = '''' \<or> available_of p = '''' then Pass
      else if gs_rejected st gang \<noteq> None then Refuse UnschedulableAndUnresolvable
      else case getRunningAndPendingPodsInGang lister gang of
             Inl err \<Rightarrow> Refuse Error
           | Inr (running, _) \<Rightarrow>
               (case atoi (available_of p) of
                  None \<Rightarrow> Refuse Error
                | Some availableCnt \<Rightarrow>
                    if int (length (getWaitingPodsInGang gang waiting) + permitted_not_running st gang running +
                            length running) + 1 < availableCnt
                    then WaitForGang else AdmitGang))"

text \<open>The second part runs under the lock; the waiting pods may have changed since.\<close>

definition Permit_commit :: "pod list \<Rightarrow> pod \<Rightarrow> gang_state \<Rightarrow> signal list \<times> gang_state" where
  "Permit_commit waiting p st =
     (let gang = gang_of p;
          admitted = getWaitingPodsInGang gang waiting;
          st = fold (setPermittedInPodMap gang) admitted st
      in (map Allowed admitted, setPermittedInPodMap gang p st))"

text \<open>
  The decision sees the state \<open>seen\<close>; when the lock is taken the state is \<open>st\<close>, as other
  goroutines of the scheduler may have left it in the meantime.
\<close>

definition Permit ::
  "gang_lister \<Rightarrow> pod list \<Rightarrow> gang_state \<Rightarrow> pod list \<Rightarrow> pod \<Rightarrow> gang_state \<Rightarrow>
   (fw_code \<times> duration) \<times> signal list \<times> gang_state" where
  "Permit lister waiting seen waiting' p st =
     (case Permit_decide lister waiting seen p of
        Pass \<Rightarrow> ((Success, 0), [], st)
      | Refuse code \<Rightarrow> ((code, 0), [], st)
      | WaitForGang \<Rightarrow> ((Wait, 60 * second), [], st)
      | AdmitGang \<Rightarrow> (case Permit_commit waiting' p st of (sigs, st) \<Rightarrow> ((Success, 0), sigs, st)))"

section \<open>The plugin as a transition system\<close>

text \<open>
  The scheduler calls the plugin from several goroutines.  Every change of the state is one of
  these steps: a gang's first time is stored, a gang is admitted (after a decision that may
  be older), a gang is rejected, or a round of the clean-up runs.
\<close>

inductive gang_step :: "gang_state \<Rightarrow> gang_state \<Rightarrow> bool" where
  order: "gang_step st (snd (gang_time p st))"
| admit: "gang_step st (snd (Permit_commit waiting p st))"
| reject: "gang_step st (snd (Unreserve waiting p st))"
| clean: "gang_step st (CleanUp_round now st)"

abbreviation gang_steps :: "gang_state \<Rightarrow> gang_state \<Rightarrow> bool" where
  "gang_steps \<equiv> gang_step\<^sup>*\<^sup>*"

inductive_cases gang_stepE: "gang_step st st'"

section \<open>Lemmas\<close>

definition permitted_keys :: "gang_state \<Rightarrow> string \<Rightarrow> string set" where
  "permitted_keys st gang = (case gs_permitted st gang of None \<Rightarrow> {} | Some ks \<Rightarrow> set ks)"

lemma setPermitted_keys [simp]:
  "permitted_keys (setPermittedInPodMap gang p st) g =
     (if g = gang then insert (pod_key p) (permitted_keys st g) else permitted_keys st g)"
  by (auto simp: permitted_keys_def setPermittedInPodMap_def Let_def split: option.splits)

lemma setPermitted_frame [simp]:
  "gs_created (setPermittedInPodMap gang p st) = gs_created st"
  "gs_permitted_at (setPermittedInPodMap gang p st) = gs_permitted_at st"
  "gs_rejected (setPermittedInPodMap gang p st) = gs_rejected st"
  by (simp_all add: setPermittedInPodMap_def Let_def)

lemma fold_setPermitted:
  "permitted_keys (fold (setPermittedInPodMap gang) ps st) g =
     (if g = gang then pod_key ` set ps \<union> permitted_keys st g else permitted_keys st g)"
  "gs_created (fold (setPermittedInPodMap gang) ps st) = gs_created st"
  "gs_permitted_at (fold (setPermittedInPodMap gang) ps st) = gs_permitted_at st"
  "gs_rejected (fold (setPermittedInPodMap gang) ps st) = gs_rejected st"
  by (induction ps arbitrary: st) auto

lemma Permit_commit_spec:
  assumes "Permit_commit waiting p st = (sigs, st')"
  shows "sigs = map Allowed (getWaitingPodsInGang (gang_of p) waiting)"
    and "permitted_keys st' g =
      (if g = gang_of p
       then pod_key ` set (p # getWaitingPodsInGang (gang_of p) waiting) \<union> permitted_keys st g
       else permitted_keys st g)"
    and "gs_created st' = gs_created st" and "gs_permitted_at st' = gs_permitted_at st"
    and "gs_rejected st' = gs_rejected st"
  using assms by (auto simp: Permit_commit_def Let_def fold_setPermitted)

text \<open>The time at which a gang is permitted is never stored, so that the clean-up finds nothing.\<close>

lemma gang_step_no_permit_time:
  "gang_step st st' \<Longrightarrow> gs_permitted_at st = Map.empty \<Longrightarrow> gs_permitted_at st' = Map.empty"
proof (induction rule: gang_step.induct)
  case (order st p)
  then show ?case by (simp add: gang_time_def split: option.splits)
next
  case (admit st waiting p)
  then show ?case using Permit_commit_spec(4) [OF prod.collapse [symmetric]] by metis
next
  case (reject st waiting p)
  then show ?case by (simp add: Unreserve_def)
next
  case (clean st now)
  then show ?case by (auto simp: CleanUp_round_def)
qed

lemma reachable_no_permit_time: "gang_steps new_gang_state st \<Longrightarrow> gs_permitted_at st = Map.empty"
  by (induction rule: rtranclp_induct) (auto simp: new_gang_state_def dest: gang_step_no_permit_time)

lemma CleanUp_round_idle: "gs_permitted_at st = Map.empty \<Longrightarrow> CleanUp_round now st = st"
  by (simp add: CleanUp_round_def gang_expired_def)

lemma gang_step_monotone:
  assumes "gang_step st st'" and "gs_permitted_at st = Map.empty"
  shows "gs_rejected st \<subseteq>\<^sub>m gs_rejected st' \<or> dom (gs_rejected st) \<subseteq> dom (gs_rejected st')"
    and "permitted_keys st g \<subseteq> permitted_keys st' g"
  using assms
proof (induction rule: gang_step.induct)
  case (order st p)
  { case 1 then show ?case by (auto simp: gang_time_def split: option.splits)
  next case 2 then show ?case by (auto simp: gang_time_def permitted_keys_def split: option.splits) }
next
  case (admit st waiting p)
  { case 1 then show ?case using Permit_commit_spec(5) [OF prod.collapse [symmetric]] by fastforce
  next case 2 then show ?case using Permit_commit_spec(2) [OF prod.collapse [symmetric]] by fastforce }
next
  case (reject st waiting p)
  { case 1 then show ?case by (auto simp: Unreserve_def)
  next case 2 then show ?case by (auto simp: Unreserve_def permitted_keys_def) }
next
  case (clean st now)
  { case 1 then show ?case by (simp add: CleanUp_round_idle)
  next case 2 then show ?case by (simp add: CleanUp_round_idle) }
qed

lemma gang_steps_keep:
  assumes "gang_steps st st'" and "gs_permitted_at st = Map.empty"
  shows "gs_permitted_at st' = Map.empty \<and> dom (gs_rejected st) \<subseteq> dom (gs_rejected st') \<and>
    permitted_keys st g \<subseteq> permitted_keys st' g"
  using assms(1)
proof (induction rule: rtranclp_induct)
  case base
  then show ?case using assms(2) by simp
next
  case (step y z)
  from gang_step_monotone(1) [OF step(2)] step(3) have "dom (gs_rejected y) \<subseteq> dom (gs_rejected z)"
    by (auto simp: map_le_def dom_def)
  with gang_step_monotone(2) [OF step(2), of g] gang_step_no_permit_time [OF step(2)] step(3)
  show ?case by blast
qed

text \<open>The set of permitted keys is kept as a list without duplicates.\<close>

definition keys_distinct :: "gang_state \<Rightarrow> bool" where
  "keys_distinct st \<longleftrightarrow> (\<forall>g ks. gs_permitted st g = Some ks \<longrightarrow> distinct ks)"

lemma keys_distinct_set: "keys_distinct st \<Longrightarrow> keys_distinct (setPermittedInPodMap gang p st)"
  by (auto simp: keys_distinct_def setPermittedInPodMap_def Let_def split: option.splits)

lemma keys_distinct_fold: "keys_distinct st \<Longrightarrow> keys_distinct (fold (setPermittedInPodMap gang) ps st)"
  by (induction ps arbitrary: st) (simp_all add: keys_distinct_set)

lemma gang_step_distinct: "gang_step st st' \<Longrightarrow> keys_distinct st \<Longrightarrow> keys_distinct st'"
proof (induction rule: gang_step.induct)
  case (admit st waiting p)
  then show ?case by (simp add: Permit_commit_def Let_def keys_distinct_set keys_distinct_fold)
qed (auto simp: keys_distinct_def gang_time_def Unreserve_def CleanUp_round_def split: option.splits if_splits)

lemma new_gang_distinct [simp]: "keys_distinct new_gang_state"
  by (simp add: keys_distinct_def new_gang_state_def)

lemma permitted_not_running_card:
  assumes "keys_distinct st"
  shows "permitted_not_running st gang running = card (permitted_keys st gang - pod_key ` set running)"
proof (cases "gs_permitted st gang")
  case None
  then show ?thesis by (simp add: permitted_not_running_def permitted_keys_def)
next
  case (Some ks)
  with assms have "distinct ks" by (simp add: keys_distinct_def)
  then have "length (filter (\<lambda>k. k \<notin> set (map pod_key running)) ks) = card (set ks - pod_key ` set running)"
    by (subst distinct_card [symmetric]) (auto intro: arg_cong [where f = card])
  with Some show ?thesis by (simp add: permitted_not_running_def permitted_keys_def)
qed

section \<open>The order of the queue\<close>

text \<open>
  \<open>key\_less\<close> is a strict order; between pods of gangs it is the lexicographic order, which is
  one a queue can rely on.
\<close>

interpretation queue_order: strict_order key_less
  by unfold_locales (auto simp: key_less_def time_before_def split: if_splits)

definition gang_less :: "gotime \<times> string \<Rightarrow> gotime \<times> string \<Rightarrow> bool" where
  "gang_less a b \<longleftrightarrow> fst a < fst b \<or> fst a = fst b \<and> snd a < snd b"

interpretation gang_order: sort_less gang_less
  by unfold_locales (auto simp: gang_less_def)

lemma key_less_gangs: "snd a \<noteq> '''' \<Longrightarrow> snd b \<noteq> '''' \<Longrightarrow> key_less a b = gang_less a b"
  by (auto simp: key_less_def gang_less_def time_before_def)

text \<open>Once the times of their gangs are stored, pods are compared by fixed keys.\<close>

definition gang_known :: "gang_state \<Rightarrow> pod \<Rightarrow> bool" where
  "gang_known st p \<longleftrightarrow> gang_of p = '''' \<or> gs_created st (gang_of p) \<noteq> None"

definition queue_key :: "gang_state \<Rightarrow> pod \<Rightarrow> gotime \<times> string" where
  "queue_key st p =
     (case gs_created st (gang_of p) of
        Some t \<Rightarrow> if gang_of p = '''' then p_creation p else t
      | None \<Rightarrow> p_creation p, gang_of p)"

lemma Less_known:
  "gang_known st p \<Longrightarrow> gang_known st q \<Longrightarrow> Less p q st = (key_less (queue_key st p) (queue_key st q), st)"
  by (auto simp: Less_def gang_time_def gang_known_def queue_key_def Let_def split: option.splits)

lemma Less_stores:
  assumes "Less p q st = (b, st')"
  shows "gang_known st' p \<and> gang_known st' q \<and> gs_created st \<subseteq>\<^sub>m gs_created st'"
  using assms
  by (auto simp: Less_def gang_time_def gang_known_def Let_def map_le_def split: option.splits if_splits)

section \<open>Sample pods\<close>

text \<open>A pod of a gang; both labels are set, to the empty text for a pod without a gang.\<close>

definition gang_pod :: "string \<Rightarrow> string \<Rightarrow> string \<Rightarrow> gotime \<Rightarrow> pod" where
  "gang_pod name gang available t =
     blank_pod\<lparr>p_name := name, p_namespace := ''ns'', p_creation := t,
       p_labels := Some [label_gang_name \<mapsto> gang, label_gang_available \<mapsto> available]\<rparr>"

lemma gang_pod_simps [simp]:
  "gang_of (gang_pod name gang available t) = gang"
  "available_of (gang_pod name gang available t) = available"
  "p_creation (gang_pod name gang available t) = t"
  "pod_key (gang_pod name gang available t) = ''ns/'' @ name"
  by (simp_all add: gang_pod_def blank_pod_def pod_key_def label_gang_name_def label_gang_available_def)

lemma atoi_two: "atoi ''2'' = Some 2"
  by (simp add: atoi_def digit_val_def Let_def min_int64_def max_int64_def)

section \<open>Properties\<close>

text \<open>
  C11.  A gang is admitted together or not at all: when \<open>Permit\<close> tells the framework anything or
  changes the state, then in the state that it saw the gang was not rejected and the pods that
  run, that were permitted, that wait and the pod itself reach the gang's available count; and
  then exactly the pods of this gang that wait when the lock is taken are allowed, they and the
  pod are recorded, and no other gang is touched, whatever happened before the lock was taken.
\<close>

theorem Permit_admits_gang:
  assumes "Permit lister waiting seen waiting' p st = ((code, d), sigs, st')" and "sigs \<noteq> [] \<or> st' \<noteq> st"
  shows "code = Success \<and> gs_rejected seen (gang_of p) = None \<and>
    (\<exists>running pending n. getRunningAndPendingPodsInGang lister (gang_of p) = Inr (running, pending) \<and>
       atoi (available_of p) = Some n \<and>
       n \<le> int (length (getWaitingPodsInGang (gang_of p) waiting)) +
            int (permitted_not_running seen (gang_of p) running) + int (length running) + 1) \<and>
    sigs = map Allowed (filter (\<lambda>q. gang_of q = gang_of p) waiting') \<and>
    (\<forall>g. permitted_keys st' g =
       (if g = gang_of p
        then pod_key ` set (p # filter (\<lambda>q. gang_of q = gang_of p) waiting') \<union> permitted_keys st g
        else permitted_keys st g))"
proof -
  from assms have decide: "Permit_decide lister waiting seen p = AdmitGang"
    and commit: "Permit_commit waiting' p st = (sigs, st')" and code: "code = Success"
    by (auto simp: Permit_def split: decision.splits prod.splits)
  from decide have "gs_rejected seen (gang_of p) = None"
    "\<exists>running pending n. getRunningAndPendingPodsInGang lister (gang_of p) = Inr (running, pending) \<and>
       atoi (available_of p) = Some n \<and>
       n \<le> int (length (getWaitingPodsInGang (gang_of p) waiting)) +
            int (permitted_not_running seen (gang_of p) running) + int (length running) + 1"
    by (auto simp: Permit_decide_def Let_def not_less split: if_splits sum.splits option.splits)
  with code Permit_commit_spec(1,2) [OF commit] show ?thesis
    by (simp add: getWaitingPodsInGang_def)
qed

theorem Permit_admits_gang_witness:
  "\<exists>st. snd (snd (Permit (\<lambda>_. Inr []) [gang_pod ''b'' ''g'' ''2'' 7] new_gang_state [gang_pod ''b'' ''g'' ''2'' 7]
        (gang_pod ''a'' ''g'' ''2'' 5) (setPermittedInPodMap ''g'' (gang_pod ''c'' ''g'' ''2'' 8) new_gang_state))) = st \<and>
     permitted_keys st ''g'' = {''ns/a'', ''ns/b'', ''ns/c''}"
proof -
  define r where "r = Permit (\<lambda>_. Inr []) [gang_pod ''b'' ''g'' ''2'' 7] new_gang_state [gang_pod ''b'' ''g'' ''2'' 7]
    (gang_pod ''a'' ''g'' ''2'' 5) (setPermittedInPodMap ''g'' (gang_pod ''c'' ''g'' ''2'' 8) new_gang_state)"
  have r: "r = ((Success, 0), [Allowed (gang_pod ''b'' ''g'' ''2'' 7)], snd (snd r))"
    by (simp add: r_def Permit_def Permit_decide_def Permit_commit_def getWaitingPodsInGang_def Let_def
        new_gang_state_def getRunningAndPendingPodsInGang_def permitted_not_running_def atoi_two)
  have "permitted_keys (snd (snd r)) ''g'' = {''ns/a'', ''ns/b'', ''ns/c''}"
    using Permit_admits_gang [OF r [unfolded r_def], folded r_def]
    by (auto simp: permitted_keys_def new_gang_state_def setPermittedInPodMap_def)
  then show ?thesis by (simp add: r_def)
qed

text \<open>
  C33.  Rejected is rejected for good: in every state the plugin can reach, a gang that was
  rejected once stays rejected whatever happens later, the clean-up included, so that its pods
  fail both \<open>PreFilter\<close> and the decision of \<open>Permit\<close>.
\<close>

theorem rejected_gang_stays_rejected:
  assumes "gang_steps new_gang_state st" and "gs_rejected st (gang_of p) \<noteq> None" and "gang_steps st st'"
    and "gang_of p \<noteq> ''''" and "available_of p \<noteq> ''''"
  shows "PreFilter lister st' p = UnschedulableAndUnresolvable \<and>
    Permit_decide lister waiting st' p = Refuse UnschedulableAndUnresolvable"
proof -
  have "dom (gs_rejected st) \<subseteq> dom (gs_rejected st')"
    using gang_steps_keep [OF assms(3) reachable_no_permit_time [OF assms(1)]] by blast
  with assms(2) have "gs_rejected st' (gang_of p) \<noteq> None" by blast
  with assms(4,5) show ?thesis by (simp add: PreFilter_def Permit_decide_def Let_def)
qed

theorem rejected_gang_stays_rejected_witness:
  "PreFilter (\<lambda>_. Inr []) (snd (Unreserve [] (gang_pod ''a'' ''g'' ''2'' 5) new_gang_state))
     (gang_pod ''b'' ''g'' ''2'' 7) = UnschedulableAndUnresolvable"
  using rejected_gang_stays_rejected
    [of "snd (Unreserve [] (gang_pod ''a'' ''g'' ''2'' 5) new_gang_state)" "gang_pod ''b'' ''g'' ''2'' 7"
      "snd (Unreserve [] (gang_pod ''a'' ''g'' ''2'' 5) new_gang_state)" "\<lambda>_. Inr []"]
  by (simp add: Unreserve_def gang_step.reject [of new_gang_state "[]" "gang_pod ''a'' ''g'' ''2'' 5", unfolded Unreserve_def, simplified] r_into_rtranclp)

text \<open>
  The clean-up cleans nothing: in every reachable state no gang has a time of permission,
  a round of \<open>CleanUp\<close> changes nothing, and the pods recorded as permitted stay recorded.
\<close>

theorem CleanUp_never_cleans:
  assumes "gang_steps new_gang_state st"
  shows "CleanUp_round now st = st \<and>
    (\<forall>st' g. gang_steps st st' \<longrightarrow> permitted_keys st g \<subseteq> permitted_keys st' g)"
  using CleanUp_round_idle gang_steps_keep reachable_no_permit_time [OF assms] by blast

theorem CleanUp_never_cleans_witness:
  "CleanUp_round (\<lambda>_. 400) (snd (Permit_commit [] (gang_pod ''a'' ''g'' ''2'' 5) new_gang_state)) =
     snd (Permit_commit [] (gang_pod ''a'' ''g'' ''2'' 5) new_gang_state)"
proof -
  have "gang_steps new_gang_state (snd (Permit_commit [] (gang_pod ''a'' ''g'' ''2'' 5) new_gang_state))"
    by (rule r_into_rtranclp) (rule gang_step.admit)
  from CleanUp_never_cleans [OF this] show ?thesis by blast
qed

text \<open>
  What \<open>Permit\<close> counts: in every reachable state the number of permitted pods that do not
  run yet is the number of distinct recorded pods among them, so no pod counts twice.
\<close>

theorem permitted_not_running_counts:
  assumes "gang_steps new_gang_state st"
  shows "permitted_not_running st gang running = card (permitted_keys st gang - pod_key ` set running)"
proof -
  from assms have "keys_distinct st"
    by (induction rule: rtranclp_induct) (auto intro: gang_step_distinct new_gang_distinct)
  then show ?thesis by (rule permitted_not_running_card)
qed

theorem permitted_not_running_counts_witness:
  "permitted_not_running (snd (Permit_commit [] (gang_pod ''a'' ''g'' ''2'' 5) new_gang_state)) ''g'' [] = 1"
proof -
  have "gang_steps new_gang_state (snd (Permit_commit [] (gang_pod ''a'' ''g'' ''2'' 5) new_gang_state))"
    by (rule r_into_rtranclp) (rule gang_step.admit)
  from permitted_not_running_counts [OF this, of "''g''" "[]"] show ?thesis
    by (simp add: Permit_commit_def Let_def getWaitingPodsInGang_def)
       (simp add: permitted_keys_def new_gang_state_def)
qed

text \<open>
  A decision can be overtaken: a pod that \<open>Permit\<close> decided to admit before the gang was
  rejected still gets the whole waiting gang allowed afterwards, because the rejection is not
  looked at again under the lock.
\<close>

theorem admission_overtakes_rejection:
  assumes "Permit_decide lister waiting st p = AdmitGang"
    and "Unreserve waiting q st = (sigs, st1)" and "gang_of q = gang_of p"
    and "Permit_commit waiting' p st1 = (sigs', st2)"
  shows "gs_rejected st2 (gang_of p) \<noteq> None \<and> set sigs' = Allowed ` {r \<in> set waiting'. gang_of r = gang_of p}"
proof -
  have "gang_of p \<noteq> ''''" using assms(1) by (auto simp: Permit_decide_def Let_def)
  with assms(2,3) have "gs_rejected st1 (gang_of p) \<noteq> None" by (auto simp: Unreserve_def)
  with Permit_commit_spec(1,5) [OF assms(4)] show ?thesis by (auto simp: getWaitingPodsInGang_def)
qed

theorem admission_overtakes_rejection_witness:
  "gs_rejected (snd (Permit_commit [gang_pod ''b'' ''g'' ''2'' 7] (gang_pod ''a'' ''g'' ''2'' 5)
     (snd (Unreserve [gang_pod ''b'' ''g'' ''2'' 7] (gang_pod ''c'' ''g'' ''2'' 9) new_gang_state)))) ''g'' \<noteq> None"
proof -
  have "Permit_decide (\<lambda>_. Inr []) [gang_pod ''b'' ''g'' ''2'' 7] new_gang_state (gang_pod ''a'' ''g'' ''2'' 5) = AdmitGang"
    by (simp add: Permit_decide_def getWaitingPodsInGang_def Let_def new_gang_state_def
        getRunningAndPendingPodsInGang_def permitted_not_running_def atoi_two)
  from admission_overtakes_rejection [OF this prod.collapse [symmetric] _ prod.collapse [symmetric],
      of "gang_pod ''c'' ''g'' ''2'' 9"]
  show ?thesis by simp
qed

text \<open>The scheduling queue asks for one comparison after the other; the answers and the state after them.\<close>

fun compare_all :: "(pod \<times> pod) list \<Rightarrow> gang_state \<Rightarrow> bool list \<times> gang_state" where
  "compare_all [] st = ([], st)"
| "compare_all ((p, q) # cs) st =
     (case Less p q st of
        (b, st) \<Rightarrow> (case compare_all cs st of (bs, st) \<Rightarrow> (b # bs, st)))"

definition compared :: "(pod \<times> pod) list \<Rightarrow> pod set" where
  "compared cs = fst ` set cs \<union> snd ` set cs"

text \<open>A comparison, the first of a gang too, goes by the keys of the state that it leaves; later ones keep them.\<close>

lemma gang_time_key:
  "gang_time p st = (t, st') \<Longrightarrow> queue_key st' p = (t, gang_of p) \<and> gang_known st' p \<and> gs_created st \<subseteq>\<^sub>m gs_created st'"
  by (auto simp: gang_time_def queue_key_def gang_known_def map_le_def split: option.splits if_splits)

lemma known_later: "gang_known st p \<Longrightarrow> gs_created st \<subseteq>\<^sub>m gs_created st' \<Longrightarrow> gang_known st' p"
  by (auto simp: gang_known_def map_le_def dom_def)

lemma queue_key_later: "gang_known st p \<Longrightarrow> gs_created st \<subseteq>\<^sub>m gs_created st' \<Longrightarrow> queue_key st' p = queue_key st p"
  by (force simp: gang_known_def queue_key_def map_le_def split: option.splits)

lemma Less_by_keys:
  assumes "Less p q st = (b, st')"
  shows "b = key_less (queue_key st' p) (queue_key st' q)"
proof -
  obtain t1 st1 where p: "gang_time p st = (t1, st1)" by (cases "gang_time p st")
  obtain t2 st2 where q: "gang_time q st1 = (t2, st2)" by (cases "gang_time q st1")
  from assms p q have st': "st' = st2" "b = key_less (t1, gang_of p) (t2, gang_of q)" by (simp_all add: Less_def)
  from gang_time_key [OF p] gang_time_key [OF q] have "queue_key st2 p = (t1, gang_of p)" "queue_key st2 q = (t2, gang_of q)"
    using queue_key_later [of st1 p st2] by simp_all
  with st' show ?thesis by simp
qed

lemma compare_all_keys:
  "compare_all cs st = (bs, st') \<Longrightarrow>
     gs_created st \<subseteq>\<^sub>m gs_created st' \<and> (\<forall>p \<in> compared cs. gang_known st' p) \<and>
     bs = map (\<lambda>(p, q). key_less (queue_key st' p) (queue_key st' q)) cs"
proof (induction cs arbitrary: st bs)
  case (Cons c cs)
  obtain p q where c: "c = (p, q)" by (cases c)
  obtain b st1 where first: "Less p q st = (b, st1)" by (cases "Less p q st")
  obtain bs' where rest: "compare_all cs st1 = (bs', st')" "bs = b # bs'"
    using Cons.prems c first by (auto split: prod.splits)
  note IH = Cons.IH [OF rest(1)]
  from Less_stores [OF first] have known: "gang_known st1 p" "gang_known st1 q" and le: "gs_created st \<subseteq>\<^sub>m gs_created st1"
    by blast+
  have "b = key_less (queue_key st' p) (queue_key st' q)"
    using Less_by_keys [OF first] IH queue_key_later [OF known(1), of st'] queue_key_later [OF known(2), of st'] by simp
  moreover have "gang_known st' p" "gang_known st' q" using known IH known_later by blast+
  moreover have "gs_created st \<subseteq>\<^sub>m gs_created st'" using le IH map_le_trans by blast
  ultimately show ?case using IH rest(2) c by (auto simp: compared_def)
qed (simp add: compared_def)

lemma Less_keys: "fst (Less p r st) = key_less (queue_key st p) (queue_key st r)" if "gang_known st p" "gang_of p \<noteq> gang_of r \<or> gang_known st r"
  using that by (auto simp: Less_def gang_time_def gang_known_def queue_key_def Let_def split: option.splits)

lemma Less_keys_right: "fst (Less r p st) = key_less (queue_key st r) (queue_key st p)" if "gang_known st p" "gang_of p \<noteq> gang_of r \<or> gang_known st r"
  using that by (auto simp: Less_def gang_time_def gang_known_def queue_key_def Let_def split: option.splits)

lemma same_gang_known: "gang_of p = gang_of q \<Longrightarrow> gang_known st p \<Longrightarrow> gang_known st q"
  by (simp add: gang_known_def)

lemma same_gang_key: "gang_of p = gang_of q \<Longrightarrow> gang_known st p \<Longrightarrow> gang_of p \<noteq> '''' \<Longrightarrow> queue_key st p = queue_key st q"
  by (auto simp: queue_key_def gang_known_def)

text \<open>
  C38.  Gangs queue together.  Take any comparisons, one after the other and from any state,
  also one in which the times of the gangs are not yet stored.  Every answer given is the one
  that the last state still gives; a pod that was compared and any other pod of its gang do not
  precede each other and compare alike with every third pod, in a gang or not; on the pods that
  were compared the order is irreflexive and transitive, and on those of them that belong to
  gangs it is a strict weak order, as a priority queue needs (for single pods among them it is
  not, see below).  Between the comparisons the times of gangs are not removed by \<open>CleanUp\<close>.
\<close>

theorem Less_keeps_gangs_together:
  assumes "compare_all cs st = (bs, st')"
  shows "bs = map (\<lambda>(p, q). fst (Less p q st')) cs \<and>
    (\<forall>p \<in> compared cs. \<forall>q. gang_of p \<noteq> '''' \<and> gang_of q = gang_of p \<longrightarrow>
       \<not> fst (Less p q st') \<and> \<not> fst (Less q p st') \<and>
       (\<forall>r. fst (Less p r st') = fst (Less q r st') \<and> fst (Less r p st') = fst (Less r q st'))) \<and>
    (\<forall>p \<in> compared cs. \<forall>q \<in> compared cs. \<forall>r \<in> compared cs.
       \<not> fst (Less p p st') \<and>
       (fst (Less p q st') \<and> fst (Less q r st') \<longrightarrow> fst (Less p r st')) \<and>
       (gang_of p \<noteq> '''' \<and> gang_of q \<noteq> '''' \<and> gang_of r \<noteq> '''' \<longrightarrow>
          fst (Less p r st') \<longrightarrow> fst (Less p q st') \<or> fst (Less q r st')))"
proof -
  from compare_all_keys [OF assms] have known: "gang_known st' p" if "p \<in> compared cs" for p using that by blast
  have less: "fst (Less p q st') = key_less (queue_key st' p) (queue_key st' q)" if "gang_known st' p" "gang_known st' q" for p q
    using that by (simp add: Less_known)
  have "bs = map (\<lambda>(p, q). fst (Less p q st')) cs"
  proof -
    have "(p, q) \<in> set cs \<Longrightarrow> gang_known st' p \<and> gang_known st' q" for p q
      by (intro conjI known) (force simp: compared_def)+
    with compare_all_keys [OF assms] less show ?thesis by (auto intro: map_cong)
  qed
  moreover have "\<not> fst (Less p q st') \<and> \<not> fst (Less q p st') \<and>
       (\<forall>r. fst (Less p r st') = fst (Less q r st') \<and> fst (Less r p st') = fst (Less r q st'))"
    if "p \<in> compared cs" "gang_of p \<noteq> ''''" "gang_of q = gang_of p" for p q
  proof -
    have pq: "gang_known st' p" "gang_known st' q" "queue_key st' p = queue_key st' q"
      using known [OF that(1)] that same_gang_known same_gang_key by metis+
    have third: "gang_of r = gang_of p \<Longrightarrow> gang_known st' r" for r using same_gang_known pq(1) by metis
    have "fst (Less p r st') = fst (Less q r st') \<and> fst (Less r p st') = fst (Less r q st')" for r
      using pq third [of r] that(3) Less_keys [of st' p r] Less_keys [of st' q r]
        Less_keys_right [of st' p r] Less_keys_right [of st' q r] by metis
    then show ?thesis using pq less queue_order.irrefl by simp
  qed
  moreover have "\<not> fst (Less p p st') \<and> (fst (Less p q st') \<and> fst (Less q r st') \<longrightarrow> fst (Less p r st'))"
    if "p \<in> compared cs" "q \<in> compared cs" "r \<in> compared cs" for p q r
    using that known less queue_order.irrefl queue_order.trans by metis
  moreover have "fst (Less p q st') \<or> fst (Less q r st')"
    if "p \<in> compared cs" "q \<in> compared cs" "r \<in> compared cs" "gang_of p \<noteq> ''''" "gang_of q \<noteq> ''''" "gang_of r \<noteq> ''''"
      "fst (Less p r st')" for p q r
  proof -
    have snd: "snd (queue_key st' a) = gang_of a" for a by (simp add: queue_key_def)
    from that(7) have "gang_less (queue_key st' p) (queue_key st' r)" using that(1-6) known less key_less_gangs snd by metis
    then have "gang_less (queue_key st' p) (queue_key st' q) \<or> gang_less (queue_key st' q) (queue_key st' r)"
      using gang_order.negatively_trans by blast
    then show ?thesis using that(1-6) known less key_less_gangs snd by metis
  qed
  ultimately show ?thesis by blast
qed

theorem Less_keeps_gangs_together_witness:
  "\<exists>st. compare_all [(gang_pod ''a'' ''g'' ''2'' 5, gang_pod ''c'' [] [] 6), (gang_pod ''b'' ''g'' ''2'' 7, gang_pod ''c'' [] [] 6)]
       new_gang_state = ([True, True], st) \<and>
     \<not> fst (Less (gang_pod ''a'' ''g'' ''2'' 5) (gang_pod ''b'' ''g'' ''2'' 7) st)"
proof -
  obtain st where st: "compare_all [(gang_pod ''a'' ''g'' ''2'' 5, gang_pod ''c'' [] [] 6),
      (gang_pod ''b'' ''g'' ''2'' 7, gang_pod ''c'' [] [] 6)] new_gang_state = ([True, True], st)"
    by (simp add: Less_def gang_time_def key_less_def new_gang_state_def time_before_def)
  from conjunct1 [OF conjunct2 [OF Less_keeps_gangs_together [OF st]], rule_format,
      of "gang_pod ''a'' ''g'' ''2'' 5" "gang_pod ''b'' ''g'' ''2'' 7"] st
  show ?thesis by (auto simp: compared_def)
qed

text \<open>
  With single pods in the queue the order is no strict weak order: a pod without a gang can
  be level with each of two gangs while one gang precedes the other.
\<close>

theorem Less_not_weak_order:
  assumes "gang_known st p" and "gang_known st r" and "gang_of p \<noteq> ''''" and "gang_of r \<noteq> ''''"
    and "gang_of p < gang_of r" and "fst (queue_key st p) = fst (queue_key st r)"
    and "gang_of q = ''''" and "p_creation q = fst (queue_key st p)"
  shows "fst (Less p r st) \<and> \<not> fst (Less p q st) \<and> \<not> fst (Less q r st)"
proof -
  have q: "gang_known st q" "queue_key st q = (p_creation q, '''')"
    using assms(7) by (simp_all add: gang_known_def queue_key_def split: option.splits)
  have snd: "snd (queue_key st a) = gang_of a" for a by (simp add: queue_key_def)
  show ?thesis using assms q by (simp add: Less_known key_less_def time_before_def snd)
qed

theorem Less_not_weak_order_witness:
  "fst (Less (gang_pod ''a'' ''g'' ''2'' 5) (gang_pod ''b'' ''h'' ''2'' 7)
     (new_gang_state\<lparr>gs_created := [''g'' \<mapsto> 5, ''h'' \<mapsto> 5]\<rparr>))"
  using Less_not_weak_order
    [of "new_gang_state\<lparr>gs_created := [''g'' \<mapsto> 5, ''h'' \<mapsto> 5]\<rparr>" "gang_pod ''a'' ''g'' ''2'' 5"
      "gang_pod ''b'' ''h'' ''2'' 7" "gang_pod ''c'' [] [] 5"]
  by (simp add: gang_known_def queue_key_def)

end
