(* ===== verification/Reserve_Scheduler.thy ===== *)
theory Reserve_Scheduler
  imports Samples "HOL-Library.AList" "HOL-Library.Sublist"
begin

text \<open>
  \<open>deployer/schedule\_plugin/pkg/plugin/reserve/reserve.go\<close>: the reservation plugin.  A
  config map holds, per node, the resources reserved for pods that are still to come; the
  plugin keeps a copy in memory, filters nodes by what the reservations leave, removes the
  reservation of a pod that got its node and removes expired ones.

  A Go map that the code ranges over is an association list with distinct keys, in the order
  in which that range visits it; reading is \<open>map_of\<close>.  JSON, the lister's cache, the client
  and the retry policy are the record \<open>cm_env\<close>.  Every \<open>time.Now()\<close> is a reading of its own:
  the clock is a function from the number of the reading.  Amounts are 64-bit words.
\<close>

section \<open>Data\<close>

record reservation =
  rv_pod :: string
  rv_namespace :: string
  rv_cpu :: int64
  rv_mem :: int64
  rv_expire :: int64

type_synonym reservations = "(string \<times> reservation list) list"

definition reserve_cm_name :: string where
  "reserve_cm_name = ''reservation''"

definition reserve_cm_namespace :: string where
  "reserve_cm_namespace = ''unicore''"

record config_map =
  cm_name :: string
  cm_namespace :: string
  cm_data :: "(string \<times> string) list"
  cm_version :: string

record node_info =
  ni_node :: string
  ni_alloc_cpu :: int64
  ni_alloc_mem :: int64
  ni_requested_cpu :: int64
  ni_requested_mem :: int64

text \<open>
  \<open>ce_lister\<close> answers from the calls made so far and the object that the last attempt left
  in the cache: the lister hands out a pointer into the cache, so that a write through it is
  seen by the next attempt unless the informer replaced the object.
\<close>

record cm_env =
  ce_lister :: "config_map list \<Rightarrow> config_map option \<Rightarrow> go_error + config_map"
  ce_update :: "config_map list \<Rightarrow> config_map \<Rightarrow> go_error option"
  ce_marshal :: "reservation list \<Rightarrow> go_error + string"
  ce_unmarshal :: "string \<Rightarrow> go_error + reservation list"
  ce_retry_again :: "nat \<Rightarrow> go_error \<Rightarrow> bool"
  ce_retry_steps :: nat

record cm_state =
  cs_cached :: "config_map option"
  cs_sent :: "config_map list"

section \<open>Unix times\<close>

text \<open>
  \<open>time.Unix(sec, 0)\<close> adds the seconds from the year 1 to 1970 in 64 bits; \<open>t.Unix()\<close>
  subtracts them.
\<close>

definition unix_epoch :: int where
  "unix_epoch = 62135596800"

definition time_unix :: "int64 \<Rightarrow> gotime" where
  "time_unix sec = sint (sec + word_of_int unix_epoch) * second"

definition unix_seconds :: "gotime \<Rightarrow> int64" where
  "unix_seconds t = word_of_int (t div second - unix_epoch)"

definition int64_less :: "int64 \<Rightarrow> int64 \<Rightarrow> bool" where
  "int64_less a b \<longleftrightarrow> sint a < sint b"

section \<open>The config map\<close>

fun load_loop ::
  "(string \<Rightarrow> go_error + reservation list) \<Rightarrow> (string \<times> string) list \<Rightarrow> reservations \<Rightarrow>
   go_error option \<times> reservations" where
  "load_loop unmarshal [] acc = (None, acc)"
| "load_loop unmarshal ((node, raw) # data) acc =
     (case unmarshal raw of
        Inl err \<Rightarrow> (Some (ErrWrap ''unmarshal node %s: %w'' node err), acc)
      | Inr list \<Rightarrow> load_loop unmarshal data (AList.update node list acc))"

definition loadFromConfigMap ::
  "(string \<Rightarrow> go_error + reservation list) \<Rightarrow> (string \<times> string) list \<Rightarrow> go_error option \<times> reservations" where
  "loadFromConfigMap unmarshal data = load_loop unmarshal data []"

fun dump_loop ::
  "(reservation list \<Rightarrow> go_error + string) \<Rightarrow> reservations \<Rightarrow> (string \<times> string) list \<Rightarrow>
   go_error + (string \<times> string) list" where
  "dump_loop marshal [] out = Inr out"
| "dump_loop marshal ((node, list) # reservation) out =
     (case marshal list of
        Inl err \<Rightarrow> Inl (ErrWrap ''marshal node %s: %w'' node err)
      | Inr b \<Rightarrow> dump_loop marshal reservation (AList.update node b out))"

definition dumpToConfigMap ::
  "(reservation list \<Rightarrow> go_error + string) \<Rightarrow> reservations \<Rightarrow> go_error + (string \<times> string) list" where
  "dumpToConfigMap marshal reservation = dump_loop marshal reservation []"

text \<open>The closure that \<open>updateCM\<close> retries, and \<open>updateCM\<close>.\<close>

definition update_attempt ::
  "cm_env \<Rightarrow> reservations \<Rightarrow> cm_state \<Rightarrow> go_error option \<times> cm_state" where
  "update_attempt env newReservation st =
     (case ce_lister env (cs_sent st) (cs_cached st) of
        Inl err \<Rightarrow> (Some err, st)
      | Inr cm \<Rightarrow>
          (case dumpToConfigMap (ce_marshal env) newReservation of
             Inl err \<Rightarrow> (Some err, st\<lparr>cs_cached := Some cm\<rparr>)
           | Inr data \<Rightarrow>
               (let cm = cm\<lparr>cm_data := data\<rparr>
                in (ce_update env (cs_sent st) cm,
                    st\<lparr>cs_cached := Some cm, cs_sent := cs_sent st @ [cm]\<rparr>))))"

definition updateCM ::
  "cm_env \<Rightarrow> reservations \<Rightarrow> cm_state \<Rightarrow> (go_error option \<times> cm_state) option" where
  "updateCM env newReservation st =
     retry_loop (ce_retry_again env) (ce_retry_steps env) (\<lambda>s. Some (update_attempt env newReservation s)) st"

section \<open>The informer's events\<close>

text \<open>
  A handler asserts that the object is a config map and panics otherwise; a deletion that the
  informer missed is delivered as another type.
\<close>

datatype informer_object = ObjConfigMap config_map | ObjTombstone

definition is_reserve_cm :: "config_map \<Rightarrow> bool" where
  "is_reserve_cm cm \<longleftrightarrow> cm_name cm = reserve_cm_name \<and> cm_namespace cm = reserve_cm_namespace"

fun on_added :: "cm_env \<Rightarrow> informer_object \<Rightarrow> reservations \<Rightarrow> reservations option" where
  "on_added env (ObjConfigMap cm) rs =
     (if is_reserve_cm cm then Some (snd (loadFromConfigMap (ce_unmarshal env) (cm_data cm))) else Some rs)"
| "on_added env ObjTombstone rs = None"

fun on_updated :: "cm_env \<Rightarrow> informer_object \<Rightarrow> reservations \<Rightarrow> reservations option" where
  "on_updated env (ObjConfigMap newCM) rs =
     (if is_reserve_cm newCM then Some (snd (loadFromConfigMap (ce_unmarshal env) (cm_data newCM))) else Some rs)"
| "on_updated env ObjTombstone rs = None"

fun on_deleted :: "informer_object \<Rightarrow> reservations \<Rightarrow> reservations option" where
  "on_deleted (ObjConfigMap cm) rs = (if is_reserve_cm cm then Some [] else Some rs)"
| "on_deleted ObjTombstone rs = None"

section \<open>Reserve and the removal of expired reservations\<close>

definition reserved_for :: "pod \<Rightarrow> reservation \<Rightarrow> bool" where
  "reserved_for p r \<longleftrightarrow> rv_pod r = p_name p \<and> rv_namespace r = p_namespace p"

text \<open>The two nested ranges of \<open>Reserve\<close>: the new reservations and \<open>updated\<close>.\<close>

fun release_node :: "pod \<Rightarrow> reservation list \<Rightarrow> reservation list \<times> bool" where
  "release_node p [] = ([], False)"
| "release_node p (r # rs) =
     (let (kept, updated) = release_node p rs
      in if \<not> reserved_for p r then (r # kept, updated) else (kept, True))"

fun release :: "pod \<Rightarrow> reservations \<Rightarrow> reservations \<times> bool" where
  "release p [] = ([], False)"
| "release p ((node, list) # rest) =
     (let (kept, updated) = release_node p list; (rest, updated') = release p rest
      in ((node, kept) # rest, updated \<or> updated'))"

definition Reserve ::
  "cm_env \<Rightarrow> reservations \<Rightarrow> pod \<Rightarrow> cm_state \<Rightarrow> (fw_code \<times> cm_state) option" where
  "Reserve env reservation p st =
     (let (newReservation, updated) = release p reservation
      in if updated
         then (case updateCM env newReservation st of
                 None \<Rightarrow> None
               | Some (err, st) \<Rightarrow> if err \<noteq> None then Some (Success, st) else Some (Success, st))
         else Some (Success, st))"

text \<open>One round of \<open>cleanExpired\<close>; the clock is read for every reservation.\<close>

fun clean_node ::
  "(nat \<Rightarrow> gotime) \<Rightarrow> nat \<Rightarrow> reservation list \<Rightarrow> reservation list \<times> nat \<times> bool" where
  "clean_node clock i [] = ([], i, False)"
| "clean_node clock i (r # rs) =
     (let (kept, j, updated) = clean_node clock (Suc i) rs
      in if int64_less (unix_seconds (clock i)) (rv_expire r) then (r # kept, j, updated)
         else (kept, j, True))"

fun clean_nodes :: "(nat \<Rightarrow> gotime) \<Rightarrow> nat \<Rightarrow> reservations \<Rightarrow> reservations \<times> bool" where
  "clean_nodes clock i [] = ([], False)"
| "clean_nodes clock i ((node, list) # rest) =
     (let (kept, j, updated) = clean_node clock i list; (rest, updated') = clean_nodes clock j rest
      in ((node, kept) # rest, updated \<or> updated'))"

definition cleanExpired_round ::
  "cm_env \<Rightarrow> (nat \<Rightarrow> gotime) \<Rightarrow> reservations \<Rightarrow> cm_state \<Rightarrow> cm_state option" where
  "cleanExpired_round env clock reservation st =
     (let (newReservation, updated) = clean_nodes clock 0 reservation
      in if \<not> updated then Some st
         else map_option snd (updateCM env newReservation st))"

section \<open>Filter\<close>

fun need_loop :: "container list \<Rightarrow> int64 \<times> int64 \<Rightarrow> int64 \<times> int64" where
  "need_loop [] need = need"
| "need_loop (c # cs) (needCPU, needMem) = need_loop cs (needCPU + ctr_cpu_milli c, needMem + ctr_mem_bytes c)"

definition expired :: "gotime \<Rightarrow> reservation \<Rightarrow> bool" where
  "expired now r \<longleftrightarrow> time_before (time_unix (rv_expire r)) now"

fun filter_loop ::
  "pod \<Rightarrow> int64 \<times> int64 \<Rightarrow> int64 \<times> int64 \<Rightarrow> (nat \<Rightarrow> gotime) \<Rightarrow> nat \<Rightarrow> reservation list \<Rightarrow> int64 \<times> int64 \<Rightarrow> fw_code" where
  "filter_loop p free need clock i [] reserved = Success"
| "filter_loop p (freeCPU, freeMem) (needCPU, needMem) clock i (r # rs) (reservedCPU, reservedMem) =
     (if expired (clock i) r
      then filter_loop p (freeCPU, freeMem) (needCPU, needMem) clock (Suc i) rs (reservedCPU, reservedMem)
      else
        (let reservedCPU = reservedCPU + rv_cpu r; reservedMem = reservedMem + rv_mem r
         in if \<not> reserved_for p r \<and>
               (int64_less (freeCPU - reservedCPU) needCPU \<or> int64_less (freeMem - reservedMem) needMem)
            then Unschedulable
            else filter_loop p (freeCPU, freeMem) (needCPU, needMem) clock (Suc i) rs (reservedCPU, reservedMem)))"

definition reservations_of :: "reservations \<Rightarrow> string \<Rightarrow> reservation list" where
  "reservations_of rs node = (case map_of rs node of None \<Rightarrow> [] | Some l \<Rightarrow> l)"

definition free_of :: "node_info \<Rightarrow> int64 \<times> int64" where
  "free_of ni = (ni_alloc_cpu ni - ni_requested_cpu ni, ni_alloc_mem ni - ni_requested_mem ni)"

definition Filter :: "reservations \<Rightarrow> pod \<Rightarrow> node_info \<Rightarrow> (nat \<Rightarrow> gotime) \<Rightarrow> fw_code" where
  "Filter reservation p ni clock =
     filter_loop p (free_of ni) (need_loop (p_containers p) (0, 0)) clock 0
       (reservations_of reservation (ni_node ni)) (0, 0)"

section \<open>What the plugin reads from and writes to the config map\<close>

lemma keys_load: "distinct (map fst acc) \<Longrightarrow> distinct (map fst (snd (load_loop unmarshal data acc)))"
  by (induction unmarshal data acc rule: load_loop.induct) (auto simp: distinct_update split: sum.splits)

lemma load_loop_keys:
  "load_loop unmarshal data acc = (e, rs) \<Longrightarrow> fst ` set rs \<subseteq> fst ` set data \<union> fst ` set acc"
  by (induction unmarshal data acc rule: load_loop.induct)
    (auto simp: image_iff dom_update split: sum.splits)

text \<open>A map whose texts all parse is loaded as it is, in whatever order it is visited.\<close>

definition parses :: "(string \<Rightarrow> go_error + reservation list) \<Rightarrow> (string \<times> string) list \<Rightarrow> bool" where
  "parses unmarshal data \<longleftrightarrow> (\<forall>raw \<in> snd ` set data. \<exists>l. unmarshal raw = Inr l)"

lemma load_loop_parses:
  assumes "parses unmarshal data" and "distinct (map fst data)"
  shows "fst (load_loop unmarshal data acc) = None"
    and "map_of (snd (load_loop unmarshal data acc)) n =
      (case map_of data n of
         None \<Rightarrow> map_of acc n
       | Some raw \<Rightarrow> (case unmarshal raw of Inl err \<Rightarrow> None | Inr l \<Rightarrow> Some l))"
proof -
  from assms have "fst (load_loop unmarshal data acc) = None \<and>
    map_of (snd (load_loop unmarshal data acc)) n =
      (case map_of data n of
         None \<Rightarrow> map_of acc n
       | Some raw \<Rightarrow> (case unmarshal raw of Inl err \<Rightarrow> None | Inr l \<Rightarrow> Some l))"
  proof (induction unmarshal data acc rule: load_loop.induct)
    case (2 unmarshal node raw data acc)
    then obtain l where l: "unmarshal raw = Inr l" by (auto simp: parses_def)
    from 2(2,3) have "map_of data node = None" "parses unmarshal data" "distinct (map fst data)"
      by (auto simp: parses_def map_of_eq_None_iff image_iff)
    with 2(1) [OF l] l show ?case by (auto simp: update_conv' split: option.splits)
  qed simp
  then show "fst (load_loop unmarshal data acc) = None"
    and "map_of (snd (load_loop unmarshal data acc)) n =
      (case map_of data n of
         None \<Rightarrow> map_of acc n
       | Some raw \<Rightarrow> (case unmarshal raw of Inl err \<Rightarrow> None | Inr l \<Rightarrow> Some l))"
    by blast+
qed

lemma dump_loop_keys:
  "dump_loop marshal rs out = Inr data \<Longrightarrow> distinct (map fst out) \<Longrightarrow> distinct (map fst data)"
  by (induction marshal rs out rule: dump_loop.induct) (auto simp: distinct_update split: sum.splits)

lemma dump_loop_Inr:
  assumes "dump_loop marshal rs out = Inr data" and "distinct (map fst rs)"
  shows "map_of data n =
    (case map_of rs n of None \<Rightarrow> map_of out n | Some l \<Rightarrow> (case marshal l of Inl err \<Rightarrow> None | Inr b \<Rightarrow> Some b))"
  using assms
proof (induction marshal rs out rule: dump_loop.induct)
  case (2 marshal node l rs out)
  then obtain b where b: "marshal l = Inr b" by (auto split: sum.splits)
  from 2(3) have "map_of rs node = None" by (auto simp: map_of_eq_None_iff image_iff)
  with 2 b show ?case by (auto simp: update_conv' split: option.splits)
qed simp

lemma dump_loop_total:
  "\<forall>l \<in> snd ` set rs. \<exists>b. marshal l = Inr b \<Longrightarrow> \<exists>data. dump_loop marshal rs out = Inr data"
  by (induction marshal rs out rule: dump_loop.induct) auto

text \<open>The codec restores every list it is asked to write.\<close>

definition codec_restores :: "cm_env \<Rightarrow> reservations \<Rightarrow> bool" where
  "codec_restores env rs \<longleftrightarrow>
     (\<forall>l \<in> snd ` set rs. \<exists>b. ce_marshal env l = Inr b \<and> ce_unmarshal env b = Inr l)"

lemma load_dump:
  assumes "distinct (map fst rs)" and "codec_restores env rs"
    and "dumpToConfigMap (ce_marshal env) rs = Inr data"
    and "distinct (map fst data')" and "map_of data' = map_of data"
  shows "fst (loadFromConfigMap (ce_unmarshal env) data') = None"
    and "map_of (snd (loadFromConfigMap (ce_unmarshal env) data')) = map_of rs"
proof -
  note written = dump_loop_Inr [OF assms(3) [unfolded dumpToConfigMap_def] assms(1)]
  have restored: "\<exists>l. map_of rs n = Some l \<and> ce_marshal env l = Inr raw \<and> ce_unmarshal env raw = Inr l"
    if "map_of data' n = Some raw" for n raw
  proof -
    from that written [of n] assms(5) obtain l where l: "map_of rs n = Some l" "ce_marshal env l = Inr raw"
      by (auto split: option.splits sum.splits)
    from l(1) have "l \<in> snd ` set rs" by (force dest: map_of_SomeD)
    with assms(2) l show ?thesis by (force simp: codec_restores_def)
  qed
  have "parses (ce_unmarshal env) data'"
    unfolding parses_def
  proof
    fix raw assume "raw \<in> snd ` set data'"
    then obtain n where "(n, raw) \<in> set data'" by auto
    with assms(4) have "map_of data' n = Some raw" by simp
    with restored show "\<exists>l. ce_unmarshal env raw = Inr l" by blast
  qed
  note loaded = load_loop_parses [OF this assms(4), of "[]", folded loadFromConfigMap_def]
  from loaded(1) show "fst (loadFromConfigMap (ce_unmarshal env) data') = None" .
  show "map_of (snd (loadFromConfigMap (ce_unmarshal env) data')) = map_of rs"
  proof
    fix n
    show "map_of (snd (loadFromConfigMap (ce_unmarshal env) data')) n = map_of rs n"
    proof (cases "map_of data' n")
      case None
      have "map_of rs n = None"
      proof (rule ccontr)
        assume "map_of rs n \<noteq> None"
        then obtain l where l: "map_of rs n = Some l" by auto
        then have "l \<in> snd ` set rs" by (force dest: map_of_SomeD)
        with assms(2) obtain b where "ce_marshal env l = Inr b" by (auto simp: codec_restores_def)
        with written [of n] l None assms(5) show False by simp
      qed
      with None loaded(2) [of n] show ?thesis by simp
    next
      case (Some raw)
      with restored [OF this] loaded(2) [of n] show ?thesis by auto
    qed
  qed
qed

section \<open>What updateCM sends\<close>

lemma updateCM_returns: "updateCM env new st \<noteq> None"
  unfolding updateCM_def
  by (rule retry_loop_no_panic [of "\<lambda>_. True"]) (simp_all del: not_None_eq)

text \<open>Every attempt sends the same data, whatever the config map holds when it is read.\<close>

lemma updateCM_sends:
  assumes "updateCM env new st = Some (err, st')"
  shows "\<exists>cms. cs_sent st' = cs_sent st @ cms \<and>
    (\<forall>cm \<in> set cms. dumpToConfigMap (ce_marshal env) new = Inr (cm_data cm))"
proof (rule retry_loop_invariant [OF assms [unfolded updateCM_def],
      where P = "\<lambda>s. \<exists>cms. cs_sent s = cs_sent st @ cms \<and>
        (\<forall>cm \<in> set cms. dumpToConfigMap (ce_marshal env) new = Inr (cm_data cm))"])
  show "\<exists>cms. cs_sent st = cs_sent st @ cms \<and>
    (\<forall>cm \<in> set cms. dumpToConfigMap (ce_marshal env) new = Inr (cm_data cm))" by simp
next
  fix s err s'
  assume *: "Some (update_attempt env new s) = Some (err, s')"
    and "\<exists>cms. cs_sent s = cs_sent st @ cms \<and>
      (\<forall>cm \<in> set cms. dumpToConfigMap (ce_marshal env) new = Inr (cm_data cm))"
  then obtain cms where cms: "cs_sent s = cs_sent st @ cms"
    "\<forall>cm \<in> set cms. dumpToConfigMap (ce_marshal env) new = Inr (cm_data cm)" by blast
  from * have "\<exists>ds. cs_sent s' = cs_sent s @ ds \<and>
      (\<forall>cm \<in> set ds. dumpToConfigMap (ce_marshal env) new = Inr (cm_data cm))"
    by (auto simp: update_attempt_def Let_def split: sum.splits)
  then obtain ds where "cs_sent s' = cs_sent s @ ds"
      "\<forall>cm \<in> set ds. dumpToConfigMap (ce_marshal env) new = Inr (cm_data cm)" by blast
  with cms show "\<exists>cms. cs_sent s' = cs_sent st @ cms \<and>
    (\<forall>cm \<in> set cms. dumpToConfigMap (ce_marshal env) new = Inr (cm_data cm))"
    by (intro exI [of _ "cms @ ds"]) auto
qed

lemma updateCM_success:
  assumes "updateCM env new st = Some (None, st')"
  shows "cs_sent st' \<noteq> [] \<and> dumpToConfigMap (ce_marshal env) new = Inr (cm_data (last (cs_sent st'))) \<and>
    cs_cached st' = Some (last (cs_sent st'))"
  by (rule retry_loop_success [OF assms [unfolded updateCM_def]])
    (auto simp: update_attempt_def Let_def split: sum.splits)

text \<open>
  When the config map can be read and the table be written, the first attempt sends the config
  map with the new data, and is the last one when the API server accepts it.
\<close>

lemma updateCM_first:
  assumes "updateCM env new st = Some (err, st')"
    and "ce_lister env (cs_sent st) (cs_cached st) = Inr cm"
    and "dumpToConfigMap (ce_marshal env) new = Inr data"
  shows "\<exists>cms. cs_sent st' = cs_sent st @ cm\<lparr>cm_data := data\<rparr> # cms \<and>
      (ce_update env (cs_sent st) (cm\<lparr>cm_data := data\<rparr>) = None \<longrightarrow> cms = [] \<and> err = None)"
proof -
  let ?f = "\<lambda>s. Some (update_attempt env new s)" and ?cm = "cm\<lparr>cm_data := data\<rparr>"
  obtain st1 where first: "update_attempt env new st = (ce_update env (cs_sent st) ?cm, st1)"
    and st1: "cs_sent st1 = cs_sent st @ [?cm]"
    using assms(2,3) by (simp add: update_attempt_def Let_def)
  note run = assms(1) [unfolded updateCM_def]
  show ?thesis
  proof (cases "ce_update env (cs_sent st) ?cm = None \<or> ce_retry_steps env = 0 \<or>
      (\<exists>e. ce_update env (cs_sent st) ?cm = Some e \<and> \<not> ce_retry_again env (ce_retry_steps env - 1) e)")
    case True
    then have "err = ce_update env (cs_sent st) ?cm" "st' = st1"
      using run first by (cases "ce_retry_steps env"; auto split: if_splits)+
    with st1 show ?thesis by auto
  next
    case False
    then obtain n where "retry_loop (ce_retry_again env) n ?f st1 = Some (err, st')"
      using run first by (cases "ce_retry_steps env") (auto split: if_splits)
    then have "\<exists>cms. cs_sent st' = cs_sent st1 @ cms"
    proof (rule retry_loop_invariant [where P = "\<lambda>s. \<exists>cms. cs_sent s = cs_sent st1 @ cms"])
      fix s e s' assume "Some (update_attempt env new s) = Some (e, s')" "\<exists>cms. cs_sent s = cs_sent st1 @ cms"
      then show "\<exists>cms. cs_sent s' = cs_sent st1 @ cms"
        by (auto simp: update_attempt_def Let_def split: sum.splits)
    qed simp
    with st1 False show ?thesis by auto
  qed
qed

section \<open>What Reserve and cleanExpired keep\<close>

lemma release_node_eq:
  "release_node p l = (filter (\<lambda>r. \<not> reserved_for p r) l, \<exists>r \<in> set l. reserved_for p r)"
  by (induction l) (auto simp: Let_def split: prod.splits)

lemma release_eq:
  "release p rs =
     (map (\<lambda>(node, l). (node, filter (\<lambda>r. \<not> reserved_for p r) l)) rs,
      \<exists>l \<in> snd ` set rs. \<exists>r \<in> set l. reserved_for p r)"
  by (induction p rs rule: release.induct) (auto simp: release_node_eq Let_def split: prod.splits)

lemma map_of_map_values: "map_of (map (\<lambda>(node, l). (node, f l)) rs) n = map_option f (map_of rs n)"
  by (induction rs) auto

lemma map_fst_map_values: "map fst (map (\<lambda>(node, l). (node, f l)) rs) = map fst rs"
  by (induction rs) auto

definition alive :: "gotime \<Rightarrow> reservation \<Rightarrow> bool" where
  "alive now r \<longleftrightarrow> int64_less (unix_seconds now) (rv_expire r)"

text \<open>
  What a round keeps of a list, in the order of the list: what is alive at all readings of the
  clock, nothing that is dead at all of them, and, when the readings agree on every reservation,
  exactly those that are alive.
\<close>

definition cleaned :: "(nat \<Rightarrow> gotime) \<Rightarrow> reservation list \<Rightarrow> reservation list \<Rightarrow> bool" where
  "cleaned clock l kept \<longleftrightarrow> subseq kept l \<and>
     (\<forall>r \<in> set l. (\<forall>k. alive (clock k) r) \<longrightarrow> r \<in> set kept) \<and> (\<forall>r \<in> set kept. \<exists>k. alive (clock k) r) \<and>
     ((\<forall>r \<in> set l. (\<forall>k. alive (clock k) r) \<or> (\<forall>k. \<not> alive (clock k) r)) \<longrightarrow> kept = filter (alive (clock 0)) l)"

lemma clean_node_spec:
  assumes "clean_node clock i l = (kept, j, updated)"
  shows "cleaned clock l kept" and "\<not> updated \<Longrightarrow> kept = l"
    and "updated \<Longrightarrow> \<exists>r \<in> set l. \<exists>k. \<not> alive (clock k) r"
proof -
  from assms have "cleaned clock l kept \<and> (\<not> updated \<longrightarrow> kept = l) \<and>
    (updated \<longrightarrow> (\<exists>r \<in> set l. \<exists>k. \<not> alive (clock k) r))"
  proof (induction l arbitrary: i kept j updated)
    case Nil
    then show ?case by (simp add: cleaned_def)
  next
    case (Cons a l)
    obtain kept' j' updated' where step: "clean_node clock (Suc i) l = (kept', j', updated')"
      by (cases "clean_node clock (Suc i) l") auto
    note IH = Cons.IH [OF step]
    show ?case
    proof (cases "alive (clock i) a")
      case True
      then have run: "kept = a # kept'" "updated = updated'" using Cons.prems step by (simp_all add: alive_def)
      have "cleaned clock (a # l) (a # kept')" using IH True by (auto simp: cleaned_def)
      with IH run show ?thesis by auto
    next
      case False
      then have run: "kept = kept'" "updated" using Cons.prems step by (simp_all add: alive_def)
      have "cleaned clock (a # l) kept'" using IH False by (auto simp: cleaned_def)
      with run False show ?thesis by auto
    qed
  qed
  then show "cleaned clock l kept" and "\<not> updated \<Longrightarrow> kept = l"
    and "updated \<Longrightarrow> \<exists>r \<in> set l. \<exists>k. \<not> alive (clock k) r" by blast+
qed

lemma clean_nodes_spec:
  "clean_nodes clock i rs = (new, updated) \<Longrightarrow>
     list_all2 (\<lambda>a b. fst b = fst a \<and> cleaned clock (snd a) (snd b)) rs new \<and> (\<not> updated \<longrightarrow> new = rs) \<and>
     (updated \<longrightarrow> (\<exists>l \<in> snd ` set rs. \<exists>r \<in> set l. \<exists>k. \<not> alive (clock k) r))"
proof (induction rs arbitrary: i new updated)
  case Nil
  then show ?case by simp
next
  case (Cons a rs)
  obtain node l where a: "a = (node, l)" by (cases a)
  obtain kept j u where first: "clean_node clock i l = (kept, j, u)"
    by (cases "clean_node clock i l") auto
  obtain rest u' where later: "clean_nodes clock j rs = (rest, u')"
    by (cases "clean_nodes clock j rs") auto
  from Cons.prems a first later have new: "new = (node, kept) # rest" "updated = (u \<or> u')" by simp_all
  with Cons.IH [OF later] clean_node_spec [OF first] show ?case by (auto simp: a)
qed

lemma cleaned_keys: "list_all2 (\<lambda>a b. fst b = fst a \<and> Q a b) rs new \<Longrightarrow> map fst new = map fst rs"
  by (induction rule: list_all2_induct) auto

lemma cleaned_lookup:
  "list_all2 (\<lambda>a b. fst b = fst a \<and> cleaned clock (snd a) (snd b)) rs new \<Longrightarrow>
     (case map_of rs node of
        None \<Rightarrow> map_of new node = None
      | Some l \<Rightarrow> (\<exists>kept. map_of new node = Some kept \<and> cleaned clock l kept))"
  by (induction rule: list_all2_induct) (auto split: option.splits)

text \<open>A round notices a reservation that is dead at all its readings.\<close>

lemma clean_nodes_updated:
  assumes "clean_nodes clock i rs = (new, updated)" and "l \<in> snd ` set rs" and "r \<in> set l" and "\<forall>k. \<not> alive (clock k) r"
  shows updated
proof (rule ccontr)
  assume "\<not> updated"
  with clean_nodes_spec [OF assms(1)] have "list_all2 (\<lambda>a b. fst b = fst a \<and> cleaned clock (snd a) (snd b)) rs rs" by blast
  with assms(2) have "cleaned clock l l" by (auto simp: list_all2_same)
  with assms(3,4) show False by (auto simp: cleaned_def)
qed

lemma clean_node_shrinks: "clean_node clock i l = (kept, j, updated) \<Longrightarrow> length kept \<le> length l \<and> (updated \<longrightarrow> length kept < length l)"
proof (induction l arbitrary: i kept j updated)
  case (Cons r l)
  obtain kept' j' u where step: "clean_node clock (Suc i) l = (kept', j', u)" by (cases "clean_node clock (Suc i) l") auto
  from Cons.IH [OF step] Cons.prems step show ?case by (auto split: if_splits)
qed simp

lemma clean_nodes_shrinks: "clean_nodes clock i rs = (new, True) \<Longrightarrow> new \<noteq> rs"
proof (induction rs arbitrary: i new)
  case (Cons a rs)
  obtain node l where a: "a = (node, l)" by (cases a)
  obtain kept j u where first: "clean_node clock i l = (kept, j, u)" by (cases "clean_node clock i l") auto
  obtain rest' u' where later: "clean_nodes clock j rs = (rest', u')" by (cases "clean_nodes clock j rs") auto
  have "u \<Longrightarrow> kept \<noteq> l" using clean_node_shrinks [OF first] by auto
  moreover have "u' \<Longrightarrow> rest' \<noteq> rs" using Cons.IH [of j rest'] later by simp
  ultimately show ?case using Cons.prems first later a by auto
qed simp

lemma cleanExpired_returns: "\<exists>st'. cleanExpired_round env clock rs st = Some st'"
  using updateCM_returns
  by (cases "clean_nodes clock 0 rs") (simp add: cleanExpired_round_def, metis option.map_disc_iff option.exhaust)

section \<open>The loop of Filter on integers\<close>

text \<open>The reservations the loop sees: those not expired when they are visited.\<close>

fun active :: "(nat \<Rightarrow> gotime) \<Rightarrow> nat \<Rightarrow> reservation list \<Rightarrow> reservation list" where
  "active clock i [] = []"
| "active clock i (r # rs) = (if expired (clock i) r then active clock (Suc i) rs else r # active clock (Suc i) rs)"

text \<open>Those that count: all up to the last reservation of another pod.\<close>

fun counted :: "pod \<Rightarrow> reservation list \<Rightarrow> reservation list" where
  "counted p [] = []"
| "counted p (r # rs) =
     (if counted p rs \<noteq> [] then r # counted p rs else if reserved_for p r then [] else [r])"

definition total :: "(reservation \<Rightarrow> int64) \<Rightarrow> reservation list \<Rightarrow> int" where
  "total f rs = (\<Sum>r\<leftarrow>rs. sint (f r))"

definition amounts_small :: "reservation list \<Rightarrow> bool" where
  "amounts_small rs \<longleftrightarrow>
     (\<forall>r \<in> set rs. 0 \<le> sint (rv_cpu r) \<and> 0 \<le> sint (rv_mem r)) \<and>
     total rv_cpu rs < 2 ^ 62 \<and> total rv_mem rs < 2 ^ 62"

definition int64_small :: "int64 \<Rightarrow> bool" where
  "int64_small w \<longleftrightarrow> - (2 ^ 62) \<le> sint w"

lemma total_simps [simp]: "total f [] = 0" "total f (r # rs) = sint (f r) + total f rs"
  by (simp_all add: total_def)

lemma total_nonneg: "\<forall>r \<in> set rs. 0 \<le> sint (f r) \<Longrightarrow> 0 \<le> total f rs"
  by (induction rs) simp_all

lemma sint64_in_range: "- (2 ^ 63) \<le> x \<Longrightarrow> x < 2 ^ 63 \<Longrightarrow> sint (word_of_int x :: int64) = x"
  by (simp add: signed_take_bit_int_eq_self sint_sbintrunc')

lemma sint64_bounds: "- (2 ^ 63) \<le> sint (w :: int64)" "sint (w :: int64) < 2 ^ 63"
  using sint_greater_eq [of w] sint_lt [of w] by simp_all

lemma sint64_add: "- (2 ^ 63) \<le> sint a + sint b \<Longrightarrow> sint a + sint b < 2 ^ 63 \<Longrightarrow> sint (a + b :: int64) = sint a + sint b"
  using sint64_in_range [of "sint a + sint b"] by (simp flip: wi_hom_add)

lemma sint64_sub: "- (2 ^ 63) \<le> sint a - sint b \<Longrightarrow> sint a - sint b < 2 ^ 63 \<Longrightarrow> sint (a - b :: int64) = sint a - sint b"
  using sint64_in_range [of "sint a - sint b"] by (simp flip: wi_hom_sub)


text \<open>The decision at one reservation of another pod, on integers.\<close>

definition leaves_room :: "int64 \<times> int64 \<Rightarrow> int64 \<times> int64 \<Rightarrow> int \<Rightarrow> int \<Rightarrow> bool" where
  "leaves_room free need cpu mem \<longleftrightarrow>
     sint (fst need) \<le> sint (fst free) - cpu \<and> sint (snd need) \<le> sint (snd free) - mem"

lemma int64_less_sub:
  assumes "int64_small free" and "0 \<le> sint res" and "sint res < 2 ^ 62"
  shows "int64_less (free - res) need \<longleftrightarrow> sint free - sint res < sint need"
proof -
  have "sint (free - res) = sint free - sint res"
    using assms sint64_bounds [of free] by (intro sint64_sub) (simp_all add: int64_small_def)
  then show ?thesis by (simp add: int64_less_def)
qed

lemma active_subset: "r \<in> set (active clock i l) \<Longrightarrow> r \<in> set l"
  by (induction clock i l rule: active.induct) (auto split: if_splits)

lemma counted_subset: "r \<in> set (counted p l) \<Longrightarrow> r \<in> set l"
  by (induction p l rule: counted.induct) (auto split: if_splits)

lemma filter_loop_counts:
  assumes "\<not> expired (clock i) r" and "int64_small fc" and "int64_small fm"
    and "0 \<le> sint rc" and "0 \<le> sint rm" and "0 \<le> sint (rv_cpu r)" and "0 \<le> sint (rv_mem r)"
    and "sint rc + sint (rv_cpu r) < 2 ^ 62" and "sint rm + sint (rv_mem r) < 2 ^ 62"
  shows "filter_loop p (fc, fm) (nc, nm) clock i (r # l) (rc, rm) =
      (if \<not> reserved_for p r \<and>
          \<not> leaves_room (fc, fm) (nc, nm) (sint rc + sint (rv_cpu r)) (sint rm + sint (rv_mem r))
       then Unschedulable
       else filter_loop p (fc, fm) (nc, nm) clock (Suc i) l (rc + rv_cpu r, rm + rv_mem r))"
    and "sint (rc + rv_cpu r) = sint rc + sint (rv_cpu r)" and "sint (rm + rv_mem r) = sint rm + sint (rv_mem r)"
proof -
  show sums: "sint (rc + rv_cpu r) = sint rc + sint (rv_cpu r)" "sint (rm + rv_mem r) = sint rm + sint (rv_mem r)"
    using assms by (auto intro!: sint64_add)
  have "int64_less (fc - (rc + rv_cpu r)) nc \<longleftrightarrow> sint fc - (sint rc + sint (rv_cpu r)) < sint nc"
    "int64_less (fm - (rm + rv_mem r)) nm \<longleftrightarrow> sint fm - (sint rm + sint (rv_mem r)) < sint nm"
    using assms by (simp_all add: int64_less_sub sums)
  then show "filter_loop p (fc, fm) (nc, nm) clock i (r # l) (rc, rm) =
      (if \<not> reserved_for p r \<and>
          \<not> leaves_room (fc, fm) (nc, nm) (sint rc + sint (rv_cpu r)) (sint rm + sint (rv_mem r))
       then Unschedulable
       else filter_loop p (fc, fm) (nc, nm) clock (Suc i) l (rc + rv_cpu r, rm + rv_mem r))"
    using assms(1) by (auto simp: leaves_room_def Let_def)
qed

lemma filter_loop_room:
  assumes "int64_small (fst free)" and "int64_small (snd free)"
    and "\<forall>r \<in> set l. 0 \<le> sint (rv_cpu r) \<and> 0 \<le> sint (rv_mem r)"
    and "0 \<le> sint (fst res)" and "0 \<le> sint (snd res)"
    and "sint (fst res) + total rv_cpu l < 2 ^ 62" and "sint (snd res) + total rv_mem l < 2 ^ 62"
  shows "filter_loop p free need clock i l res =
    (if counted p (active clock i l) = [] \<or>
        leaves_room free need (sint (fst res) + total rv_cpu (counted p (active clock i l)))
          (sint (snd res) + total rv_mem (counted p (active clock i l)))
     then Success else Unschedulable)"
  using assms
proof (induction l arbitrary: i res)
  case Nil
  then show ?case by (cases free; cases need; cases res) simp
next
  case (Cons r l)
  obtain fc fm where free: "free = (fc, fm)" by (cases free)
  obtain nc nm where need: "need = (nc, nm)" by (cases need)
  obtain rc rm where res: "res = (rc, rm)" by (cases res)
  have pos: "0 \<le> total rv_cpu l" "0 \<le> total rv_mem l" "0 \<le> sint (rv_cpu r)" "0 \<le> sint (rv_mem r)"
    using Cons.prems(3) by (auto intro: total_nonneg)
  show ?case
  proof (cases "expired (clock i) r")
    case True
    have "filter_loop p free need clock i (r # l) res = filter_loop p free need clock (Suc i) l res"
      using True by (simp add: free need res)
    moreover from Cons.IH [of res "Suc i"] Cons.prems pos
    have "filter_loop p free need clock (Suc i) l res =
      (if counted p (active clock (Suc i) l) = [] \<or>
          leaves_room free need (sint (fst res) + total rv_cpu (counted p (active clock (Suc i) l)))
            (sint (snd res) + total rv_mem (counted p (active clock (Suc i) l)))
       then Success else Unschedulable)" by fastforce
    ultimately show ?thesis using True by simp
  next
    case False
    have step: "filter_loop p free need clock i (r # l) res =
        (if \<not> reserved_for p r \<and>
            \<not> leaves_room free need (sint rc + sint (rv_cpu r)) (sint rm + sint (rv_mem r))
         then Unschedulable
         else filter_loop p free need clock (Suc i) l (rc + rv_cpu r, rm + rv_mem r))"
      and sums: "sint (rc + rv_cpu r) = sint rc + sint (rv_cpu r)" "sint (rm + rv_mem r) = sint rm + sint (rv_mem r)"
      using filter_loop_counts [of clock i r fc fm rc rm] False Cons.prems pos
      by (simp_all add: free need res del: filter_loop.simps)
    let ?c = "counted p (active clock (Suc i) l)"
    have later: "filter_loop p free need clock (Suc i) l (rc + rv_cpu r, rm + rv_mem r) =
      (if ?c = [] \<or> leaves_room free need (sint rc + sint (rv_cpu r) + total rv_cpu ?c)
          (sint rm + sint (rv_mem r) + total rv_mem ?c)
       then Success else Unschedulable)"
      using Cons.IH [of "(rc + rv_cpu r, rm + rv_mem r)" "Suc i"] Cons.prems pos by (simp add: sums res)
    have c: "0 \<le> total rv_cpu ?c" "0 \<le> total rv_mem ?c"
      using Cons.prems(3) by (auto intro!: total_nonneg dest: counted_subset active_subset)
    show ?thesis
      unfolding step later using False c by (auto simp: leaves_room_def free need res)
  qed
qed


lemma total_counted:
  assumes "\<forall>r \<in> set l. 0 \<le> sint (f r)"
  shows "total f (filter (\<lambda>r. \<not> reserved_for p r) l) \<le> total f (counted p l)"
  using assms
proof (induction p l rule: counted.induct)
  case (2 p r l)
  then show ?case by (cases "counted p l = []") auto
qed simp

lemma counted_Nil: "counted p l = [] \<longleftrightarrow> (\<forall>r \<in> set l. reserved_for p r)"
  by (induction p l rule: counted.induct) auto

lemma counted_foreign: "\<forall>r \<in> set l. \<not> reserved_for p r \<Longrightarrow> counted p l = l"
  by (induction p l rule: counted.induct) auto

lemma Filter_room:
  assumes "int64_small (fst (free_of ni))" and "int64_small (snd (free_of ni))"
    and "amounts_small (reservations_of rs (ni_node ni))"
  shows "Filter rs p ni clock =
    (if counted p (active clock 0 (reservations_of rs (ni_node ni))) = [] \<or>
        leaves_room (free_of ni) (need_loop (p_containers p) (0, 0))
          (total rv_cpu (counted p (active clock 0 (reservations_of rs (ni_node ni)))))
          (total rv_mem (counted p (active clock 0 (reservations_of rs (ni_node ni)))))
     then Success else Unschedulable)"
proof -
  have "filter_loop p (free_of ni) (need_loop (p_containers p) (0, 0)) clock 0
      (reservations_of rs (ni_node ni)) (0, 0) =
    (if counted p (active clock 0 (reservations_of rs (ni_node ni))) = [] \<or>
        leaves_room (free_of ni) (need_loop (p_containers p) (0, 0))
          (sint (fst (0 :: int64, 0 :: int64)) + total rv_cpu (counted p (active clock 0 (reservations_of rs (ni_node ni)))))
          (sint (snd (0 :: int64, 0 :: int64)) + total rv_mem (counted p (active clock 0 (reservations_of rs (ni_node ni)))))
     then Success else Unschedulable)"
    by (rule filter_loop_room) (use assms in \<open>auto simp: amounts_small_def\<close>)
  then show ?thesis by (simp add: Filter_def)
qed

section \<open>The two tests for expiry\<close>

lemma time_unix_in_range:
  assumes "- unix_epoch \<le> sint e" and "sint e \<le> max_int64 - unix_epoch"
  shows "time_unix e = (sint e + unix_epoch) * second"
proof -
  have "sint (e + word_of_int unix_epoch) = sint e + sint (word_of_int unix_epoch :: int64)"
    using assms by (intro sint64_add) (simp_all add: sint64_in_range unix_epoch_def max_int64_def)
  then show ?thesis by (simp add: time_unix_def sint64_in_range unix_epoch_def)
qed

lemma time_unix_wraps:
  assumes "max_int64 - unix_epoch < sint e"
  shows "time_unix e < 0"
proof -
  have e: "e + word_of_int unix_epoch = word_of_int (sint e + unix_epoch - 2 ^ 64)"
    by (simp add: word_eq_iff_unsigned)
  have "sint (e + word_of_int unix_epoch) = sint e + unix_epoch - 2 ^ 64"
    unfolding e using assms sint64_bounds [of e]
    by (intro sint64_in_range) (simp_all add: unix_epoch_def max_int64_def)
  then show ?thesis
    using sint64_bounds [of e] by (simp add: time_unix_def second_def unix_epoch_def)
qed

lemma sint_unix_seconds:
  assumes "0 \<le> now" and "now div second \<le> max_int64"
  shows "sint (unix_seconds now) = now div second - unix_epoch"
  unfolding unix_seconds_def
  by (rule sint64_in_range)
    (use assms pos_imp_zdiv_nonneg_iff [of second now] in \<open>simp_all add: unix_epoch_def max_int64_def second_def\<close>)

lemma div_second_less: "now div second < n \<longleftrightarrow> now < n * second"
  by (simp add: second_def) linarith


section \<open>Sample reservations\<close>

text \<open>
  A reservation of 500 of each resource, a node with 1000 of each, a pod of two containers that
  needs 300, and an environment whose codec knows the tables of the witnesses.
\<close>

definition reservation_for :: "string \<Rightarrow> int64 \<Rightarrow> reservation" where
  "reservation_for name e = \<lparr>rv_pod = name, rv_namespace = ''ns'', rv_cpu = 500, rv_mem = 500, rv_expire = e\<rparr>"

definition sample_node :: node_info where
  "sample_node =
     \<lparr>ni_node = ''n1'', ni_alloc_cpu = 1000, ni_alloc_mem = 1000, ni_requested_cpu = 0, ni_requested_mem = 0\<rparr>"

definition needing_pod :: "string \<Rightarrow> pod" where
  "needing_pod name =
     blank_pod\<lparr>p_name := name, p_namespace := ''ns'',
       p_containers :=
         [\<lparr>ctr_name = ''a'', ctr_image = '''', ctr_cpu_milli = 100, ctr_mem_bytes = 100\<rparr>,
          \<lparr>ctr_name = ''b'', ctr_image = '''', ctr_cpu_milli = 200, ctr_mem_bytes = 200\<rparr>]\<rparr>"

definition sample_cm :: config_map where
  "sample_cm = \<lparr>cm_name = reserve_cm_name, cm_namespace = reserve_cm_namespace, cm_data = [], cm_version = ''''\<rparr>"

definition sample_cm_env :: cm_env where
  "sample_cm_env =
     \<lparr>ce_lister = (\<lambda>_ c. case c of None \<Rightarrow> Inr sample_cm | Some cm \<Rightarrow> Inr cm),
      ce_update = (\<lambda>_ _. None),
      ce_marshal = (\<lambda>l. if l = [] then Inr ''[]'' else if l = [reservation_for ''b'' 7] then Inr ''[b]''
        else Inl (ErrOther ''marshal'')),
      ce_unmarshal = (\<lambda>s. if s = ''[]'' then Inr [] else if s = ''[b]'' then Inr [reservation_for ''b'' 7]
        else Inl (ErrOther ''unmarshal'')),
      ce_retry_again = (\<lambda>_ e. e = ErrConflict), ce_retry_steps = 4\<rparr>"

lemma sample_lister: "ce_lister sample_cm_env [] None = Inr sample_cm" "ce_update sample_cm_env cms cm = None"
  by (simp_all add: sample_cm_env_def)

lemma sample_reserve_simps [simp]:
  "rv_pod (reservation_for name e) = name" "rv_namespace (reservation_for name e) = ''ns''"
  "rv_cpu (reservation_for name e) = 500" "rv_mem (reservation_for name e) = 500"
  "rv_expire (reservation_for name e) = e"
  "ni_node sample_node = ''n1''" "free_of sample_node = (1000, 1000)"
  "need_loop (p_containers (needing_pod name)) (0, 0) = (300, 300)"
  "reserved_for (needing_pod name) (reservation_for name' e) \<longleftrightarrow> name' = name"
  by (simp_all add: reservation_for_def sample_node_def free_of_def needing_pod_def blank_pod_def reserved_for_def)

lemma sample_amounts [simp]:
  "amounts_small [reservation_for a e]" "amounts_small [reservation_for a e, reservation_for b f]"
  "int64_small 1000"
  by (simp_all add: amounts_small_def int64_small_def)

lemma expired_at_0: "\<not> expired 0 (reservation_for a 7)"
  by (simp add: expired_def time_before_def time_unix_def unix_epoch_def second_def)

section \<open>Properties\<close>

text \<open>
  C10.  \<open>Filter\<close> decides what a closed formula over the integers says: as long as the amounts
  do not wrap around, a node passes exactly when no unexpired reservation of another pod is
  left, or the free resources less all unexpired reservations up to the last one of another
  pod, those of the pod itself among them, cover what the pod needs.
\<close>

theorem Filter_spec:
  assumes "int64_small (fst (free_of ni))" and "int64_small (snd (free_of ni))"
    and "amounts_small (reservations_of rs (ni_node ni))"
  shows "Filter rs p ni clock =
    (let counting = counted p (active clock 0 (reservations_of rs (ni_node ni)))
     in if counting = [] \<or>
          leaves_room (free_of ni) (need_loop (p_containers p) (0, 0)) (total rv_cpu counting) (total rv_mem counting)
        then Success else Unschedulable)"
  by (simp add: Filter_room [OF assms] Let_def)

theorem Filter_spec_witness:
  "Filter [(''n1'', [reservation_for ''a'' 7, reservation_for ''b'' 7])] (needing_pod ''p'') sample_node (\<lambda>_. 0) = Unschedulable"
  by (subst Filter_spec) (simp_all add: reservations_of_def expired_at_0 leaves_room_def)

text \<open>
  C28.  Reservations are respected: when a node with an unexpired reservation of another pod
  passes, what is free there covers the needs of the pod and all unexpired reservations of
  other pods together.
\<close>

theorem Filter_protects:
  assumes "int64_small (fst (free_of ni))" and "int64_small (snd (free_of ni))"
    and "amounts_small (reservations_of rs (ni_node ni))"
    and "Filter rs p ni clock = Success"
    and "others = filter (\<lambda>r. \<not> reserved_for p r) (active clock 0 (reservations_of rs (ni_node ni)))"
    and "others \<noteq> []"
  shows "total rv_cpu others + sint (fst (need_loop (p_containers p) (0, 0))) \<le> sint (fst (free_of ni)) \<and>
    total rv_mem others + sint (snd (need_loop (p_containers p) (0, 0))) \<le> sint (snd (free_of ni))"
proof -
  let ?l = "active clock 0 (reservations_of rs (ni_node ni))"
  have pos: "\<forall>r \<in> set ?l. 0 \<le> sint (rv_cpu r)" "\<forall>r \<in> set ?l. 0 \<le> sint (rv_mem r)"
    using assms(3) by (auto simp: amounts_small_def dest: active_subset)
  have "counted p ?l \<noteq> []" using assms(5,6) by (auto simp: counted_Nil filter_empty_conv)
  with Filter_room [OF assms(1-3)] assms(4)
  have "leaves_room (free_of ni) (need_loop (p_containers p) (0, 0)) (total rv_cpu (counted p ?l)) (total rv_mem (counted p ?l))"
    by (simp split: if_splits)
  with total_counted [OF pos(1), of p] total_counted [OF pos(2), of p] show ?thesis
    by (simp add: leaves_room_def assms(5))
qed

theorem Filter_protects_witness:
  "total rv_cpu [reservation_for ''a'' 7] + 300 \<le> 1000"
proof -
  have pass: "Filter [(''n1'', [reservation_for ''a'' 7])] (needing_pod ''p'') sample_node (\<lambda>_. 0) = Success"
    by (simp add: Filter_room reservations_of_def expired_at_0 leaves_room_def)
  show ?thesis
    using Filter_protects [OF _ _ _ pass refl] by (simp add: reservations_of_def expired_at_0)
qed

text \<open>
  A pod's own reservation may shut it out, depending on the order of the list: with the
  reservation of another pod first the node passes, with its own first it is refused, as soon
  as what is free covers the other reservation and the pod, but not both reservations and the
  pod.
\<close>

theorem Filter_depends_on_order:
  assumes "int64_small (fst (free_of ni))" and "int64_small (snd (free_of ni))"
    and "amounts_small [own, other]" and "reserved_for p own" and "\<not> reserved_for p other"
    and "\<forall>k. \<not> expired (clock k) own \<and> \<not> expired (clock k) other"
    and "leaves_room (free_of ni) (need_loop (p_containers p) (0, 0)) (sint (rv_cpu other)) (sint (rv_mem other))"
    and "\<not> leaves_room (free_of ni) (need_loop (p_containers p) (0, 0))
      (sint (rv_cpu own) + sint (rv_cpu other)) (sint (rv_mem own) + sint (rv_mem other))"
  shows "Filter [(ni_node ni, [other, own])] p ni clock = Success \<and>
    Filter [(ni_node ni, [own, other])] p ni clock = Unschedulable"
proof -
  have "amounts_small [other, own]" using assms(3) by (auto simp: amounts_small_def)
  then have "Filter [(ni_node ni, [other, own])] p ni clock = Success"
    using assms(4-7) by (subst Filter_room [OF assms(1,2)]) (simp_all add: reservations_of_def)
  moreover have "Filter [(ni_node ni, [own, other])] p ni clock = Unschedulable"
    using assms(3-6,8) by (subst Filter_room [OF assms(1,2)]) (simp_all add: reservations_of_def)
  ultimately show ?thesis ..
qed

theorem Filter_depends_on_order_witness:
  "Filter [(''n1'', [reservation_for ''p'' 7, reservation_for ''a'' 7])] (needing_pod ''p'') sample_node (\<lambda>_. 0) = Unschedulable"
  using Filter_depends_on_order
    [of sample_node "reservation_for ''p'' 7" "reservation_for ''a'' 7" "needing_pod ''p''" "\<lambda>_. 0"]
  by (simp add: expired_at_0 leaves_room_def)

text \<open>
  The two tests for expiry agree but for one instant: for a reservation whose time has a
  representation, \<open>cleanExpired\<close> removes what \<open>Filter\<close> skips, and at most at the very
  instant of expiry it removes a reservation that \<open>Filter\<close> still counts.
\<close>

theorem expiry_tests_agree:
  assumes "- unix_epoch \<le> sint (rv_expire r)" and "sint (rv_expire r) \<le> max_int64 - unix_epoch"
    and "0 \<le> now" and "now div second \<le> max_int64"
  shows "alive now r \<longleftrightarrow> \<not> (expired now r \<or> now = time_unix (rv_expire r))"
proof -
  have "alive now r \<longleftrightarrow> now div second < sint (rv_expire r) + unix_epoch"
    using sint_unix_seconds [OF assms(3,4)] by (simp add: alive_def int64_less_def) linarith
  then show ?thesis
    by (auto simp: div_second_less expired_def time_before_def time_unix_in_range [OF assms(1,2)])
qed

theorem expiry_tests_agree_witness:
  "alive 0 (reservation_for ''a'' 7)"
  using expiry_tests_agree [of "reservation_for ''a'' 7" 0] expired_at_0
  by (simp add: unix_epoch_def max_int64_def time_unix_def second_def)

text \<open>
  A reservation meant never to expire is void from the start and stays for good: a time of
  expiry close to the largest number of seconds wraps around when it is converted, so that
  \<open>Filter\<close> always skips the reservation, while \<open>cleanExpired\<close> never removes it.
\<close>

theorem far_expiry_void_and_kept:
  assumes "max_int64 - unix_epoch < sint (rv_expire r)"
    and "0 \<le> now" and "now div second \<le> max_int64 - unix_epoch"
  shows "expired now r \<and> alive now r"
proof
  from time_unix_wraps [OF assms(1)] assms(2) show "expired now r"
    by (simp add: expired_def time_before_def)
  have "sint (unix_seconds now) = now div second - unix_epoch"
    using assms(2,3) by (intro sint_unix_seconds) (simp_all add: unix_epoch_def)
  with assms(1,3) show "alive now r"
    by (simp add: alive_def int64_less_def unix_epoch_def)
qed

theorem far_expiry_void_and_kept_witness:
  "expired (second * 63000000000) (reservation_for ''a'' 9223372036854775807) \<and>
   alive (second * 63000000000) (reservation_for ''a'' 9223372036854775807)"
  by (rule far_expiry_void_and_kept) (simp_all add: unix_epoch_def max_int64_def second_def)

text \<open>
  C30.  Write and read back: a table of reservations that the codec restores is written without
  an error, and loading what was written, visited in any order, gives the table again.
\<close>

theorem dump_load_roundtrip:
  assumes "distinct (map fst rs)" and "codec_restores env rs"
  shows "\<exists>data. dumpToConfigMap (ce_marshal env) rs = Inr data \<and>
    (\<forall>data'. distinct (map fst data') \<and> map_of data' = map_of data \<longrightarrow>
       fst (loadFromConfigMap (ce_unmarshal env) data') = None \<and>
       map_of (snd (loadFromConfigMap (ce_unmarshal env) data')) = map_of rs)"
proof -
  from assms(2) have "\<forall>l \<in> snd ` set rs. \<exists>b. ce_marshal env l = Inr b" by (auto simp: codec_restores_def)
  then obtain data where "dumpToConfigMap (ce_marshal env) rs = Inr data"
    using dump_loop_total [of rs "ce_marshal env" "[]"] by (auto simp: dumpToConfigMap_def)
  with load_dump [OF assms] show ?thesis by blast
qed

theorem dump_load_roundtrip_witness:
  "\<exists>data. dumpToConfigMap (ce_marshal sample_cm_env) [(''n1'', [reservation_for ''b'' 7]), (''n2'', [])] = Inr data \<and>
     map_of (snd (loadFromConfigMap (ce_unmarshal sample_cm_env) (rev data))) ''n1'' = Some [reservation_for ''b'' 7]"
proof -
  have "distinct (map fst [(''n1'', [reservation_for ''b'' 7]), (''n2'', [])])" by simp
  moreover have "codec_restores sample_cm_env [(''n1'', [reservation_for ''b'' 7]), (''n2'', [])]"
    by (simp add: codec_restores_def sample_cm_env_def)
  ultimately obtain data where
    data: "dumpToConfigMap (ce_marshal sample_cm_env) [(''n1'', [reservation_for ''b'' 7]), (''n2'', [])] = Inr data"
    and loaded: "\<forall>data'. distinct (map fst data') \<and> map_of data' = map_of data \<longrightarrow>
      map_of (snd (loadFromConfigMap (ce_unmarshal sample_cm_env) data')) =
        map_of [(''n1'', [reservation_for ''b'' 7]), (''n2'', [])]"
    using dump_load_roundtrip by blast
  from dump_loop_keys [OF data [unfolded dumpToConfigMap_def]]
  have keys: "distinct (map fst data)" "distinct (map fst (rev data))"
    by (simp_all flip: rev_map)
  then have "map_of (rev data) = map_of data" by (simp add: map_of_inject_set)
  with data loaded keys show ?thesis by simp
qed

text \<open>
  Loading fails open: when one node's text does not parse, the error names that node, the
  nodes visited before it are loaded, and every other node has lost its reservations, so that
  \<open>Filter\<close> passes any pod there.
\<close>

theorem load_error_fails_open:
  assumes "loadFromConfigMap unmarshal data = (Some err, rs)" and "distinct (map fst data)"
  shows "\<exists>before node raw rest e. data = before @ (node, raw) # rest \<and> unmarshal raw = Inl e \<and>
    err = ErrWrap ''unmarshal node %s: %w'' node e \<and>
    loadFromConfigMap unmarshal before = (None, rs) \<and>
    (\<forall>ni p clock. ni_node ni \<in> fst ` set ((node, raw) # rest) \<longrightarrow> Filter rs p ni clock = Success)"
proof -
  have "\<exists>before node raw rest e. data = before @ (node, raw) # rest \<and> unmarshal raw = Inl e \<and>
    err = ErrWrap ''unmarshal node %s: %w'' node e \<and> load_loop unmarshal before acc = (None, rs)"
    if "load_loop unmarshal data acc = (Some err, rs)" for acc
    using that
  proof (induction unmarshal data acc rule: load_loop.induct)
    case (2 unmarshal node raw data acc)
    show ?case
    proof (cases "unmarshal raw")
      case (Inl e)
      with 2(2) show ?thesis
        by (intro exI [of _ "[]"] exI [of _ node] exI [of _ raw] exI [of _ data] exI [of _ e]) simp
    next
      case (Inr l)
      with 2(2) have "load_loop unmarshal data (AList.update node l acc) = (Some err, rs)" by simp
      from 2(1) [OF Inr this] obtain before node' raw' rest e where
        "data = before @ (node', raw') # rest" "unmarshal raw' = Inl e"
        "err = ErrWrap ''unmarshal node %s: %w'' node' e"
        "load_loop unmarshal before (AList.update node l acc) = (None, rs)" by blast
      with Inr show ?thesis by (intro exI [of _ "(node, raw) # before"]) auto
    qed
  qed simp
  from this [of "[]"] assms(1) obtain before node raw rest e where
    d: "data = before @ (node, raw) # rest" "unmarshal raw = Inl e"
      "err = ErrWrap ''unmarshal node %s: %w'' node e" "load_loop unmarshal before [] = (None, rs)"
    by (auto simp: loadFromConfigMap_def)
  have "Filter rs p ni clock = Success" if "ni_node ni \<in> fst ` set ((node, raw) # rest)" for p ni clock
  proof -
    from that assms(2) have "ni_node ni \<notin> fst ` set before" by (auto simp: d(1))
    with load_loop_keys [OF d(4)] have "map_of rs (ni_node ni) = None"
      by (auto simp: map_of_eq_None_iff)
    then show ?thesis by (cases "free_of ni"; cases "need_loop (p_containers p) (0, 0)")
      (simp add: Filter_def reservations_of_def)
  qed
  with d show ?thesis unfolding loadFromConfigMap_def by blast
qed

theorem load_error_fails_open_witness:
  "Filter (snd (loadFromConfigMap (ce_unmarshal sample_cm_env) [(''n2'', ''{''), (''n1'', ''[b]'')]))
     (needing_pod ''p'') sample_node (\<lambda>_. 0) = Success"
proof -
  have err: "loadFromConfigMap (ce_unmarshal sample_cm_env) [(''n2'', ''{''), (''n1'', ''[b]'')] =
    (Some (ErrWrap ''unmarshal node %s: %w'' ''n2'' (ErrOther ''unmarshal'')), [])"
    by (simp add: loadFromConfigMap_def sample_cm_env_def)
  from load_error_fails_open [OF this] err show ?thesis
    by (auto simp: Cons_eq_append_conv)
qed

text \<open>Every table that is sent is read back as the table that was computed.\<close>

lemma updateCM_sends_table:
  assumes "updateCM env new st = Some (err, st')" and "distinct (map fst new)" and "codec_restores env new"
  shows "\<exists>cms. cs_sent st' = cs_sent st @ cms \<and>
      (\<forall>cm \<in> set cms. \<exists>table. loadFromConfigMap (ce_unmarshal env) (cm_data cm) = (None, table) \<and> map_of table = map_of new) \<and>
      (\<forall>cm. ce_lister env (cs_sent st) (cs_cached st) = Inr cm \<longrightarrow>
         cms \<noteq> [] \<and> (\<exists>data. hd cms = cm\<lparr>cm_data := data\<rparr>) \<and>
         (ce_update env (cs_sent st) (hd cms) = None \<longrightarrow> length cms = 1))"
proof -
  from assms(3) have "\<forall>l \<in> snd ` set new. \<exists>b. ce_marshal env l = Inr b" by (auto simp: codec_restores_def)
  then obtain data where data: "dumpToConfigMap (ce_marshal env) new = Inr data"
    using dump_loop_total [of new "ce_marshal env" "[]"] by (auto simp: dumpToConfigMap_def)
  from updateCM_sends [OF assms(1)] data obtain cms where cms: "cs_sent st' = cs_sent st @ cms" "\<forall>cm \<in> set cms. cm_data cm = data"
    by auto
  have "distinct (map fst data)" using dump_loop_keys [OF data [unfolded dumpToConfigMap_def]] by simp
  with load_dump [OF assms(2,3) data this refl] cms(2)
  have "\<exists>table. loadFromConfigMap (ce_unmarshal env) (cm_data cm) = (None, table) \<and> map_of table = map_of new" if "cm \<in> set cms" for cm
    using that by (metis prod.collapse)
  moreover have "cms \<noteq> [] \<and> (\<exists>data. hd cms = cm\<lparr>cm_data := data\<rparr>) \<and> (ce_update env (cs_sent st) (hd cms) = None \<longrightarrow> length cms = 1)"
    if "ce_lister env (cs_sent st) (cs_cached st) = Inr cm" for cm
    using updateCM_first [OF assms(1) that data] cms(1) by auto
  ultimately show ?thesis using cms(1) by blast
qed

text \<open>
  C13.  A pod that got its node gives up its reservations and no others.  \<open>Reserve\<close> always
  reports success and never panics.  Without a reservation of the pod it sends nothing.  With
  one, and when the lister finds the config map, it does send: first the config map found, with
  new data, and nothing more when the API server accepts that; and every config map it sends is
  loaded without an error as the table that holds, for every node, exactly the reservations of
  the other pods, in their order.  The codec is assumed to read back the lists of that table.
\<close>

theorem Reserve_releases:
  assumes "distinct (map fst rs)" and "codec_restores env (fst (release p rs))"
  shows "\<exists>st' cms. Reserve env rs p st = Some (Success, st') \<and> cs_sent st' = cs_sent st @ cms \<and>
    ((\<forall>l \<in> snd ` set rs. \<forall>r \<in> set l. \<not> reserved_for p r) \<longrightarrow> st' = st) \<and>
    (\<forall>cm. (\<exists>l \<in> snd ` set rs. \<exists>r \<in> set l. reserved_for p r) \<and> ce_lister env (cs_sent st) (cs_cached st) = Inr cm \<longrightarrow>
       cms \<noteq> [] \<and> (\<exists>data. hd cms = cm\<lparr>cm_data := data\<rparr>) \<and>
       (ce_update env (cs_sent st) (hd cms) = None \<longrightarrow> length cms = 1)) \<and>
    (\<forall>cm \<in> set cms. \<exists>table. loadFromConfigMap (ce_unmarshal env) (cm_data cm) = (None, table) \<and>
       (\<forall>node. map_of table node = map_option (filter (\<lambda>r. \<not> reserved_for p r)) (map_of rs node)))"
proof (cases "\<exists>l \<in> snd ` set rs. \<exists>r \<in> set l. reserved_for p r")
  case False
  then have "Reserve env rs p st = Some (Success, st)" by (simp add: Reserve_def release_eq)
  with False show ?thesis by (intro exI [of _ st] exI [of _ "[]"]) auto
next
  case True
  let ?new = "map (\<lambda>(node, l). (node, filter (\<lambda>r. \<not> reserved_for p r) l)) rs"
  have new: "release p rs = (?new, True)" using True by (simp add: release_eq)
  obtain err st' where upd: "updateCM env ?new st = Some (err, st')"
    using updateCM_returns [of env ?new st] by (cases "updateCM env ?new st") auto
  then have run: "Reserve env rs p st = Some (Success, st')" by (simp add: Reserve_def new)
  have "distinct (map fst ?new)" using assms(1) by (simp only: map_fst_map_values)
  moreover have "codec_restores env ?new" using assms(2) by (simp add: new)
  moreover have "map_of ?new node = map_option (filter (\<lambda>r. \<not> reserved_for p r)) (map_of rs node)" for node
    by (rule map_of_map_values)
  ultimately obtain cms where cms: "cs_sent st' = cs_sent st @ cms"
      "\<forall>cm \<in> set cms. \<exists>table. loadFromConfigMap (ce_unmarshal env) (cm_data cm) = (None, table) \<and>
         (\<forall>node. map_of table node = map_option (filter (\<lambda>r. \<not> reserved_for p r)) (map_of rs node))"
      "\<forall>cm. ce_lister env (cs_sent st) (cs_cached st) = Inr cm \<longrightarrow>
         cms \<noteq> [] \<and> (\<exists>data. hd cms = cm\<lparr>cm_data := data\<rparr>) \<and> (ce_update env (cs_sent st) (hd cms) = None \<longrightarrow> length cms = 1)"
    using updateCM_sends_table [OF upd] by metis
  show ?thesis by (rule exI [of _ st'], rule exI [of _ cms]) (use cms run True in blast)
qed

theorem Reserve_releases_witness:
  "\<exists>st' cm. Reserve sample_cm_env [(''n1'', [reservation_for ''p'' 7, reservation_for ''b'' 7])] (needing_pod ''p'')
     \<lparr>cs_cached = None, cs_sent = []\<rparr> = Some (Success, st') \<and> cs_sent st' = [cm] \<and> is_reserve_cm cm \<and>
     map_of (snd (loadFromConfigMap (ce_unmarshal sample_cm_env) (cm_data cm))) ''n1'' = Some [reservation_for ''b'' 7]"
proof -
  let ?rs = "[(''n1'', [reservation_for ''p'' 7, reservation_for ''b'' 7])]"
  have "codec_restores sample_cm_env (fst (release (needing_pod ''p'') ?rs))"
    by (simp add: codec_restores_def sample_cm_env_def release_eq)
  from Reserve_releases [OF _ this, of "\<lparr>cs_cached = None, cs_sent = []\<rparr>"] obtain st' cms where
    st': "Reserve sample_cm_env ?rs (needing_pod ''p'') \<lparr>cs_cached = None, cs_sent = []\<rparr> = Some (Success, st')" "cs_sent st' = cms"
    and sent: "\<exists>data. hd cms = sample_cm\<lparr>cm_data := data\<rparr>" "length cms = 1"
    and table: "\<forall>cm \<in> set cms. \<exists>table. loadFromConfigMap (ce_unmarshal sample_cm_env) (cm_data cm) = (None, table) \<and>
       (\<forall>node. map_of table node = map_option (filter (\<lambda>r. \<not> reserved_for (needing_pod ''p'') r)) (map_of ?rs node))"
    by (force simp: sample_lister)
  from sent obtain cm data where cm: "cms = [cm]" "cm = sample_cm\<lparr>cm_data := data\<rparr>" by (cases cms) auto
  then have "is_reserve_cm cm" by (simp add: is_reserve_cm_def sample_cm_def)
  with st' cm table show ?thesis by auto
qed

lemma cleanExpired_sends:
  assumes "distinct (map fst rs)"
    and "\<forall>l \<in> snd ` set rs. \<forall>kept. subseq kept l \<longrightarrow>
        (\<exists>b. ce_marshal env kept = Inr b \<and> ce_unmarshal env b = Inr kept)"
  shows "\<exists>st' cms. cleanExpired_round env clock rs st = Some st' \<and> cs_sent st' = cs_sent st @ cms \<and>
    ((\<forall>l \<in> snd ` set rs. \<forall>r \<in> set l. \<forall>k. alive (clock k) r) \<longrightarrow> st' = st) \<and>
    (\<forall>cm. (\<exists>l \<in> snd ` set rs. \<exists>r \<in> set l. \<forall>k. \<not> alive (clock k) r) \<and>
         ce_lister env (cs_sent st) (cs_cached st) = Inr cm \<longrightarrow>
       cms \<noteq> [] \<and> (\<exists>data. hd cms = cm\<lparr>cm_data := data\<rparr>) \<and>
       (ce_update env (cs_sent st) (hd cms) = None \<longrightarrow> length cms = 1)) \<and>
    (\<forall>cm \<in> set cms. \<exists>table. loadFromConfigMap (ce_unmarshal env) (cm_data cm) = (None, table) \<and>
       (\<forall>node. case map_of rs node of
            None \<Rightarrow> map_of table node = None
          | Some l \<Rightarrow> (\<exists>kept. map_of table node = Some kept \<and> cleaned clock l kept)))"
proof -
  obtain new updated where round: "clean_nodes clock 0 rs = (new, updated)"
    by (cases "clean_nodes clock 0 rs")
  note kept = clean_nodes_spec [OF round]
  show ?thesis
  proof (cases updated)
    case False
    then have "cleanExpired_round env clock rs st = Some st" using round by (simp add: cleanExpired_round_def)
    moreover have "\<not> (\<exists>l \<in> snd ` set rs. \<exists>r \<in> set l. \<forall>k. \<not> alive (clock k) r)"
      using clean_nodes_updated [OF round] False by blast
    ultimately show ?thesis by (intro exI [of _ st] exI [of _ "[]"]) auto
  next
    case True
    obtain err st' where upd: "updateCM env new st = Some (err, st')"
      using updateCM_returns [of env new st] by (cases "updateCM env new st") auto
    then have run: "cleanExpired_round env clock rs st = Some st'" using round True by (simp add: cleanExpired_round_def)
    have "distinct (map fst new)" using assms(1) cleaned_keys [OF conjunct1 [OF kept]] by simp
    moreover have "codec_restores env new"
      unfolding codec_restores_def
    proof
      fix k assume "k \<in> snd ` set new"
      then obtain n where n: "n < length new" "k = snd (new ! n)" by (auto simp: in_set_conv_nth)
      with kept have "subseq k (snd (rs ! n))" "snd (rs ! n) \<in> snd ` set rs"
        by (auto simp: list_all2_conv_all_nth cleaned_def)
      with assms(2) show "\<exists>b. ce_marshal env k = Inr b \<and> ce_unmarshal env b = Inr k" by blast
    qed
    ultimately obtain cms where cms: "cs_sent st' = cs_sent st @ cms"
      "\<forall>cm \<in> set cms. \<exists>table. loadFromConfigMap (ce_unmarshal env) (cm_data cm) = (None, table) \<and> map_of table = map_of new"
      "\<forall>cm. ce_lister env (cs_sent st) (cs_cached st) = Inr cm \<longrightarrow>
         cms \<noteq> [] \<and> (\<exists>data. hd cms = cm\<lparr>cm_data := data\<rparr>) \<and> (ce_update env (cs_sent st) (hd cms) = None \<longrightarrow> length cms = 1)"
      using updateCM_sends_table [OF upd] by blast
    have lookup: "case map_of rs node of
            None \<Rightarrow> map_of table node = None
          | Some l \<Rightarrow> (\<exists>kept. map_of table node = Some kept \<and> cleaned clock l kept)"
      if "map_of table = map_of new" for table node
      unfolding that by (rule cleaned_lookup [OF conjunct1 [OF kept]])
    have "\<not> (\<forall>l \<in> snd ` set rs. \<forall>r \<in> set l. \<forall>k. alive (clock k) r)" using kept True by blast
    then show ?thesis using run cms lookup by (intro exI [of _ st'] exI [of _ cms]) (simp, blast)
  qed
qed

text \<open>
  C29.  Cleaning removes the expired and nothing else.  A round that finds every reservation alive
  sends nothing.  When one is dead at all readings of the clock and the lister finds the config
  map, the round does send: first the config map found, with new data, and nothing more when the
  API server accepts that.  Every config map it sends is loaded without an error as a table with
  the same nodes, whose lists keep the order of the old ones, with each reservation that is
  alive at all readings and none that is dead at all of them; when the readings agree on every
  reservation of a node, its list is exactly that of the reservations alive.  The codec is
  assumed to read back the lists that remain.
\<close>

theorem cleanExpired_spec:
  assumes "distinct (map fst rs)"
    and "\<forall>l \<in> snd ` set rs. \<forall>kept. subseq kept l \<longrightarrow>
        (\<exists>b. ce_marshal env kept = Inr b \<and> ce_unmarshal env b = Inr kept)"
  shows "\<exists>st' cms. cleanExpired_round env clock rs st = Some st' \<and> cs_sent st' = cs_sent st @ cms \<and>
    ((\<forall>l \<in> snd ` set rs. \<forall>r \<in> set l. \<forall>k. alive (clock k) r) \<longrightarrow> st' = st) \<and>
    (\<forall>cm. (\<exists>l \<in> snd ` set rs. \<exists>r \<in> set l. \<forall>k. \<not> alive (clock k) r) \<and>
         ce_lister env (cs_sent st) (cs_cached st) = Inr cm \<longrightarrow>
       cms \<noteq> [] \<and> (\<exists>data. hd cms = cm\<lparr>cm_data := data\<rparr>) \<and>
       (ce_update env (cs_sent st) (hd cms) = None \<longrightarrow> length cms = 1)) \<and>
    (\<forall>cm \<in> set cms. \<exists>table. loadFromConfigMap (ce_unmarshal env) (cm_data cm) = (None, table) \<and>
       (\<forall>node. case map_of rs node of
            None \<Rightarrow> map_of table node = None
          | Some l \<Rightarrow> (\<exists>kept. map_of table node = Some kept \<and> subseq kept l \<and>
              (\<forall>r \<in> set l. (\<forall>k. alive (clock k) r) \<longrightarrow> r \<in> set kept) \<and> (\<forall>r \<in> set kept. \<exists>k. alive (clock k) r) \<and>
              ((\<forall>r \<in> set l. (\<forall>k. alive (clock k) r) \<or> (\<forall>k. \<not> alive (clock k) r)) \<longrightarrow>
                 kept = filter (alive (clock 0)) l))))"
  using cleanExpired_sends [OF assms] unfolding cleaned_def .

theorem cleanExpired_spec_witness:
  "\<exists>st' cm. cleanExpired_round sample_cm_env (\<lambda>_. time_unix 100) [(''n1'', [reservation_for ''b'' 7])]
      \<lparr>cs_cached = None, cs_sent = []\<rparr> = Some st' \<and> cs_sent st' = [cm] \<and>
     map_of (snd (loadFromConfigMap (ce_unmarshal sample_cm_env) (cm_data cm))) ''n1'' = Some []"
proof -
  let ?rs = "[(''n1'', [reservation_for ''b'' 7])]"
  have sub: "kept = [] \<or> kept = [reservation_for ''b'' 7]" if "subseq kept [reservation_for ''b'' 7]" for kept
    using that by (cases kept) (auto split: if_splits)
  have codec: "\<forall>l \<in> snd ` set ?rs. \<forall>kept. subseq kept l \<longrightarrow>
      (\<exists>b. ce_marshal sample_cm_env kept = Inr b \<and> ce_unmarshal sample_cm_env b = Inr kept)"
    by (auto simp: sample_cm_env_def dest!: sub)
  have dead: "\<not> alive (time_unix 100) (reservation_for ''b'' 7)"
    by (simp add: alive_def int64_less_def unix_seconds_def time_unix_def unix_epoch_def second_def)
  let ?st = "\<lparr>cs_cached = None, cs_sent = []\<rparr>"
  have "distinct (map fst ?rs)" by simp
  from cleanExpired_spec [folded cleaned_def, OF this codec, where clock = "\<lambda>_. time_unix 100" and st = ?st]
  obtain st' cms where st': "cleanExpired_round sample_cm_env (\<lambda>_. time_unix 100) ?rs ?st = Some st'" "cs_sent st' = cs_sent ?st @ cms"
    and sent: "\<forall>cm. (\<exists>l \<in> snd ` set ?rs. \<exists>r \<in> set l. \<forall>k::nat. \<not> alive ((\<lambda>_. time_unix 100) k) r) \<and>
         ce_lister sample_cm_env (cs_sent ?st) (cs_cached ?st) = Inr cm \<longrightarrow>
       cms \<noteq> [] \<and> (\<exists>data. hd cms = cm\<lparr>cm_data := data\<rparr>) \<and>
       (ce_update sample_cm_env (cs_sent ?st) (hd cms) = None \<longrightarrow> length cms = 1)"
    and table: "\<forall>cm \<in> set cms. \<exists>table. loadFromConfigMap (ce_unmarshal sample_cm_env) (cm_data cm) = (None, table) \<and>
       (\<forall>node. case map_of ?rs node of
            None \<Rightarrow> map_of table node = None
          | Some l \<Rightarrow> (\<exists>kept. map_of table node = Some kept \<and> cleaned (\<lambda>_. time_unix 100) l kept))"
    by blast
  from sent [rule_format, of sample_cm] dead have "length cms = 1" by (simp add: sample_lister)
  then obtain cm where cm: "cms = [cm]" by (cases cms) auto
  with table obtain table where load: "loadFromConfigMap (ce_unmarshal sample_cm_env) (cm_data cm) = (None, table)"
    and at: "\<forall>node. case map_of ?rs node of
            None \<Rightarrow> map_of table node = None
          | Some l \<Rightarrow> (\<exists>kept. map_of table node = Some kept \<and> cleaned (\<lambda>_. time_unix 100) l kept)" by auto
  from at [rule_format, of "''n1''"] obtain kept where
    "map_of table ''n1'' = Some kept" "cleaned (\<lambda>_. time_unix 100) [reservation_for ''b'' 7] kept" by auto
  with load dead st' cm show ?thesis by (auto simp: cleaned_def)
qed

end
