(* ===== verification/Go_Regexp.thy ===== *)
theory Go_Regexp
  imports Prelude
begin

text \<open>
  The regular expressions of Go's \<open>regexp\<close> that the node daemon compiles: classes of bytes,
  sequence, choice, repetition.  \<open>accepts\<close> is the meaning of an anchored expression
  \<open>^...$\<close>; \<open>matches\<close> decides it by taking what remains of the expression after each
  byte.  The operators that build an expression drop parts that accept nothing, which keeps
  the remainders small.
\<close>

datatype regexp =
    Nothing
  | Blank
  | Class "char \<Rightarrow> bool"
  | Seq regexp regexp
  | Choice regexp regexp
  | Many regexp

inductive accepts :: "regexp \<Rightarrow> string \<Rightarrow> bool" where
  blank: "accepts Blank []"
| one: "P c \<Longrightarrow> accepts (Class P) [c]"
| seq: "accepts r s \<Longrightarrow> accepts q t \<Longrightarrow> accepts (Seq r q) (s @ t)"
| left: "accepts r s \<Longrightarrow> accepts (Choice r q) s"
| right: "accepts q s \<Longrightarrow> accepts (Choice r q) s"
| stop: "accepts (Many r) []"
| again: "accepts r s \<Longrightarrow> accepts (Many r) t \<Longrightarrow> accepts (Many r) (s @ t)"

inductive_simps accepts_Nothing [simp]: "accepts Nothing s"
inductive_simps accepts_Blank [simp]: "accepts Blank s"
inductive_simps accepts_Class [simp]: "accepts (Class P) s"
inductive_simps accepts_Seq: "accepts (Seq r q) s"
inductive_simps accepts_Choice [simp]: "accepts (Choice r q) s"
inductive_cases accepts_ManyE: "accepts (Many r) s"

section \<open>The decision\<close>

fun mk_seq :: "regexp \<Rightarrow> regexp \<Rightarrow> regexp" where
  "mk_seq Nothing q = Nothing"
| "mk_seq Blank q = q"
| "mk_seq r q = Seq r q"

fun mk_choice :: "regexp \<Rightarrow> regexp \<Rightarrow> regexp" where
  "mk_choice Nothing q = q"
| "mk_choice r Nothing = r"
| "mk_choice r q = Choice r q"

primrec may_end :: "regexp \<Rightarrow> bool" where
  "may_end Nothing = False"
| "may_end Blank = True"
| "may_end (Class P) = False"
| "may_end (Seq r q) = (may_end r \<and> may_end q)"
| "may_end (Choice r q) = (may_end r \<or> may_end q)"
| "may_end (Many r) = True"

primrec after :: "regexp \<Rightarrow> char \<Rightarrow> regexp" where
  "after Nothing c = Nothing"
| "after Blank c = Nothing"
| "after (Class P) c = (if P c then Blank else Nothing)"
| "after (Seq r q) c =
     (if may_end r then mk_choice (mk_seq (after r c) q) (after q c) else mk_seq (after r c) q)"
| "after (Choice r q) c = mk_choice (after r c) (after q c)"
| "after (Many r) c = mk_seq (after r c) (Many r)"

definition matches :: "regexp \<Rightarrow> string \<Rightarrow> bool" where
  "matches r s = may_end (foldl after r s)"

section \<open>The decision is right\<close>

lemma accepts_mk_seq [simp]: "accepts (mk_seq r q) s \<longleftrightarrow> (\<exists>t u. s = t @ u \<and> accepts r t \<and> accepts q u)"
  by (cases r) (auto simp: accepts_Seq)

lemma accepts_mk_choice [simp]: "accepts (mk_choice r q) s = accepts (Choice r q) s"
  by (induction r q rule: mk_choice.induct) auto

lemma accepts_Nil: "accepts r [] = may_end r"
  by (induction r) (auto simp: accepts_Seq intro: accepts.intros)

text \<open>A repetition of a text that begins with a byte begins with a run that has this byte.\<close>

lemma accepts_Many_Cons:
  "accepts (Many r) (c # s) \<longleftrightarrow> (\<exists>t u. s = t @ u \<and> accepts r (c # t) \<and> accepts (Many r) u)"
proof
  show "accepts (Many r) (c # s) \<Longrightarrow> \<exists>t u. s = t @ u \<and> accepts r (c # t) \<and> accepts (Many r) u"
  proof (induction "Many r" "c # s" rule: accepts.induct)
    case (again a b)
    then show ?case by (cases a) auto
  qed
  show "\<exists>t u. s = t @ u \<and> accepts r (c # t) \<and> accepts (Many r) u \<Longrightarrow> accepts (Many r) (c # s)"
    using accepts.again by fastforce
qed

lemma accepts_Seq_Cons:
  "accepts (Seq r q) (c # s) \<longleftrightarrow>
     (accepts r [] \<and> accepts q (c # s)) \<or> (\<exists>t u. s = t @ u \<and> accepts r (c # t) \<and> accepts q u)"
  by (auto simp: accepts_Seq Cons_eq_append_conv)

lemma accepts_after: "accepts (after r c) s = accepts r (c # s)"
proof (induction r arbitrary: s)
  case (Seq r q)
  then show ?case by (auto simp: accepts_Seq_Cons accepts_Nil)
next
  case (Many r)
  then show ?case by (auto simp: accepts_Many_Cons)
qed auto

lemma matches_accepts: "matches r s = accepts r s"
proof (induction s arbitrary: r)
  case Nil
  then show ?case by (simp add: matches_def accepts_Nil)
next
  case (Cons c s)
  then show ?case by (simp add: matches_def accepts_after)
qed

section \<open>Derived forms\<close>

text \<open>\<open>r+\<close>, \<open>r?\<close>, \<open>r\{n\}\<close> and a literal text.\<close>

definition some_of :: "regexp \<Rightarrow> regexp" where
  "some_of r = Seq r (Many r)"

definition maybe :: "regexp \<Rightarrow> regexp" where
  "maybe r = Choice r Blank"

primrec times :: "nat \<Rightarrow> regexp \<Rightarrow> regexp" where
  "times 0 r = Blank"
| "times (Suc n) r = Seq r (times n r)"

primrec literal :: "string \<Rightarrow> regexp" where
  "literal [] = Blank"
| "literal (c # s) = Seq (Class (\<lambda>b. b = c)) (literal s)"

lemma accepts_literal [simp]: "accepts (literal w) s \<longleftrightarrow> s = w"
  by (induction w arbitrary: s) (auto simp: accepts_Seq)

lemma accepts_maybe [simp]: "accepts (maybe r) s \<longleftrightarrow> accepts r s \<or> s = []"
  by (simp add: maybe_def)

text \<open>Every byte of an accepted text is in one of the classes of the expression.\<close>

primrec bytes :: "regexp \<Rightarrow> char \<Rightarrow> bool" where
  "bytes Nothing c = False"
| "bytes Blank c = False"
| "bytes (Class P) c = P c"
| "bytes (Seq r q) c = (bytes r c \<or> bytes q c)"
| "bytes (Choice r q) c = (bytes r c \<or> bytes q c)"
| "bytes (Many r) c = bytes r c"

lemma accepts_bytes: "accepts r s \<Longrightarrow> c \<in> set s \<Longrightarrow> bytes r c"
  by (induction rule: accepts.induct) auto

lemma bytes_times: "bytes (times n r) c \<Longrightarrow> bytes r c"
  by (induction n) auto

lemma bytes_literal: "bytes (literal w) c \<longleftrightarrow> c \<in> set w"
  by (induction w) auto

lemma accepts_length_times: "accepts (times n (Class P)) s \<Longrightarrow> length s = n \<and> (\<forall>c \<in> set s. P c)"
  by (induction n arbitrary: s) (auto simp: accepts_Seq)

lemma accepts_some_of_not_Nil: "accepts (some_of (Class P)) s \<Longrightarrow> s \<noteq> []"
  by (auto simp: some_of_def accepts_Seq)

end
