(* ===== verification/Image_Daemon.thy ===== *)
theory Image_Daemon
  imports Api_Types Go_Regexp "HOL-Library.AList"
begin

text \<open>
  \<open>deployer/pkg/daemon\<close>: the daemon that pulls, on every node, the images of the node's
  ImageList.  \<open>containerd.go\<close> implements the interface \<open>CRI\<close> of \<open>cri.go\<close>; \<open>daemon.go\<close>
  uses nothing else of it, so the operations of the daemon take an implementation as an
  argument and the locale \<open>cri\_contract\<close> states what they need of it.

  The containerd client is the record \<open>containerd\<close>, over any state of the node's image store.
  \<open>CheckAndPull\<close> starts one goroutine per image; \<open>rank\<close> is the scheduler: the goroutines
  run in the order of the ranks of their images, which can be any order.  A Go map is an
  association list with distinct keys, in the order in which a range visits it.
\<close>

section \<open>The containerd client\<close>

record 'w containerd =
  cd_list :: "'w \<Rightarrow> go_error + string list"
  cd_pull :: "string \<Rightarrow> 'w \<Rightarrow> go_error option \<times> 'w"

text \<open>\<open>validImageRegex\<close>; \<open>\w\<close> is a letter, a digit or an underscore.\<close>

definition lower :: "char \<Rightarrow> bool" where
  "lower c \<longleftrightarrow> c \<in> set ''abcdefghijklmnopqrstuvwxyz''"

definition upper :: "char \<Rightarrow> bool" where
  "upper c \<longleftrightarrow> c \<in> set ''ABCDEFGHIJKLMNOPQRSTUVWXYZ''"

definition digit :: "char \<Rightarrow> bool" where
  "digit c \<longleftrightarrow> c \<in> set ''0123456789''"

definition hex :: "char \<Rightarrow> bool" where
  "hex c \<longleftrightarrow> c \<in> set ''abcdefABCDEF'' \<or> digit c"

definition host_byte :: "char \<Rightarrow> bool" where
  "host_byte c \<longleftrightarrow> lower c \<or> upper c \<or> digit c \<or> c \<in> set ''.-''"

definition name_byte :: "char \<Rightarrow> bool" where
  "name_byte c \<longleftrightarrow> lower c \<or> digit c"

definition tag_byte :: "char \<Rightarrow> bool" where
  "tag_byte c \<longleftrightarrow> lower c \<or> upper c \<or> digit c \<or> c \<in> set ''_.-''"

definition image_path :: regexp where
  "image_path =
     Many (Seq (some_of (Class host_byte))
            (Seq (maybe (Seq (literal '':'') (some_of (Class digit)))) (literal ''/'')))"

definition image_base :: regexp where
  "image_base =
     Seq (some_of (Class name_byte))
       (Many (Seq (Class (\<lambda>c. c \<in> set ''._-'')) (some_of (Class name_byte))))"

definition image_tag :: regexp where
  "image_tag = maybe (Seq (literal '':'') (some_of (Class tag_byte)))"

definition image_digest :: regexp where
  "image_digest = maybe (Seq (literal ''@sha256:'') (times 64 (Class hex)))"

definition validImageRegex :: regexp where
  "validImageRegex = Seq (Seq image_path image_base) (Seq image_tag image_digest)"

definition IsValidDockerImageName :: "string \<Rightarrow> bool" where
  "IsValidDockerImageName imageName = matches validImageRegex imageName"

text \<open>The reference that is handed to containerd.\<close>

definition pull_reference :: "string \<Rightarrow> string" where
  "pull_reference img =
     (let img = (if CHR ''/'' \<notin> set img then ''docker.io/library/'' @ img else img)
      in if CHR '':'' \<notin> set img then img @ '':latest'' else img)"

definition pullSingleImage :: "'w containerd \<Rightarrow> string \<Rightarrow> 'w \<Rightarrow> go_error option \<times> 'w" where
  "pullSingleImage client img w =
     (if \<not> IsValidDockerImageName img then (Some (ErrFmt ''invalid image name: %v'' [img]), w)
      else cd_pull client (pull_reference img) w)"

definition getExistingImages :: "'w containerd \<Rightarrow> 'w \<Rightarrow> go_error + string list" where
  "getExistingImages client w =
     (case cd_list client w of
        Inl err \<Rightarrow> Inl err
      | Inr images \<Rightarrow> Inr (fold List.insert images []))"

definition filterMissingImages :: "string list \<Rightarrow> string list \<Rightarrow> string list" where
  "filterMissingImages targets existing = filter (\<lambda>img. img \<notin> set existing) targets"

type_synonym failed_images = "(string \<times> bool) list"

fun pull_all ::
  "'w containerd \<Rightarrow> string list \<Rightarrow> failed_images \<Rightarrow> 'w \<Rightarrow> failed_images \<times> 'w" where
  "pull_all client [] failedPull w = (failedPull, w)"
| "pull_all client (img # imgs) failedPull w =
     (case pullSingleImage client img w of
        (Some err, w) \<Rightarrow> pull_all client imgs (AList.update img True failedPull) w
      | (None, w) \<Rightarrow> pull_all client imgs failedPull w)"

definition CheckAndPull ::
  "'w containerd \<Rightarrow> (string \<Rightarrow> nat) \<Rightarrow> string list \<Rightarrow> 'w \<Rightarrow> (go_error + failed_images) \<times> 'w" where
  "CheckAndPull client rank imageList w =
     (case getExistingImages client w of
        Inl err \<Rightarrow> (Inl err, w)
      | Inr existing \<Rightarrow>
          (let toPull = filterMissingImages imageList existing
           in if toPull = [] then (Inr [], w)
              else (case pull_all client (sort_key rank toPull) [] w of
                      (failedPull, w) \<Rightarrow> (Inr failedPull, w))))"

section \<open>The daemon\<close>

type_synonym 'w cri = "string list \<Rightarrow> 'w \<Rightarrow> (go_error + failed_images) \<times> 'w"

record daemon =
  AlwaysPullImages :: "(string \<times> gotime) list"
  RetryImages :: "(string \<times> bool) list"

definition new_daemon :: daemon where
  "new_daemon = \<lparr>AlwaysPullImages = [], RetryImages = []\<rparr>"

text \<open>Reading a Go map of booleans.\<close>

definition marked :: "(string \<times> bool) list \<Rightarrow> string \<Rightarrow> bool" where
  "marked m k = (case map_of m k of None \<Rightarrow> False | Some v \<Rightarrow> v)"

text \<open>
  \<open>PullImages\<close> notes the images to pull and the times of the images that are always pulled,
  runs the CRI, and notes what failed.
\<close>

fun note_images :: "image_list \<Rightarrow> string list \<Rightarrow> daemon \<Rightarrow> string list \<times> daemon" where
  "note_images [] toPull d = (toPull, d)"
| "note_images ((imgName, imgInfo) # imageList) toPull d =
     note_images imageList (toPull @ [imgName])
       (if ii_always_pull imgInfo
        then d\<lparr>AlwaysPullImages := AList.update imgName (ii_next_pull imgInfo) (AlwaysPullImages d)\<rparr>
        else d)"

fun note_failed :: "failed_images \<Rightarrow> daemon \<Rightarrow> daemon" where
  "note_failed [] d = d"
| "note_failed ((k, v) # failed) d =
     note_failed failed (if v then d\<lparr>RetryImages := AList.update k True (RetryImages d)\<rparr> else d)"

definition pull_finished :: "go_error + failed_images \<Rightarrow> daemon \<Rightarrow> go_error option \<times> daemon" where
  "pull_finished result d =
     (case result of
        Inl err \<Rightarrow> (Some err, d)
      | Inr failed \<Rightarrow> (None, note_failed failed d))"

definition PullImages :: "'w cri \<Rightarrow> image_list \<Rightarrow> daemon \<Rightarrow> 'w \<Rightarrow> go_error option \<times> daemon \<times> 'w" where
  "PullImages cri imageList d w =
     (let (toPull, d) = note_images imageList [] d;
          (result, w) = cri toPull w;
          (err, d) = pull_finished result d
      in (err, d, w))"

text \<open>One round of \<open>loopRetry\<close>: what it collects, and what its goroutine does with the result.\<close>

definition retry_collect :: "daemon \<Rightarrow> string list" where
  "retry_collect d = map fst (filter snd (RetryImages d))"

fun retry_clear :: "string list \<Rightarrow> failed_images \<Rightarrow> daemon \<Rightarrow> daemon" where
  "retry_clear [] failedImages d = d"
| "retry_clear (v # toPull) failedImages d =
     retry_clear toPull failedImages
       (if \<not> marked failedImages v then d\<lparr>RetryImages := AList.delete v (RetryImages d)\<rparr> else d)"

definition retry_finished :: "string list \<Rightarrow> go_error + failed_images \<Rightarrow> daemon \<Rightarrow> daemon" where
  "retry_finished toPull result d =
     (case result of Inl err \<Rightarrow> d | Inr failedImages \<Rightarrow> retry_clear toPull failedImages d)"

text \<open>One round of \<open>loopAlwaysPull\<close>; the clock is read for every image.\<close>

fun always_due :: "(nat \<Rightarrow> gotime) \<Rightarrow> nat \<Rightarrow> (string \<times> gotime) list \<Rightarrow> string list" where
  "always_due clock i [] = []"
| "always_due clock i ((k, v) # images) =
     (if time_before v (clock i) then k # always_due clock (Suc i) images else always_due clock (Suc i) images)"

definition always_collect :: "(nat \<Rightarrow> gotime) \<Rightarrow> daemon \<Rightarrow> string list" where
  "always_collect clock d = always_due clock 0 (AlwaysPullImages d)"

fun always_note :: "(nat \<Rightarrow> gotime) \<Rightarrow> nat \<Rightarrow> string list \<Rightarrow> failed_images \<Rightarrow> daemon \<Rightarrow> daemon" where
  "always_note clock i [] failedImages d = d"
| "always_note clock i (v # toPull) failedImages d =
     (if marked failedImages v
      then always_note clock i toPull failedImages (d\<lparr>RetryImages := AList.update v True (RetryImages d)\<rparr>)
      else always_note clock (Suc i) toPull failedImages
             (d\<lparr>AlwaysPullImages :=
                  AList.update v (time_add (clock i) (24 * 3600 * second)) (AlwaysPullImages d)\<rparr>))"

definition always_finished ::
  "(nat \<Rightarrow> gotime) \<Rightarrow> string list \<Rightarrow> go_error + failed_images \<Rightarrow> daemon \<Rightarrow> daemon" where
  "always_finished clock toPull result d =
     (case result of Inl err \<Rightarrow> d | Inr failedImages \<Rightarrow> always_note clock 0 toPull failedImages d)"

text \<open>The events of the watch, and \<open>Start\<close>: the first list, then the events one after another.\<close>

datatype watch_event = Added image_list | Modified image_list | Deleted | OtherEvent

definition always_dropped :: "daemon \<Rightarrow> daemon" where
  "always_dropped d = d\<lparr>AlwaysPullImages := []\<rparr>"

definition retry_dropped :: "daemon \<Rightarrow> daemon" where
  "retry_dropped d = d\<lparr>RetryImages := []\<rparr>"

definition images_deleted :: "daemon \<Rightarrow> daemon" where
  "images_deleted d = retry_dropped (always_dropped d)"

fun handle_event :: "'w cri \<Rightarrow> watch_event \<Rightarrow> daemon \<times> 'w \<Rightarrow> daemon \<times> 'w" where
  "handle_event cri (Added imageList) (d, w) = snd (PullImages cri imageList d w)"
| "handle_event cri (Modified imageList) (d, w) = snd (PullImages cri imageList d w)"
| "handle_event cri Deleted (d, w) = (images_deleted d, w)"
| "handle_event cri OtherEvent (d, w) = (d, w)"

definition Start ::
  "'w cri \<Rightarrow> go_error + image_list list \<Rightarrow> go_error option \<Rightarrow> watch_event list \<Rightarrow> daemon \<times> 'w \<Rightarrow>
   go_error option \<times> daemon \<times> 'w" where
  "Start cri listed watch_error events s =
     (case listed of
        Inl err \<Rightarrow> (Some err, s)
      | Inr items \<Rightarrow>
          (let s = (if items \<noteq> [] then snd (PullImages cri (last items) (fst s) (snd s)) else s)
           in case watch_error of
                Some err \<Rightarrow> (Some err, s)
              | None \<Rightarrow> (None, fold (handle_event cri) events s)))"

section \<open>The contract of the CRI\<close>

text \<open>
  What the daemon needs of \<open>CheckAndPull\<close>: what failed is a map with value true everywhere,
  on images that were asked for, and an error means that nothing was pulled.
\<close>

locale cri_contract =
  fixes check_and_pull :: "'w cri"
  assumes failed_requested: "check_and_pull imgs w = (Inr failed, w') \<Longrightarrow> fst ` set failed \<subseteq> set imgs"
    and failed_true: "check_and_pull imgs w = (Inr failed, w') \<Longrightarrow> (k, v) \<in> set failed \<Longrightarrow> v"
    and failed_map: "check_and_pull imgs w = (Inr failed, w') \<Longrightarrow> distinct (map fst failed)"
    and error_idle: "check_and_pull imgs w = (Inl err, w') \<Longrightarrow> w' = w"

definition failed_ok :: "string set \<Rightarrow> failed_images \<Rightarrow> bool" where
  "failed_ok A failed \<longleftrightarrow> fst ` set failed \<subseteq> A \<and> (\<forall>v \<in> snd ` set failed. v) \<and> distinct (map fst failed)"

lemma failed_ok_update: "failed_ok A failed \<Longrightarrow> img \<in> A \<Longrightarrow> failed_ok A (AList.update img True failed)"
proof -
  have "set (AList.update img True failed) \<subseteq> insert (img, True) (set failed)" for failed
    by (induction failed) auto
  then show "failed_ok A failed \<Longrightarrow> img \<in> A \<Longrightarrow> failed_ok A (AList.update img True failed)"
    by (fastforce simp: failed_ok_def distinct_update)
qed

lemma pull_all_ok:
  "pull_all client imgs failed w = (failed', w') \<Longrightarrow> failed_ok A failed \<Longrightarrow> set imgs \<subseteq> A \<Longrightarrow> failed_ok A failed'"
proof (induction imgs arbitrary: failed w)
  case (Cons img imgs)
  obtain r w1 where "pullSingleImage client img w = (r, w1)" by (cases "pullSingleImage client img w")
  with Cons show ?case by (cases r) (simp_all add: failed_ok_update)
qed simp

lemma CheckAndPull_ok:
  assumes "CheckAndPull client rank imgs w = (Inr failed, w')"
  shows "failed_ok (set imgs) failed"
proof (cases "getExistingImages client w")
  case (Inr existing)
  show ?thesis
  proof (cases "filterMissingImages imgs existing = []")
    case False
    with Inr assms have "pull_all client (sort_key rank (filterMissingImages imgs existing)) [] w = (failed, w')"
      by (auto simp: CheckAndPull_def Let_def split: prod.splits)
    then show ?thesis by (rule pull_all_ok) (auto simp: failed_ok_def filterMissingImages_def)
  qed (use Inr assms in \<open>simp add: CheckAndPull_def failed_ok_def\<close>)
qed (use assms in \<open>simp add: CheckAndPull_def\<close>)

interpretation containerd_cri: cri_contract "CheckAndPull client rank" for client rank
proof unfold_locales
  fix imgs w failed w'
  assume "CheckAndPull client rank imgs w = (Inr failed, w')"
  note ok = CheckAndPull_ok [OF this, unfolded failed_ok_def]
  show "fst ` set failed \<subseteq> set imgs" "distinct (map fst failed)" using ok by blast+
  fix k v assume "(k, v) \<in> set failed"
  then show v using ok by force
next
  fix imgs w err w'
  assume "CheckAndPull client rank imgs w = (Inl err, w')"
  then show "w' = w" by (auto simp: CheckAndPull_def Let_def split: sum.splits prod.splits if_splits)
qed


section \<open>What the operations do to the two sets of images\<close>

definition to_retry :: "daemon \<Rightarrow> string set" where
  "to_retry d = {k. marked (RetryImages d) k}"

definition always :: "daemon \<Rightarrow> string set" where
  "always d = dom (map_of (AlwaysPullImages d))"

definition failing :: "failed_images \<Rightarrow> string set" where
  "failing failed = {k. marked failed k}"

lemma marked_Some: "marked m k \<longleftrightarrow> map_of m k = Some True"
  by (simp add: marked_def split: option.splits)

lemma marked_update [simp]: "marked (AList.update k v m) k' \<longleftrightarrow> (if k' = k then v else marked m k')"
  by (simp add: marked_def update_conv')

lemma marked_delete [simp]: "marked (AList.delete k m) k' \<longleftrightarrow> k' \<noteq> k \<and> marked m k'"
  by (auto simp: marked_def delete_conv')

lemma to_retry_simps [simp]:
  "to_retry (d\<lparr>AlwaysPullImages := a\<rparr>) = to_retry d"
  "to_retry (d\<lparr>RetryImages := AList.update k True m\<rparr>) = insert k {k. marked m k}"
  "to_retry (d\<lparr>RetryImages := AList.delete k m\<rparr>) = {k. marked m k} - {k}"
  by (auto simp: to_retry_def)

lemma always_simps [simp]:
  "always (d\<lparr>RetryImages := m\<rparr>) = always d"
  "always (d\<lparr>AlwaysPullImages := AList.update k t a\<rparr>) = insert k (dom (map_of a))"
  by (auto simp: always_def update_conv')

text \<open>The entries of a map of failures whose keys are distinct are what \<open>marked\<close> reads.\<close>

lemma failing_set: "distinct (map fst failed) \<Longrightarrow> failing failed = {k. (k, True) \<in> set failed}"
  by (simp add: failing_def marked_Some)

lemma note_images_spec:
  assumes "note_images il toPull d = (toPull', d')"
  shows "toPull' = toPull @ map fst il" and "RetryImages d' = RetryImages d"
    and "to_retry d' = to_retry d" and "always d' = always d \<union> set (map fst (filter (\<lambda>e. ii_always_pull (snd e)) il))"
proof -
  from assms have "toPull' = toPull @ map fst il \<and> RetryImages d' = RetryImages d \<and> to_retry d' = to_retry d \<and>
    always d' = always d \<union> set (map fst (filter (\<lambda>e. ii_always_pull (snd e)) il))"
  proof (induction il arbitrary: toPull d)
    case (Cons e il)
    obtain name info where e: "e = (name, info)" by (cases e)
    from Cons.IH [OF Cons.prems [unfolded e note_images.simps]] show ?case
      by (auto simp: e simp flip: always_def split: if_splits)
  qed simp
  then show "toPull' = toPull @ map fst il" and "RetryImages d' = RetryImages d"
    and "to_retry d' = to_retry d" and "always d' = always d \<union> set (map fst (filter (\<lambda>e. ii_always_pull (snd e)) il))"
    by blast+
qed

lemma note_failed_spec:
  "to_retry (note_failed failed d) = to_retry d \<union> {k. (k, True) \<in> set failed}"
  "always (note_failed failed d) = always d"
  by (induction failed d rule: note_failed.induct) (auto simp flip: to_retry_def)

lemma retry_clear_spec:
  "to_retry (retry_clear toPull failed d) = to_retry d - (set toPull - failing failed)"
  "always (retry_clear toPull failed d) = always d"
  by (induction toPull failed d rule: retry_clear.induct) (auto simp: failing_def simp flip: to_retry_def)

lemma always_note_spec:
  "to_retry (always_note clock i toPull failed d) = to_retry d \<union> (set toPull \<inter> failing failed)"
  "always (always_note clock i toPull failed d) = always d \<union> (set toPull - failing failed)"
  by (induction clock i toPull failed d rule: always_note.induct)
    (auto simp: failing_def simp flip: to_retry_def always_def)

lemma always_due_subset: "set (always_due clock i images) \<subseteq> fst ` set images"
  by (induction clock i images rule: always_due.induct) auto

lemma always_collect_subset: "set (always_collect clock d) \<subseteq> always d"
  using always_due_subset [of clock 0] by (simp add: always_collect_def always_def dom_map_of_conv_image_fst)

section \<open>The daemon as a transition system\<close>

text \<open>
  The daemon runs the watch, two loops and the goroutines these start.  A job is one pass
  through the CRI with what it is for: the images are collected, the CRI is run, the result
  is applied.  The three phases of different jobs interleave in any way; only the watch waits
  for its own job before it takes the next event.  The bodies under one lock are one step, and
  so are a run of the CRI and the clearing at the end of a retry.  A deletion empties the two
  maps under their two locks, one after the other; in between \<open>ds\_deleting\<close> holds.
\<close>

datatype job_kind = EventJob | RetryJob | AlwaysJob

record job =
  jb_kind :: job_kind
  jb_images :: "string list"
  jb_result :: "(go_error + failed_images) option"

record 'w daemon_sys =
  ds_daemon :: daemon
  ds_jobs :: "job list"
  ds_world :: 'w
  ds_deleting :: bool

definition start_job :: "job_kind \<Rightarrow> string list \<Rightarrow> 'w daemon_sys \<Rightarrow> 'w daemon_sys" where
  "start_job kind imgs s =
     s\<lparr>ds_jobs := \<lparr>jb_kind = kind, jb_images = imgs, jb_result = None\<rparr> # ds_jobs s\<rparr>"

definition watch_idle :: "'w daemon_sys \<Rightarrow> bool" where
  "watch_idle s \<longleftrightarrow> \<not> ds_deleting s \<and> (\<forall>j \<in> set (ds_jobs s). jb_kind j \<noteq> EventJob)"

definition finish_job :: "(nat \<Rightarrow> gotime) \<Rightarrow> job \<Rightarrow> go_error + failed_images \<Rightarrow> daemon \<Rightarrow> daemon" where
  "finish_job clock j result d =
     (case jb_kind j of
        EventJob \<Rightarrow> snd (pull_finished result d)
      | RetryJob \<Rightarrow> retry_finished (jb_images j) result d
      | AlwaysJob \<Rightarrow> always_finished clock (jb_images j) result d)"

inductive daemon_step :: "'w cri \<Rightarrow> image_list set \<Rightarrow> 'w daemon_sys \<Rightarrow> 'w daemon_sys \<Rightarrow> bool"
  for cri ils where
  event: "il \<in> ils \<Longrightarrow> watch_idle s \<Longrightarrow> note_images il [] (ds_daemon s) = (toPull, d) \<Longrightarrow>
    daemon_step cri ils s (start_job EventJob toPull (s\<lparr>ds_daemon := d\<rparr>))"
| deleted: "watch_idle s \<Longrightarrow>
    daemon_step cri ils s (s\<lparr>ds_daemon := always_dropped (ds_daemon s), ds_deleting := True\<rparr>)"
| forgotten: "ds_deleting s \<Longrightarrow>
    daemon_step cri ils s (s\<lparr>ds_daemon := retry_dropped (ds_daemon s), ds_deleting := False\<rparr>)"
| retry: "retry_collect (ds_daemon s) = toPull \<Longrightarrow> toPull \<noteq> [] \<Longrightarrow>
    daemon_step cri ils s (start_job RetryJob toPull s)"
| always: "always_collect clock (ds_daemon s) = toPull \<Longrightarrow> toPull \<noteq> [] \<Longrightarrow>
    daemon_step cri ils s (start_job AlwaysJob toPull s)"
| pull: "ds_jobs s = xs @ j # ys \<Longrightarrow> jb_result j = None \<Longrightarrow> cri (jb_images j) (ds_world s) = (r, w) \<Longrightarrow>
    daemon_step cri ils s (s\<lparr>ds_jobs := xs @ j\<lparr>jb_result := Some r\<rparr> # ys, ds_world := w\<rparr>)"
| finish: "ds_jobs s = xs @ j # ys \<Longrightarrow> jb_result j = Some r \<Longrightarrow>
    daemon_step cri ils s (s\<lparr>ds_jobs := xs @ ys, ds_daemon := finish_job clock j r (ds_daemon s)\<rparr>)"

abbreviation daemon_steps :: "'w cri \<Rightarrow> image_list set \<Rightarrow> 'w daemon_sys \<Rightarrow> 'w daemon_sys \<Rightarrow> bool" where
  "daemon_steps cri ils \<equiv> (daemon_step cri ils)\<^sup>*\<^sup>*"

definition daemon_init :: "'w \<Rightarrow> 'w daemon_sys" where
  "daemon_init w = \<lparr>ds_daemon = new_daemon, ds_jobs = [], ds_world = w, ds_deleting = False\<rparr>"

text \<open>Everything the daemon holds was named by one of the lists.\<close>

definition job_ok :: "string set \<Rightarrow> job \<Rightarrow> bool" where
  "job_ok A j \<longleftrightarrow> set (jb_images j) \<subseteq> A \<and> (\<forall>failed. jb_result j = Some (Inr failed) \<longrightarrow> fst ` set failed \<subseteq> A)"

definition only_listed :: "string set \<Rightarrow> 'w daemon_sys \<Rightarrow> bool" where
  "only_listed A s \<longleftrightarrow> to_retry (ds_daemon s) \<subseteq> A \<and> always (ds_daemon s) \<subseteq> A \<and> (\<forall>j \<in> set (ds_jobs s). job_ok A j)"

definition listed :: "image_list set \<Rightarrow> string set" where
  "listed ils = (\<Union>il \<in> ils. fst ` set il)"

text \<open>No entry of \<open>RetryImages\<close> is false, and the keys of both maps are distinct.\<close>

definition daemon_ok :: "daemon \<Rightarrow> bool" where
  "daemon_ok d \<longleftrightarrow> distinct (map fst (RetryImages d)) \<and> distinct (map fst (AlwaysPullImages d)) \<and>
     (\<forall>e \<in> set (RetryImages d). snd e)"


section \<open>Invariants\<close>

lemma daemon_ok_update:
  "daemon_ok d \<Longrightarrow> daemon_ok (d\<lparr>RetryImages := AList.update k True (RetryImages d)\<rparr>)"
  "daemon_ok d \<Longrightarrow> daemon_ok (d\<lparr>AlwaysPullImages := AList.update k t (AlwaysPullImages d)\<rparr>)"
  "daemon_ok d \<Longrightarrow> daemon_ok (d\<lparr>RetryImages := AList.delete k (RetryImages d)\<rparr>)"
proof -
  have "set (AList.update k True m) \<subseteq> insert (k, True) (set m)" for m :: "(string \<times> bool) list"
    by (induction m) auto
  from subsetD [OF this]
  show "daemon_ok d \<Longrightarrow> daemon_ok (d\<lparr>RetryImages := AList.update k True (RetryImages d)\<rparr>)"
    by (simp add: daemon_ok_def distinct_update) (metis insertE snd_conv)
  show "daemon_ok d \<Longrightarrow> daemon_ok (d\<lparr>AlwaysPullImages := AList.update k t (AlwaysPullImages d)\<rparr>)"
    by (simp add: daemon_ok_def distinct_update)
  show "daemon_ok d \<Longrightarrow> daemon_ok (d\<lparr>RetryImages := AList.delete k (RetryImages d)\<rparr>)"
    by (simp add: daemon_ok_def distinct_delete) (simp add: AList.delete_eq split: prod.splits)
qed

lemma daemon_ok_note_images: "daemon_ok d \<Longrightarrow> daemon_ok (snd (note_images il toPull d))"
  by (induction il toPull d rule: note_images.induct) (simp_all add: daemon_ok_update)

lemma daemon_ok_note_failed: "daemon_ok d \<Longrightarrow> daemon_ok (note_failed failed d)"
  by (induction failed d rule: note_failed.induct) (simp_all add: daemon_ok_update)

lemma daemon_ok_retry_clear: "daemon_ok d \<Longrightarrow> daemon_ok (retry_clear toPull failed d)"
  by (induction toPull failed d rule: retry_clear.induct) (simp_all add: daemon_ok_update)

lemma daemon_ok_always_note: "daemon_ok d \<Longrightarrow> daemon_ok (always_note clock i toPull failed d)"
  by (induction clock i toPull failed d rule: always_note.induct) (simp_all add: daemon_ok_update)

lemma daemon_ok_finish: "daemon_ok d \<Longrightarrow> daemon_ok (finish_job clock j r d)"
  by (simp add: finish_job_def pull_finished_def retry_finished_def always_finished_def
      daemon_ok_note_failed daemon_ok_retry_clear daemon_ok_always_note split: job_kind.split sum.split)

lemma retry_collect_set: "daemon_ok d \<Longrightarrow> set (retry_collect d) = to_retry d"
  by (force simp: daemon_ok_def retry_collect_def to_retry_def marked_Some)

lemma daemon_step_ok: "daemon_step cri ils s s' \<Longrightarrow> daemon_ok (ds_daemon s) \<Longrightarrow> daemon_ok (ds_daemon s')"
proof (induction rule: daemon_step.induct)
  case (event il s toPull d)
  then show ?case using daemon_ok_note_images [of "ds_daemon s" il "[]"] by (simp add: start_job_def)
next
  case (deleted s)
  then show ?case by (simp add: always_dropped_def daemon_ok_def)
next
  case (forgotten s)
  then show ?case by (simp add: retry_dropped_def daemon_ok_def)
qed (simp_all add: start_job_def daemon_ok_finish)

context cri_contract
begin

lemma pull_job_ok: "job_ok A j \<Longrightarrow> check_and_pull (jb_images j) w = (r, w') \<Longrightarrow> job_ok A (j\<lparr>jb_result := Some r\<rparr>)"
  using failed_requested [of "jb_images j" w _ w'] by (cases r) (auto simp: job_ok_def)

lemma finish_job_listed:
  assumes "job_ok A j" and "jb_result j = Some r" and "to_retry d \<subseteq> A" and "always d \<subseteq> A"
  shows "to_retry (finish_job clock j r d) \<subseteq> A \<and> always (finish_job clock j r d) \<subseteq> A"
proof (cases r)
  case (Inr failed)
  with assms(1,2) have "set (jb_images j) \<subseteq> A" "{k. (k, True) \<in> set failed} \<subseteq> A"
    by (force simp: job_ok_def)+
  with assms(3,4) Inr show ?thesis
    by (cases "jb_kind j")
      (auto simp: finish_job_def pull_finished_def retry_finished_def always_finished_def
        note_failed_spec retry_clear_spec always_note_spec)
qed (use assms in \<open>simp add: finish_job_def pull_finished_def retry_finished_def always_finished_def
  split: job_kind.split\<close>)

lemma step_listed:
  assumes "daemon_step check_and_pull ils s s'" and "daemon_ok (ds_daemon s)" and "only_listed (listed ils) s"
  shows "only_listed (listed ils) s'"
  using assms
proof (induction rule: daemon_step.induct)
  case (event il s toPull d)
  note noted = note_images_spec [OF event(3)]
  have "fst ` set il \<subseteq> listed ils" using event(1) by (auto simp: listed_def)
  with event(5) noted show ?case by (auto simp: only_listed_def start_job_def job_ok_def)
next
  case (deleted s)
  then show ?case by (simp add: only_listed_def always_dropped_def to_retry_def always_def)
next
  case (forgotten s)
  then show ?case by (simp add: only_listed_def retry_dropped_def to_retry_def always_def marked_def)
next
  case (retry s toPull)
  then show ?case using retry_collect_set [OF retry(3)] by (auto simp: only_listed_def start_job_def job_ok_def)
next
  case (always clock s toPull)
  then show ?case
    using always_collect_subset [of clock "ds_daemon s"] by (auto simp: only_listed_def start_job_def job_ok_def)
next
  case (pull s xs j ys r w)
  then show ?case using pull_job_ok by (auto simp: only_listed_def)
next
  case (finish s xs j ys r clock)
  then show ?case using finish_job_listed [of "listed ils" j r "ds_daemon s" clock] by (simp add: only_listed_def)
qed

lemma steps_listed:
  assumes "daemon_steps check_and_pull ils (daemon_init w) s"
  shows "daemon_ok (ds_daemon s) \<and> only_listed (listed ils) s"
  using assms
proof (induction rule: rtranclp_induct)
  case base
  then show ?case
    by (simp add: daemon_init_def new_daemon_def daemon_ok_def only_listed_def to_retry_def always_def marked_def)
next
  case (step s s')
  then show ?case using daemon_step_ok step_listed by blast
qed

text \<open>The three ways to apply a result, on the sets of images.\<close>

lemma apply_result:
  assumes "check_and_pull imgs w = (Inr failed, w')"
  shows "to_retry (snd (pull_finished (Inr failed) d)) = to_retry d \<union> failing failed"
    and "to_retry (retry_finished imgs (Inr failed) d) = to_retry d - (set imgs - failing failed)"
    and "to_retry (always_finished clock imgs (Inr failed) d) = to_retry d \<union> failing failed"
    and "always (always_finished clock imgs (Inr failed) d) = always d \<union> (set imgs - failing failed)"
proof -
  have failing: "failing failed = {k. (k, True) \<in> set failed}" by (rule failing_set [OF failed_map [OF assms]])
  with failed_requested [OF assms] have "failing failed \<subseteq> set imgs" by force
  then show "to_retry (snd (pull_finished (Inr failed) d)) = to_retry d \<union> failing failed"
    and "to_retry (retry_finished imgs (Inr failed) d) = to_retry d - (set imgs - failing failed)"
    and "to_retry (always_finished clock imgs (Inr failed) d) = to_retry d \<union> failing failed"
    and "always (always_finished clock imgs (Inr failed) d) = always d \<union> (set imgs - failing failed)"
    by (auto simp: pull_finished_def retry_finished_def always_finished_def note_failed_spec
        retry_clear_spec always_note_spec failing)
qed

end


section \<open>What CheckAndPull leaves in the image store\<close>

text \<open>What containerd documents of a pull: it removes no image, and success stores the reference.\<close>

definition keeps_images :: "'w containerd \<Rightarrow> bool" where
  "keeps_images client \<longleftrightarrow>
     (\<forall>ref w r w' names. cd_pull client ref w = (r, w') \<longrightarrow> cd_list client w = Inr names \<longrightarrow>
        (\<exists>names'. cd_list client w' = Inr names' \<and> set names \<subseteq> set names' \<and> (r = None \<longrightarrow> ref \<in> set names')))"

lemma pullSingleImage_store:
  assumes "keeps_images client" and "cd_list client w = Inr names" and "pullSingleImage client img w = (r, w')"
  obtains names' where "cd_list client w' = Inr names'" and "set names \<subseteq> set names'"
    and "r = None \<Longrightarrow> IsValidDockerImageName img \<and> pull_reference img \<in> set names'"
  using assms unfolding pullSingleImage_def keeps_images_def
  by (cases "IsValidDockerImageName img") (auto, metis)

lemma marked_pull_all:
  "pull_all client imgs failed w = (failed', w') \<Longrightarrow> marked failed img \<Longrightarrow> marked failed' img"
proof (induction imgs arbitrary: failed w)
  case (Cons i imgs)
  obtain r w1 where "pullSingleImage client i w = (r, w1)" by (cases "pullSingleImage client i w")
  with Cons show ?case by (cases r) simp_all
qed simp

lemma pull_all_store:
  assumes "keeps_images client" and "cd_list client w = Inr names"
    and "pull_all client imgs failed w = (failed', w')"
  shows "\<exists>names'. cd_list client w' = Inr names' \<and> set names \<subseteq> set names' \<and>
    (\<forall>img \<in> set imgs. marked failed' img \<or> IsValidDockerImageName img \<and> pull_reference img \<in> set names')"
  using assms(2,3)
proof (induction imgs arbitrary: failed w names)
  case (Cons i imgs)
  obtain r w1 where single: "pullSingleImage client i w = (r, w1)" by (cases "pullSingleImage client i w")
  let ?failed = "if r = None then failed else AList.update i True failed"
  from Cons.prems(2) single have rest: "pull_all client imgs ?failed w1 = (failed', w')" by (cases r) simp_all
  obtain names1 where n1: "cd_list client w1 = Inr names1" "set names \<subseteq> set names1"
      "r = None \<Longrightarrow> IsValidDockerImageName i \<and> pull_reference i \<in> set names1"
    using pullSingleImage_store [OF assms(1) Cons.prems(1) single] by blast
  obtain names' where n': "cd_list client w' = Inr names'" "set names1 \<subseteq> set names'"
      "\<forall>img \<in> set imgs. marked failed' img \<or> IsValidDockerImageName img \<and> pull_reference img \<in> set names'"
    using Cons.IH [OF n1(1) rest] by blast
  have "marked failed' i" if "r \<noteq> None"
    using marked_pull_all [OF rest, of i] that by (simp del: not_None_eq)
  with n1 n' show ?case by (auto intro!: exI [of _ names'])
qed simp

lemma set_fold_insert: "set (fold List.insert xs ys) = set xs \<union> set ys"
  by (induction xs arbitrary: ys) auto

lemma getExistingImages_set:
  "cd_list client w = Inr names \<Longrightarrow> \<exists>existing. getExistingImages client w = Inr existing \<and> set existing = set names"
  by (simp add: getExistingImages_def set_fold_insert)

lemma failing_pull_all:
  assumes "pull_all client imgs [] w = (failed, w')"
  shows "failing failed \<subseteq> set imgs"
proof -
  have "failed_ok (set imgs) failed" by (rule pull_all_ok [OF assms]) (simp_all add: failed_ok_def)
  then show ?thesis by (auto simp: failed_ok_def failing_set)
qed

section \<open>References and names\<close>

text \<open>The part of a reference after its last slash: name, tag and digest.\<close>

definition last_part :: "string \<Rightarrow> string" where
  "last_part s = rev (takeWhile (\<lambda>c. c \<noteq> CHR ''/'') (rev s))"

lemma last_part_append:
  "last_part (a @ b) = (if CHR ''/'' \<in> set b then last_part b else last_part a @ b)"
  by (simp add: last_part_def takeWhile_append) (auto dest!: takeWhile_eq_all_conv [THEN iffD1])

lemma last_part_docker: "CHR ''/'' \<notin> set a \<Longrightarrow> last_part (''docker.io/library/'' @ a) = a"
  by (subst last_part_append) (simp add: last_part_def)

lemma accepts_Seq4:
  "accepts (Seq (Seq p q) (Seq r t)) s \<longleftrightarrow>
     (\<exists>a b c d. s = a @ b @ c @ d \<and> accepts p a \<and> accepts q b \<and> accepts r c \<and> accepts t d)"
  by (simp add: accepts_Seq) (metis append.assoc)

lemma accepts_some_of: "accepts (some_of (Class P)) s \<longleftrightarrow> s \<noteq> [] \<and> (\<forall>c \<in> set s. P c)"
proof (induction s)
  case (Cons c s)
  have many: "accepts (Many (Class P)) t \<longleftrightarrow> (\<forall>c \<in> set t. P c)" for t
    by (induction t) (auto simp: accepts_Many_Cons accepts_Nil)
  then show ?case by (simp add: some_of_def accepts_Seq_Cons accepts_Nil)
qed (simp add: some_of_def accepts_Nil)

lemma accepts_times: "accepts (times n (Class P)) s \<longleftrightarrow> length s = n \<and> (\<forall>c \<in> set s. P c)"
proof (induction n arbitrary: s)
  case (Suc n)
  then show ?case by (cases s) (auto simp: accepts_Seq_Cons accepts_Nil)
qed auto


section \<open>A sample image store\<close>

text \<open>The store is the list of its references; every pull succeeds.\<close>

definition sample_store :: "string list containerd" where
  "sample_store = \<lparr>cd_list = (\<lambda>w. Inr w), cd_pull = (\<lambda>ref w. (None, ref # w))\<rparr>"

definition sample_list :: image_list where
  "sample_list = [(''nginx'', \<lparr>ii_always_pull = True, ii_next_pull = 5\<rparr>), (''N!'', \<lparr>ii_always_pull = False, ii_next_pull = 0\<rparr>)]"

lemma sample_store_keeps: "keeps_images sample_store"
  by (auto simp: keeps_images_def sample_store_def)

lemma nginx_valid: "IsValidDockerImageName ''nginx''"
  by code_simp

lemma bad_name_invalid: "\<not> IsValidDockerImageName ''N!''"
  by code_simp

lemma sample_pull:
  "CheckAndPull sample_store (\<lambda>_. 0) [''nginx'', ''N!''] [] =
     (Inr [(''N!'', True)], [''docker.io/library/nginx:latest''])"
  by (simp add: CheckAndPull_def getExistingImages_def sample_store_def filterMissingImages_def
      pullSingleImage_def nginx_valid bad_name_invalid pull_reference_def)

section \<open>Properties\<close>

text \<open>
  The specification of image names is written without the expression: ranges of bytes, and a
  name as the text of its parts.
\<close>

definition within :: "char \<Rightarrow> char \<Rightarrow> char \<Rightarrow> bool" where
  "within lo hi c \<longleftrightarrow> (of_char lo :: nat) \<le> of_char c \<and> of_char c \<le> (of_char hi :: nat)"

definition made_of :: "(char \<Rightarrow> bool) \<Rightarrow> string \<Rightarrow> bool" where
  "made_of P s \<longleftrightarrow> s \<noteq> [] \<and> (\<forall>c \<in> set s. P c)"

text \<open>One part of the path: a host, perhaps with a port, and a slash; one more word of the base name.\<close>

definition host_text :: "string \<times> string option \<Rightarrow> string" where
  "host_text hp = fst hp @ (case snd hp of None \<Rightarrow> [] | Some port \<Rightarrow> CHR '':'' # port) @ ''/''"

definition word_text :: "char \<times> string \<Rightarrow> string" where
  "word_text sw = fst sw # snd sw"

lemma mem_codes: "c \<in> set s \<longleftrightarrow> (of_char c :: nat) \<in> set (map of_char s)"
  by auto

lemma byte_ranges:
  "lower c \<longleftrightarrow> within CHR ''a'' CHR ''z'' c" "upper c \<longleftrightarrow> within CHR ''A'' CHR ''Z'' c"
  "digit c \<longleftrightarrow> within CHR ''0'' CHR ''9'' c"
  "c \<in> set ''abcdefABCDEF'' \<longleftrightarrow> within CHR ''a'' CHR ''f'' c \<or> within CHR ''A'' CHR ''F'' c"
  unfolding lower_def upper_def digit_def within_def mem_codes by (simp_all, presburger+)

lemma accepts_Many_parts: "accepts (Many r) s \<longleftrightarrow> (\<exists>ts. s = concat ts \<and> (\<forall>t \<in> set ts. accepts r t))"
proof
  show "accepts (Many r) s \<Longrightarrow> \<exists>ts. s = concat ts \<and> (\<forall>t \<in> set ts. accepts r t)"
  proof (induction "Many r" s rule: accepts.induct)
    case stop
    show ?case by (rule exI [of _ "[]"]) simp
  next
    case (again s t)
    then obtain ts where "t = concat ts" "\<forall>u \<in> set ts. accepts r u" by blast
    with again.hyps(1) show ?case by (intro exI [of _ "s # ts"]) simp
  qed
  show "\<exists>ts. s = concat ts \<and> (\<forall>t \<in> set ts. accepts r t) \<Longrightarrow> accepts (Many r) s"
  proof (elim exE conjE)
    fix ts assume "s = concat ts" "\<forall>t \<in> set ts. accepts r t"
    then show "accepts (Many r) s" by (induction ts arbitrary: s) (auto intro: accepts.intros)
  qed
qed

lemma accepts_Many_image:
  assumes "\<And>t. accepts r t \<longleftrightarrow> (\<exists>x. t = f x \<and> P x)"
  shows "accepts (Many r) s \<longleftrightarrow> (\<exists>xs. s = concat (map f xs) \<and> (\<forall>x \<in> set xs. P x))"
proof -
  have "(\<forall>t \<in> set ts. \<exists>x. t = f x \<and> P x) \<longleftrightarrow> (\<exists>xs. ts = map f xs \<and> (\<forall>x \<in> set xs. P x))" for ts
    by (induction ts) (auto simp: Cons_eq_map_conv, metis list.set_intros list.simps(9) set_ConsD)
  then have "(\<exists>ts. s = concat ts \<and> (\<forall>t \<in> set ts. \<exists>x. t = f x \<and> P x)) \<longleftrightarrow>
      (\<exists>ts xs. s = concat ts \<and> ts = map f xs \<and> (\<forall>x \<in> set xs. P x))" by simp
  then show ?thesis unfolding accepts_Many_parts assms by auto
qed

lemma accepts_Class_then: "accepts (Seq (Class P) q) s \<longleftrightarrow> (\<exists>c u. s = c # u \<and> P c \<and> accepts q u)"
  by (cases s) (auto simp: accepts_Seq_Cons accepts_Nil)

lemma optional_text:
  "(\<exists>opt. s = (case opt of None \<Rightarrow> [] | Some t \<Rightarrow> f t) \<and> (\<forall>t. opt = Some t \<longrightarrow> P t)) \<longleftrightarrow> s = [] \<or> (\<exists>t. s = f t \<and> P t)"
proof -
  have "(\<exists>opt. Q opt) \<longleftrightarrow> Q None \<or> (\<exists>t. Q (Some t))" for Q :: "'a option \<Rightarrow> bool" by (metis not_Some_eq)
  then show ?thesis by simp
qed

lemma parts_joined:
  "(\<exists>a b c d. s = a @ b @ c @ d \<and> (\<exists>x. a = fa x \<and> Pa x) \<and> (\<exists>y z. b = y @ fb z \<and> Py y \<and> Pz z) \<and>
       (\<exists>t. c = fc t \<and> Pc t) \<and> (\<exists>u. d = fd u \<and> Pd u)) \<longleftrightarrow>
     (\<exists>x y z t u. s = fa x @ y @ fb z @ fc t @ fd u \<and> Pa x \<and> Py y \<and> Pz z \<and> Pc t \<and> Pd u)"
  (is "?parts \<longleftrightarrow> ?joined")
proof
  show "?parts \<Longrightarrow> ?joined" by (elim exE conjE) (simp, blast)
  show "?joined \<Longrightarrow> ?parts"
  proof (elim exE conjE)
    fix x y z t u assume "s = fa x @ y @ fb z @ fc t @ fd u" "Pa x" "Py y" "Pz z" "Pc t" "Pd u"
    then show ?parts by (intro exI [of _ "fa x"] exI [of _ "y @ fb z"] exI [of _ "fc t"] exI [of _ "fd u"]) auto
  qed
qed

text \<open>
  C32.  Which names are let through, without the regular expression: any number of hosts, each of
  letters, digits, points and dashes, perhaps with a port of digits, and followed by a slash; a
  base name of words of small letters and digits that are joined by single points, underscores
  or dashes; perhaps a colon and a tag of letters, digits, underscores, points and dashes (of
  any length, and nothing is said of its first byte); perhaps \<open>@sha256:\<close> and exactly 64
  hexadecimal digits; and nothing else.
\<close>

theorem IsValidDockerImageName_spec:
  "IsValidDockerImageName img \<longleftrightarrow>
     (\<exists>hosts word more_words tag digest.
        img = concat (map host_text hosts) @ word @ concat (map word_text more_words) @
          (case tag of None \<Rightarrow> [] | Some t \<Rightarrow> CHR '':'' # t) @
          (case digest of None \<Rightarrow> [] | Some h \<Rightarrow> ''@sha256:'' @ h) \<and>
        (\<forall>(host, port) \<in> set hosts.
           made_of (\<lambda>c. within CHR ''a'' CHR ''z'' c \<or> within CHR ''A'' CHR ''Z'' c \<or> within CHR ''0'' CHR ''9'' c \<or>
             c = CHR ''.'' \<or> c = CHR ''-'') host \<and>
           (\<forall>p. port = Some p \<longrightarrow> made_of (within CHR ''0'' CHR ''9'') p)) \<and>
        made_of (\<lambda>c. within CHR ''a'' CHR ''z'' c \<or> within CHR ''0'' CHR ''9'' c) word \<and>
        (\<forall>(sep, w) \<in> set more_words.
           (sep = CHR ''.'' \<or> sep = CHR ''_'' \<or> sep = CHR ''-'') \<and>
           made_of (\<lambda>c. within CHR ''a'' CHR ''z'' c \<or> within CHR ''0'' CHR ''9'' c) w) \<and>
        (\<forall>t. tag = Some t \<longrightarrow>
           made_of (\<lambda>c. within CHR ''a'' CHR ''z'' c \<or> within CHR ''A'' CHR ''Z'' c \<or> within CHR ''0'' CHR ''9'' c \<or>
             c = CHR ''_'' \<or> c = CHR ''.'' \<or> c = CHR ''-'') t) \<and>
        (\<forall>h. digest = Some h \<longrightarrow> length h = 64 \<and>
           (\<forall>c \<in> set h. within CHR ''a'' CHR ''f'' c \<or> within CHR ''A'' CHR ''F'' c \<or> within CHR ''0'' CHR ''9'' c)))"
proof -
  let ?host = "\<lambda>c. within CHR ''a'' CHR ''z'' c \<or> within CHR ''A'' CHR ''Z'' c \<or> within CHR ''0'' CHR ''9'' c \<or>
    c = CHR ''.'' \<or> c = CHR ''-''"
  let ?word = "\<lambda>c. within CHR ''a'' CHR ''z'' c \<or> within CHR ''0'' CHR ''9'' c"
  let ?tag = "\<lambda>c. within CHR ''a'' CHR ''z'' c \<or> within CHR ''A'' CHR ''Z'' c \<or> within CHR ''0'' CHR ''9'' c \<or>
    c = CHR ''_'' \<or> c = CHR ''.'' \<or> c = CHR ''-''"
  let ?hex = "\<lambda>c. within CHR ''a'' CHR ''f'' c \<or> within CHR ''A'' CHR ''F'' c \<or> within CHR ''0'' CHR ''9'' c"
  have bytes: "host_byte = ?host" "name_byte = ?word" "tag_byte = ?tag" "hex = ?hex"
      "digit = within CHR ''0'' CHR ''9''"
    by (auto simp: fun_eq_iff host_byte_def name_byte_def tag_byte_def hex_def byte_ranges simp del: set_simps)
      (auto simp: byte_ranges)
  have some: "accepts (some_of (Class P)) s \<longleftrightarrow> made_of P s" for P s
    by (simp add: accepts_some_of made_of_def)
  have path: "accepts image_path s \<longleftrightarrow> (\<exists>hosts. s = concat (map host_text hosts) \<and>
      (\<forall>(host, port) \<in> set hosts. made_of ?host host \<and> (\<forall>p. port = Some p \<longrightarrow> made_of (within CHR ''0'' CHR ''9'') p)))" for s
  proof -
    have "accepts (Seq (some_of (Class host_byte)) (Seq (maybe (Seq (literal '':'') (some_of (Class digit)))) (literal ''/''))) t \<longleftrightarrow>
        (\<exists>host q. t = host @ q @ ''/'' \<and> made_of ?host host \<and> (q = [] \<or> (\<exists>p. q = CHR '':'' # p \<and> made_of (within CHR ''0'' CHR ''9'') p)))" for t
      by (simp add: accepts_Seq some bytes) blast
    then have "accepts (Seq (some_of (Class host_byte)) (Seq (maybe (Seq (literal '':'') (some_of (Class digit)))) (literal ''/''))) t \<longleftrightarrow>
        (\<exists>hp. t = host_text hp \<and> made_of ?host (fst hp) \<and> (\<forall>p. snd hp = Some p \<longrightarrow> made_of (within CHR ''0'' CHR ''9'') p))" for t
      unfolding optional_text [symmetric] by (simp add: host_text_def) blast
    then show ?thesis unfolding image_path_def case_prod_beta by (rule accepts_Many_image)
  qed
  have base: "accepts image_base s \<longleftrightarrow> (\<exists>word more_words. s = word @ concat (map word_text more_words) \<and> made_of ?word word \<and>
      (\<forall>(sep, w) \<in> set more_words. (sep = CHR ''.'' \<or> sep = CHR ''_'' \<or> sep = CHR ''-'') \<and> made_of ?word w))" for s
  proof -
    have "accepts (Many (Seq (Class (\<lambda>c. c \<in> set ''._-'')) (some_of (Class name_byte)))) s \<longleftrightarrow>
        (\<exists>more_words. s = concat (map word_text more_words) \<and>
          (\<forall>sw \<in> set more_words. (fst sw = CHR ''.'' \<or> fst sw = CHR ''_'' \<or> fst sw = CHR ''-'') \<and> made_of ?word (snd sw)))" for s
      by (rule accepts_Many_image) (auto simp: accepts_Class_then some bytes word_text_def)
    then show ?thesis unfolding image_base_def case_prod_beta by (subst accepts_Seq) (auto simp: some bytes)
  qed
  have tag: "accepts image_tag s \<longleftrightarrow> (\<exists>tag. s = (case tag of None \<Rightarrow> [] | Some t \<Rightarrow> CHR '':'' # t) \<and>
      (\<forall>t. tag = Some t \<longrightarrow> made_of ?tag t))" for s
    unfolding optional_text by (auto simp: image_tag_def accepts_Seq some bytes)
  have digest: "accepts image_digest s \<longleftrightarrow> (\<exists>digest. s = (case digest of None \<Rightarrow> [] | Some h \<Rightarrow> ''@sha256:'' @ h) \<and>
      (\<forall>h. digest = Some h \<longrightarrow> length h = 64 \<and> (\<forall>c \<in> set h. ?hex c)))" for s
    unfolding optional_text
    by (auto simp: image_digest_def accepts_Seq accepts_times bytes simp del: times.simps literal.simps)
  show ?thesis
    unfolding IsValidDockerImageName_def matches_accepts validImageRegex_def accepts_Seq4 path base tag digest
    by (rule parts_joined)
qed

text \<open>
  A reference gets a tag unless its registry has a port: what is handed to containerd has a
  colon in its last part exactly when the name had one there or had no colon at all; a name
  such as \<open>host:5000/img\<close> is handed on without a tag.
\<close>

theorem pull_reference_tagged:
  "CHR '':'' \<in> set (last_part (pull_reference img)) \<longleftrightarrow>
     CHR '':'' \<notin> set img \<or> CHR '':'' \<in> set (last_part img)"
proof -
  have id: "last_part s = s" if "CHR ''/'' \<notin> set s" for s
    using that last_part_append [of "[]" s] last_part_append [of s "[]"]
    by (simp add: last_part_def)
  show ?thesis
    by (auto simp: pull_reference_def Let_def last_part_append id last_part_docker [simplified])
qed

theorem IsValidDockerImageName_spec_witness:
  "IsValidDockerImageName ''my.host:5000/team/app-2.x:v1_0''"
proof -
  have "made_of P s" if "list_all P s" "s \<noteq> []" for P s using that by (simp add: made_of_def list_all_iff)
  then show ?thesis
    by (intro iffD2 [OF IsValidDockerImageName_spec] exI [of _ "[(''my.host'', Some ''5000''), (''team'', None)]"]
        exI [of _ "''app''"] exI [of _ "[(CHR ''-'', ''2''), (CHR ''.'', ''x'')]"] exI [of _ "Some ''v1_0''"]
        exI [of _ "None :: string option"])
      (simp add: host_text_def word_text_def within_def)
qed

text \<open>
  C25.  After a run of \<open>CheckAndPull\<close> no image is lost, what failed was asked for and missing,
  and every missing image either failed or has a valid name whose reference is in the store.
\<close>

theorem CheckAndPull_spec:
  assumes "keeps_images client" and "CheckAndPull client rank imgs w = (Inr failed, w')"
  shows "\<exists>names names'. cd_list client w = Inr names \<and> cd_list client w' = Inr names' \<and>
    set names \<subseteq> set names' \<and> failing failed \<subseteq> set imgs - set names \<and>
    (\<forall>img \<in> set imgs - set names.
       img \<in> failing failed \<or> IsValidDockerImageName img \<and> pull_reference img \<in> set names')"
proof (cases "cd_list client w")
  case (Inl err)
  with assms(2) show ?thesis by (simp add: CheckAndPull_def getExistingImages_def)
next
  case (Inr names)
  from getExistingImages_set [OF this] obtain existing where
    ex: "getExistingImages client w = Inr existing" "set existing = set names" by blast
  let ?missing = "filterMissingImages imgs existing"
  have missing: "set ?missing = set imgs - set names" using ex(2) by (auto simp: filterMissingImages_def)
  show ?thesis
  proof (cases "?missing = []")
    case True
    with assms(2) ex have "failed = []" "w' = w" by (simp_all add: CheckAndPull_def)
    with True missing Inr show ?thesis by (auto simp: failing_def marked_def)
  next
    case False
    with assms(2) ex have run: "pull_all client (sort_key rank ?missing) [] w = (failed, w')"
      by (auto simp: CheckAndPull_def Let_def split: prod.splits)
    from pull_all_store [OF assms(1) Inr run] failing_pull_all [OF run] missing Inr show ?thesis
      by (auto simp: failing_def)
  qed
qed

theorem CheckAndPull_spec_witness:
  "failing [(''N!'', True)] \<subseteq> {''nginx'', ''N!''} \<and> pull_reference ''nginx'' \<in> {''docker.io/library/nginx:latest''}"
  using CheckAndPull_spec [OF sample_store_keeps sample_pull]
  by (auto simp: sample_store_def failing_def marked_def)

text \<open>
  C12.  The daemon keeps to the lists: whatever jobs, results and events interleave, the images
  it retries, the images it always pulls and the images it asks the CRI for were all named by
  an ImageList; both maps keep distinct keys, and no entry of \<open>RetryImages\<close> is false.
\<close>

theorem daemon_only_listed:
  assumes "daemon_steps (CheckAndPull client rank) ils (daemon_init w) s"
  shows "daemon_ok (ds_daemon s) \<and> to_retry (ds_daemon s) \<subseteq> listed ils \<and> always (ds_daemon s) \<subseteq> listed ils \<and>
    (\<forall>j \<in> set (ds_jobs s). set (jb_images j) \<subseteq> listed ils)"
  using containerd_cri.steps_listed [OF assms] by (auto simp: only_listed_def job_ok_def)

theorem daemon_only_listed_witness:
  "always (snd (note_images sample_list [] new_daemon)) \<subseteq> {''nginx'', ''N!''}"
proof -
  have "daemon_steps (CheckAndPull sample_store (\<lambda>_. 0)) {sample_list} (daemon_init [])
    (start_job EventJob (fst (note_images sample_list [] new_daemon))
      ((daemon_init [])\<lparr>ds_daemon := snd (note_images sample_list [] new_daemon)\<rparr>))"
    by (intro r_into_rtranclp daemon_step.event [where il = sample_list])
      (simp_all add: watch_idle_def daemon_init_def)
  from daemon_only_listed [OF this] show ?thesis
    by (simp add: start_job_def listed_def sample_list_def)
qed

text \<open>
  C14.  The maps of the daemon implement two sets of images: an ImageList adds its marked images
  to those always pulled; the failures of an event or of a regular pull are added to those
  retried; a retry removes exactly the images that did not fail; a deletion empties both sets;
  and a retry collects the whole set.
\<close>

theorem daemon_refines_sets:
  assumes "CheckAndPull client rank imgs w = (Inr failed, w')" and "daemon_ok d"
  shows "always (snd (note_images il toPull d)) = always d \<union> set (map fst (filter (\<lambda>e. ii_always_pull (snd e)) il)) \<and>
    to_retry (snd (note_images il toPull d)) = to_retry d \<and>
    to_retry (snd (pull_finished (Inr failed) d)) = to_retry d \<union> failing failed \<and>
    to_retry (retry_finished imgs (Inr failed) d) = to_retry d - (set imgs - failing failed) \<and>
    to_retry (always_finished clock imgs (Inr failed) d) = to_retry d \<union> failing failed \<and>
    always (always_finished clock imgs (Inr failed) d) = always d \<union> (set imgs - failing failed) \<and>
    to_retry (images_deleted d) = {} \<and>
    always (images_deleted d) = {} \<and>
    set (retry_collect d) = to_retry d"
proof -
  have "to_retry (snd (note_images il toPull d)) = to_retry d"
    "always (snd (note_images il toPull d)) = always d \<union> set (map fst (filter (\<lambda>e. ii_always_pull (snd e)) il))"
    by (cases "note_images il toPull d", simp add: note_images_spec)+
  then show ?thesis
    using containerd_cri.apply_result [OF assms(1)] retry_collect_set [OF assms(2)]
    by (simp add: images_deleted_def retry_dropped_def always_dropped_def to_retry_def always_def marked_def)
qed

theorem daemon_refines_sets_witness:
  "to_retry (snd (pull_finished (Inr [(''N!'', True)]) new_daemon)) = failing [(''N!'', True)]"
  using daemon_refines_sets [OF sample_pull, of new_daemon]
  by (simp add: daemon_ok_def new_daemon_def to_retry_def [of "\<lparr>AlwaysPullImages = [], RetryImages = []\<rparr>"] marked_def)

text \<open>
  An error of the CRI is not retried: when the node's images cannot be listed while an
  ImageList is handled, the error is returned, nothing is pulled, and none of the images is
  noted for a retry.
\<close>

theorem PullImages_error_not_retried:
  assumes "cd_list client w = Inl err"
  shows "\<exists>d'. PullImages (CheckAndPull client rank) il d w = (Some err, d', w) \<and> RetryImages d' = RetryImages d"
proof -
  obtain toPull d' where noted: "note_images il [] d = (toPull, d')" by (cases "note_images il [] d")
  with assms note_images_spec(2) [OF noted] show ?thesis
    by (simp add: PullImages_def CheckAndPull_def getExistingImages_def pull_finished_def)
qed

theorem PullImages_error_not_retried_witness:
  "\<exists>d'. PullImages (CheckAndPull (sample_store\<lparr>cd_list := (\<lambda>_. Inl (ErrOther ''socket''))\<rparr>) (\<lambda>_. 0))
     sample_list new_daemon [] = (Some (ErrOther ''socket''), d', []) \<and> RetryImages d' = []"
  using PullImages_error_not_retried
    [of "sample_store\<lparr>cd_list := (\<lambda>_. Inl (ErrOther ''socket''))\<rparr>" "[]" "ErrOther ''socket''" "\<lambda>_. 0" sample_list new_daemon]
  by (simp add: new_daemon_def)

text \<open>
  An image that is on the node is never pulled again: when all due images exist, the CRI
  pulls nothing, and the round still puts the next pull off by 24 hours.
\<close>

theorem always_pull_never_refreshes:
  assumes "cd_list client w = Inr names" and "set imgs \<subseteq> set names" and "img \<in> set imgs"
  shows "CheckAndPull client rank imgs w = (Inr [], w) \<and>
    (\<exists>i. map_of (AlwaysPullImages (always_finished clock imgs (Inr []) d)) img =
       Some (time_add (clock i) (24 * 3600 * second)))"
proof
  from getExistingImages_set [OF assms(1)] assms(2)
  obtain existing where "getExistingImages client w = Inr existing" "filterMissingImages imgs existing = []"
    by (auto simp: filterMissingImages_def filter_empty_conv)
  then show "CheckAndPull client rank imgs w = (Inr [], w)" by (simp add: CheckAndPull_def)
  have other: "map_of (AlwaysPullImages (always_note clock i imgs [] d)) img = map_of (AlwaysPullImages d) img"
    if "img \<notin> set imgs" for imgs i d
    using that by (induction imgs arbitrary: i d) (simp_all add: marked_def update_conv')
  have "\<exists>i. map_of (AlwaysPullImages (always_note clock n imgs [] d)) img =
      Some (time_add (clock i) (24 * 3600 * second))" if "img \<in> set imgs" for imgs n d
    using that
  proof (induction imgs arbitrary: n d)
    case (Cons v imgs)
    show ?case
    proof (cases "img \<in> set imgs")
      case True
      with Cons.IH show ?thesis by (simp add: marked_def)
    next
      case False
      with Cons.prems have "v = img" by simp
      with other [OF False] show ?thesis by (auto simp: marked_def update_conv')
    qed
  qed simp
  with assms(3) show "\<exists>i. map_of (AlwaysPullImages (always_finished clock imgs (Inr []) d)) img =
       Some (time_add (clock i) (24 * 3600 * second))"
    by (simp add: always_finished_def)
qed

theorem always_pull_never_refreshes_witness:
  "CheckAndPull sample_store (\<lambda>_. 0) [''nginx''] [''nginx''] = (Inr [], [''nginx''])"
  using always_pull_never_refreshes [of sample_store "[''nginx'']" "[''nginx'']" "[''nginx'']" "''nginx''" "\<lambda>_. 0" "\<lambda>_. 0" new_daemon]
  by (simp add: sample_store_def)

text \<open>
  A deleted list comes back: when a regular pull is under way while the ImageList is
  deleted, both maps are emptied, and then the end of the pull notes its images again, to be
  pulled every day.
\<close>

theorem deleted_images_come_back:
  assumes "ds_jobs s = xs @ j # ys" and "watch_idle s" and "jb_kind j = AlwaysJob"
    and "jb_result j = Some (Inr failed)" and "img \<in> set (jb_images j)" and "img \<notin> failing failed"
  shows "\<exists>s0 s1 s2. daemon_step cri ils s s0 \<and> daemon_step cri ils s0 s1 \<and> AlwaysPullImages (ds_daemon s1) = [] \<and>
    RetryImages (ds_daemon s1) = [] \<and> daemon_step cri ils s1 s2 \<and> img \<in> always (ds_daemon s2)"
proof -
  let ?s0 = "s\<lparr>ds_daemon := always_dropped (ds_daemon s), ds_deleting := True\<rparr>"
  let ?s1 = "?s0\<lparr>ds_daemon := retry_dropped (ds_daemon ?s0), ds_deleting := False\<rparr>"
  let ?s2 = "?s1\<lparr>ds_jobs := xs @ ys, ds_daemon := finish_job (\<lambda>_. 0) j (Inr failed) (ds_daemon ?s1)\<rparr>"
  have "daemon_step cri ils s ?s0" by (rule daemon_step.deleted [OF assms(2)])
  moreover have "daemon_step cri ils ?s0 ?s1" by (rule daemon_step.forgotten) simp
  moreover have "daemon_step cri ils ?s1 ?s2"
    by (rule daemon_step.finish) (use assms in simp_all)
  moreover have "img \<in> always (ds_daemon ?s2)"
    using assms by (simp add: finish_job_def always_finished_def always_note_spec)
  moreover have "AlwaysPullImages (ds_daemon ?s1) = []" "RetryImages (ds_daemon ?s1) = []"
    by (simp_all add: retry_dropped_def always_dropped_def)
  ultimately show ?thesis by blast
qed

theorem deleted_images_come_back_witness:
  "\<exists>s0 s1 s2. daemon_step (CheckAndPull sample_store (\<lambda>_. 0)) {}
     \<lparr>ds_daemon = new_daemon, ds_jobs = [\<lparr>jb_kind = AlwaysJob, jb_images = [''nginx''], jb_result = Some (Inr [])\<rparr>], ds_world = [], ds_deleting = False\<rparr> s0 \<and>
     daemon_step (CheckAndPull sample_store (\<lambda>_. 0)) {} s0 s1 \<and>
     daemon_step (CheckAndPull sample_store (\<lambda>_. 0)) {} s1 s2 \<and> ''nginx'' \<in> always (ds_daemon s2)"
  using deleted_images_come_back
    [of "\<lparr>ds_daemon = new_daemon, ds_jobs = [\<lparr>jb_kind = AlwaysJob, jb_images = [''nginx''], jb_result = Some (Inr [])\<rparr>], ds_world = [], ds_deleting = False\<rparr>"
      "[]" "\<lparr>jb_kind = AlwaysJob, jb_images = [''nginx''], jb_result = Some (Inr [])\<rparr>" "[]" "[]" "''nginx''"]
  by (fastforce simp: watch_idle_def failing_def marked_def)

end
