(* ===== verification/Go_Memory.thy ===== *)
theory Go_Memory
  imports Prelude "HOL-Library.AList"
begin

text \<open>
  Go's memory, as far as copying of structures needs it: values with pointers, slices and maps
  that refer to cells, the types these values have, and the ways in which generated code
  copies them.  A value of a well-typed memory has a meaning, the tree of everything it
  refers to, and a footprint, the addresses it refers to.  The locale \<open>deep_copier\<close> is the
  contract of a deep copy: same type, same meaning, and a footprint of new cells only.

  The order in which cells are allocated cannot be observed in Go; here a cell is allocated
  once its contents are known.  \<open>None\<close> is a dereference of what is not there, which a
  well-typed memory excludes.
\<close>

section \<open>Memory and types\<close>

type_synonym addr = nat

datatype prim = PInt int | PStr string | PBool bool

text \<open>\<open>Ref\<close> is a pointer or a map; a slice is its array, its offset and its length.\<close>

datatype gv =
    Prim prim
  | Ref "addr option"
  | Slice "(addr \<times> nat \<times> nat) option"
  | Struct "(string \<times> gv) list"

datatype cell = Box gv | Arr "gv list" | Tab "(string \<times> gv) list"

record memory =
  cells :: "addr \<rightharpoonup> cell"
  lim :: addr

definition mem_ok :: "memory \<Rightarrow> bool" where
  "mem_ok m \<longleftrightarrow> (\<forall>a. cells m a \<noteq> None \<longrightarrow> a < lim m)"

definition alloc :: "cell \<Rightarrow> memory \<Rightarrow> addr \<times> memory" where
  "alloc c m = (lim m, m\<lparr>cells := (cells m)(lim m \<mapsto> c), lim := Suc (lim m)\<rparr>)"

definition store_cell :: "addr \<Rightarrow> cell \<Rightarrow> memory \<Rightarrow> memory" where
  "store_cell a c m = m\<lparr>cells := (cells m)(a \<mapsto> c)\<rparr>"

definition extends :: "memory \<Rightarrow> memory \<Rightarrow> bool" where
  "extends m m' \<longleftrightarrow> cells m \<subseteq>\<^sub>m cells m'"

datatype ty =
    TPrim
  | TPtr ty
  | TSlice ty
  | TMap ty
  | TStruct "(string \<times> ty) list"

definition elems :: "nat \<Rightarrow> nat \<Rightarrow> gv list \<Rightarrow> gv list" where
  "elems off n vs = take n (drop off vs)"

definition field :: "(string \<times> gv) list \<Rightarrow> string \<Rightarrow> (gv \<Rightarrow> 'a) \<Rightarrow> 'a \<Rightarrow> 'a" where
  "field fs n f d = (case map_of fs n of None \<Rightarrow> d | Some v \<Rightarrow> f v)"

lemma field_cong [fundef_cong]:
  "fs = fs' \<Longrightarrow> n = n' \<Longrightarrow> (\<And>v. f v = f' v) \<Longrightarrow> d = d' \<Longrightarrow> field fs n f d = field fs' n' f' d'"
  by (simp add: field_def split: option.split)

lemma size_field_type [termination_simp]: "(n, t) \<in> set fts \<Longrightarrow> size t < Suc (size_list (size_prod size size) fts)"
  by (induction fts) auto

lemma size_field_type' [termination_simp]: "ft \<in> set fts \<Longrightarrow> size (snd ft) < Suc (size_list (size_prod size size) fts)"
  by (induction fts) auto

fun wt :: "memory \<Rightarrow> ty \<Rightarrow> gv \<Rightarrow> bool" where
  "wt m TPrim v = (case v of Prim p \<Rightarrow> True | _ \<Rightarrow> False)"
| "wt m (TPtr t) v =
     (case v of
        Ref None \<Rightarrow> True
      | Ref (Some a) \<Rightarrow> (case cells m a of Some (Box w) \<Rightarrow> wt m t w | _ \<Rightarrow> False)
      | _ \<Rightarrow> False)"
| "wt m (TSlice t) v =
     (case v of
        Slice None \<Rightarrow> True
      | Slice (Some (a, off, n)) \<Rightarrow>
          (case cells m a of
             Some (Arr vs) \<Rightarrow> off + n \<le> length vs \<and> (\<forall>w \<in> set (elems off n vs). wt m t w)
           | _ \<Rightarrow> False)
      | _ \<Rightarrow> False)"
| "wt m (TMap t) v =
     (case v of
        Ref None \<Rightarrow> True
      | Ref (Some a) \<Rightarrow> (case cells m a of Some (Tab kvs) \<Rightarrow> (\<forall>kv \<in> set kvs. wt m t (snd kv)) | _ \<Rightarrow> False)
      | _ \<Rightarrow> False)"
| "wt m (TStruct fts) v =
     (case v of
        Struct fs \<Rightarrow> map fst fs = map fst fts \<and> (\<forall>ft \<in> set fts. field fs (fst ft) (wt m (snd ft)) False)
      | _ \<Rightarrow> False)"

text \<open>The meaning of a value.\<close>

datatype tree =
    LeafT prim
  | NilT
  | PtrT tree
  | SeqT "tree list"
  | MapT "(string \<times> tree) list"
  | StructT "(string \<times> tree) list"

fun den :: "memory \<Rightarrow> ty \<Rightarrow> gv \<Rightarrow> tree" where
  "den m TPrim v = (case v of Prim p \<Rightarrow> LeafT p | _ \<Rightarrow> NilT)"
| "den m (TPtr t) v =
     (case v of
        Ref (Some a) \<Rightarrow> (case cells m a of Some (Box w) \<Rightarrow> PtrT (den m t w) | _ \<Rightarrow> NilT)
      | _ \<Rightarrow> NilT)"
| "den m (TSlice t) v =
     (case v of
        Slice (Some (a, off, n)) \<Rightarrow>
          (case cells m a of Some (Arr vs) \<Rightarrow> SeqT (map (den m t) (elems off n vs)) | _ \<Rightarrow> NilT)
      | _ \<Rightarrow> NilT)"
| "den m (TMap t) v =
     (case v of
        Ref (Some a) \<Rightarrow>
          (case cells m a of Some (Tab kvs) \<Rightarrow> MapT (map (\<lambda>kv. (fst kv, den m t (snd kv))) kvs) | _ \<Rightarrow> NilT)
      | _ \<Rightarrow> NilT)"
| "den m (TStruct fts) v =
     (case v of
        Struct fs \<Rightarrow> StructT (map (\<lambda>ft. (fst ft, field fs (fst ft) (den m (snd ft)) NilT)) fts)
      | _ \<Rightarrow> NilT)"

text \<open>The footprint.\<close>

fun reach :: "memory \<Rightarrow> ty \<Rightarrow> gv \<Rightarrow> addr list" where
  "reach m TPrim v = []"
| "reach m (TPtr t) v =
     (case v of
        Ref (Some a) \<Rightarrow> a # (case cells m a of Some (Box w) \<Rightarrow> reach m t w | _ \<Rightarrow> [])
      | _ \<Rightarrow> [])"
| "reach m (TSlice t) v =
     (case v of
        Slice (Some (a, off, n)) \<Rightarrow>
          a # (case cells m a of Some (Arr vs) \<Rightarrow> concat (map (reach m t) (elems off n vs)) | _ \<Rightarrow> [])
      | _ \<Rightarrow> [])"
| "reach m (TMap t) v =
     (case v of
        Ref (Some a) \<Rightarrow>
          a # (case cells m a of Some (Tab kvs) \<Rightarrow> concat (map (\<lambda>kv. reach m t (snd kv)) kvs) | _ \<Rightarrow> [])
      | _ \<Rightarrow> [])"
| "reach m (TStruct fts) v =
     (case v of
        Struct fs \<Rightarrow> concat (map (\<lambda>ft. field fs (fst ft) (reach m (snd ft)) []) fts)
      | _ \<Rightarrow> [])"

section \<open>Meaning and footprint depend on the footprint only\<close>

definition agree :: "addr set \<Rightarrow> memory \<Rightarrow> memory \<Rightarrow> bool" where
  "agree A m m' \<longleftrightarrow> (\<forall>a \<in> A. cells m' a = cells m a)"

lemma agree_mono: "agree A m m' \<Longrightarrow> B \<subseteq> A \<Longrightarrow> agree B m m'"
  by (auto simp: agree_def)

lemma concat_map_cong: "xs = ys \<Longrightarrow> (\<And>x. x \<in> set ys \<Longrightarrow> f x = g x) \<Longrightarrow> concat (map f xs) = concat (map g ys)"
  by (metis map_eq_conv)

text \<open>What a well-typed value looks like.\<close>

lemma wt_PtrE:
  assumes "wt m (TPtr t) v"
  obtains "v = Ref None" | a w where "v = Ref (Some a)" and "cells m a = Some (Box w)" and "wt m t w"
  using assms by (auto split: gv.split_asm option.split_asm cell.split_asm)

lemma wt_SliceE:
  assumes "wt m (TSlice t) v"
  obtains "v = Slice None"
  | a off n vs where "v = Slice (Some (a, off, n))" and "cells m a = Some (Arr vs)" and "off + n \<le> length vs"
      and "\<forall>w \<in> set (elems off n vs). wt m t w"
proof (cases v)
  case (Slice p)
  with assms that show ?thesis by (cases p) (simp_all split: prod.split_asm option.split_asm cell.split_asm)
qed (use assms in simp_all)

lemma wt_MapE:
  assumes "wt m (TMap t) v"
  obtains "v = Ref None" | a kvs where "v = Ref (Some a)" and "cells m a = Some (Tab kvs)" and "\<forall>kv \<in> set kvs. wt m t (snd kv)"
  using assms by (auto split: gv.split_asm option.split_asm cell.split_asm)

lemma wt_StructE:
  assumes "wt m (TStruct fts) v"
  obtains fs where "v = Struct fs" and "map fst fs = map fst fts"
    and "\<forall>(n, t) \<in> set fts. \<exists>w. map_of fs n = Some w \<and> wt m t w"
proof -
  from assms obtain fs where fs: "v = Struct fs" "map fst fs = map fst fts"
    "\<forall>ft \<in> set fts. field fs (fst ft) (wt m (snd ft)) False" by (auto split: gv.splits)
  have "\<exists>w. map_of fs n = Some w \<and> wt m t w" if "(n, t) \<in> set fts" for n t
    using fs(3) that by (force simp: field_def split: option.splits)
  with fs(1,2) that show ?thesis by blast
qed

text \<open>The frame rule: what is not written keeps its type, its meaning and its footprint.\<close>

abbreviation framed :: "memory \<Rightarrow> memory \<Rightarrow> ty \<Rightarrow> gv \<Rightarrow> bool" where
  "framed m m' t v \<equiv> wt m' t v \<and> den m' t v = den m t v \<and> reach m' t v = reach m t v"

lemma frame_Ptr:
  assumes "\<And>w. wt m t w \<Longrightarrow> agree (set (reach m t w)) m m' \<Longrightarrow> framed m m' t w"
    and "wt m (TPtr t) v" and "agree (set (reach m (TPtr t) v)) m m'"
  shows "framed m m' (TPtr t) v"
  using assms(2)
proof (rule wt_PtrE)
  fix a w
  assume w: "v = Ref (Some a)" "cells m a = Some (Box w)" "wt m t w"
  then have "agree (set (reach m t w)) m m'" "cells m' a = Some (Box w)"
    using assms(3) by (auto simp: agree_def)
  with assms(1) [OF w(3)] w show ?thesis by simp
qed simp

lemma frame_Slice:
  assumes "\<And>w. wt m t w \<Longrightarrow> agree (set (reach m t w)) m m' \<Longrightarrow> framed m m' t w"
    and "wt m (TSlice t) v" and "agree (set (reach m (TSlice t) v)) m m'"
  shows "framed m m' (TSlice t) v"
  using assms(2)
proof (rule wt_SliceE)
  fix a off n vs
  assume vs: "v = Slice (Some (a, off, n))" "cells m a = Some (Arr vs)" "off + n \<le> length vs"
    "\<forall>w \<in> set (elems off n vs). wt m t w"
  then have "\<forall>w \<in> set (elems off n vs). agree (set (reach m t w)) m m'" "cells m' a = Some (Arr vs)"
    using assms(3) by (auto simp: agree_def)
  with assms(1) vs show ?thesis by (simp cong: concat_map_cong)
qed simp

lemma frame_Map:
  assumes "\<And>w. wt m t w \<Longrightarrow> agree (set (reach m t w)) m m' \<Longrightarrow> framed m m' t w"
    and "wt m (TMap t) v" and "agree (set (reach m (TMap t) v)) m m'"
  shows "framed m m' (TMap t) v"
  using assms(2)
proof (rule wt_MapE)
  fix a kvs
  assume kvs: "v = Ref (Some a)" "cells m a = Some (Tab kvs)" "\<forall>kv \<in> set kvs. wt m t (snd kv)"
  then have "\<forall>kv \<in> set kvs. agree (set (reach m t (snd kv))) m m'" "cells m' a = Some (Tab kvs)"
    using assms(3) by (auto simp: agree_def)
  with assms(1) kvs show ?thesis by (simp cong: concat_map_cong)
qed simp

lemma frame_Struct:
  assumes "\<And>n t w. (n, t) \<in> set fts \<Longrightarrow> wt m t w \<Longrightarrow> agree (set (reach m t w)) m m' \<Longrightarrow> framed m m' t w"
    and "wt m (TStruct fts) v" and "agree (set (reach m (TStruct fts) v)) m m'"
  shows "framed m m' (TStruct fts) v"
proof -
  from assms(2) obtain fs where fs: "v = Struct fs" "map fst fs = map fst fts"
    "\<forall>(n, t) \<in> set fts. \<exists>w. map_of fs n = Some w \<and> wt m t w" by (rule wt_StructE)
  have each: "\<exists>w. map_of fs n = Some w \<and> framed m m' t w" if "(n, t) \<in> set fts" for n t
  proof -
    from bspec [OF fs(3) that] obtain w where w: "map_of fs n = Some w" "wt m t w" by blast
    have "set (reach m t w) \<subseteq> set (reach m (TStruct fts) v)"
      using that w(1) by (force simp: fs(1) field_def)
    with assms(3) have "agree (set (reach m t w)) m m'" by (rule agree_mono)
    with assms(1) [OF that] w show ?thesis by simp
  qed
  have "\<forall>ft \<in> set fts. field fs (fst ft) (wt m' (snd ft)) False \<and>
      field fs (fst ft) (den m' (snd ft)) NilT = field fs (fst ft) (den m (snd ft)) NilT \<and>
      field fs (fst ft) (reach m' (snd ft)) [] = field fs (fst ft) (reach m (snd ft)) []"
    using each by (force simp: field_def)
  with fs(1,2) show ?thesis by (simp cong: concat_map_cong)
qed

lemma wt_frame: "wt m t v \<Longrightarrow> agree (set (reach m t v)) m m' \<Longrightarrow> framed m m' t v"
proof (induction t arbitrary: v)
  case (TPtr t)
  show ?case by (rule frame_Ptr [OF TPtr.IH TPtr.prems])
next
  case (TSlice t)
  show ?case by (rule frame_Slice [OF TSlice.IH TSlice.prems])
next
  case (TMap t)
  show ?case by (rule frame_Map [OF TMap.IH TMap.prems])
next
  case (TStruct fts)
  show ?case by (rule frame_Struct [OF TStruct.IH TStruct.prems]) auto
qed simp

lemma fresh_cell_none: "mem_ok m \<Longrightarrow> cells m (lim m) = None"
  by (auto simp: mem_ok_def)

lemma reach_live: "wt m t v \<Longrightarrow> set (reach m t v) \<subseteq> dom (cells m)"
proof (induction t arbitrary: v)
  case (TPtr t)
  from TPtr.prems show ?case by (rule wt_PtrE) (use TPtr.IH in auto)
next
  case (TSlice t)
  from TSlice.prems show ?case by (rule wt_SliceE) (use TSlice.IH in fastforce)+
next
  case (TMap t)
  from TMap.prems show ?case by (rule wt_MapE) (use TMap.IH in fastforce)+
next
  case (TStruct fts)
  from TStruct.prems obtain fs where fs: "v = Struct fs"
    "\<forall>(n, t) \<in> set fts. \<exists>w. map_of fs n = Some w \<and> wt m t w" by (rule wt_StructE)
  have "set (field fs n (reach m t) []) \<subseteq> dom (cells m)" if "(n, t) \<in> set fts" for n t
  proof -
    from bspec [OF fs(2) that] obtain w where "map_of fs n = Some w" "wt m t w" by blast
    with TStruct.IH [OF that, of t w] show ?thesis by (simp add: field_def)
  qed
  then show ?case by (fastforce simp: fs(1))
qed simp

lemma extends_agree: "extends m m' \<Longrightarrow> A \<subseteq> dom (cells m) \<Longrightarrow> agree A m m'"
  by (force simp: extends_def agree_def map_le_def)

lemma extends_refl [simp]: "extends m m"
  by (simp add: extends_def)

lemma extends_trans [trans]: "extends m m' \<Longrightarrow> extends m' m'' \<Longrightarrow> extends m m''"
  by (auto simp: extends_def intro: map_le_trans)

text \<open>Allocation does not disturb what there is.\<close>

lemma extends_frame:
  assumes "extends m m'" and "wt m t v"
  shows "wt m' t v" and "den m' t v = den m t v" and "reach m' t v = reach m t v"
  using wt_frame [OF assms(2) extends_agree [OF assms(1) reach_live [OF assms(2)]]] by auto

lemma alloc_ok:
  assumes "mem_ok m" and "alloc c m = (a, m')"
  shows "a = lim m" and "mem_ok m'" and "extends m m'" and "lim m' = Suc (lim m)" and "cells m' a = Some c"
  using assms fresh_cell_none [OF assms(1)] unfolding alloc_def extends_def map_le_def mem_ok_def
  by (auto simp: less_Suc_eq)

section \<open>Copies\<close>

text \<open>\<open>w\<close> in \<open>m'\<close> is a deep copy of \<open>v\<close> in \<open>m\<close>.\<close>

definition copied :: "ty \<Rightarrow> memory \<Rightarrow> gv \<Rightarrow> memory \<Rightarrow> gv \<Rightarrow> bool" where
  "copied t m v m' w \<longleftrightarrow>
     mem_ok m' \<and> extends m m' \<and> lim m \<le> lim m' \<and> wt m' t w \<and> den m' t w = den m t v \<and>
     (\<forall>a \<in> set (reach m' t w). lim m \<le> a)"

lemma copied_new:
  assumes "mem_ok m" and "copied t m v m' w"
  shows "\<forall>a \<in> set (reach m' t w). cells m a = None"
  using assms unfolding copied_def mem_ok_def by (meson linorder_not_less)

text \<open>Writes to cells outside the footprint are not seen.\<close>

definition store_all :: "(addr \<times> cell) list \<Rightarrow> memory \<Rightarrow> memory" where
  "store_all ws m = fold (\<lambda>(a, c). store_cell a c) ws m"

lemma cells_store_all: "a \<notin> fst ` set ws \<Longrightarrow> cells (store_all ws m) a = cells m a"
  unfolding store_all_def by (induction ws arbitrary: m) (auto simp: store_cell_def)

lemma store_all_outside:
  assumes "wt m t v" and "fst ` set ws \<inter> set (reach m t v) = {}"
  shows "wt (store_all ws m) t v" and "den (store_all ws m) t v = den m t v"
proof -
  have "agree (set (reach m t v)) m (store_all ws m)"
    using assms(2) by (auto simp: agree_def intro!: cells_store_all)
  from wt_frame [OF assms(1) this] show "wt (store_all ws m) t v" and "den (store_all ws m) t v = den m t v" by auto
qed

type_synonym copier = "gv \<Rightarrow> memory \<Rightarrow> (gv \<times> memory) option"

locale deep_copier =
  fixes t :: ty and f :: copier
  assumes copy: "mem_ok m \<Longrightarrow> wt m t v \<Longrightarrow> \<exists>w m'. f v m = Some (w, m') \<and> copied t m v m' w"
begin

lemma copyE:
  assumes "mem_ok m" and "wt m t v"
  obtains w m' where "f v m = Some (w, m')" and "copied t m v m' w"
  using copy [OF assms] by blast

lemma copied_if:
  assumes "mem_ok m" and "wt m t v" and "f v m = Some (w, m')"
  shows "copied t m v m' w"
  using copyE [OF assms(1,2)] assms(3) by (metis option.inject prod.inject)

text \<open>The copy and the original have no cell in common.\<close>

lemma copy_disjoint:
  assumes "mem_ok m" and "wt m t v" and "f v m = Some (w, m')"
  shows "set (reach m' t w) \<inter> set (reach m t v) = {}"
  using copied_new [OF assms(1) copied_if [OF assms]] reach_live [OF assms(2)] by force

text \<open>The original is as it was; from here on writes through the copy do not reach it.\<close>

lemma copy_keeps:
  assumes "mem_ok m" and "wt m t v" and "f v m = Some (w, m')" and "wt m s x"
  shows "wt m' s x" and "den m' s x = den m s x" and "reach m' s x = reach m s x"
proof -
  from copied_if [OF assms(1-3)] have "extends m m'" by (simp add: copied_def)
  from extends_frame [OF this assms(4)]
  show "wt m' s x" and "den m' s x = den m s x" and "reach m' s x = reach m s x" .
qed

text \<open>Writes through the copy are not seen in what was there before, nor the other way round.\<close>

lemma copy_writes:
  assumes "mem_ok m" and "wt m t v" and "f v m = Some (w, m')" and "wt m s x"
    and "fst ` set ws \<subseteq> set (reach m' t w)"
  shows "wt (store_all ws m') s x \<and> den (store_all ws m') s x = den m s x"
proof -
  note k = copy_keeps [OF assms(1-4)]
  have "fst ` set ws \<inter> set (reach m' s x) = {}"
    using assms(5) copied_new [OF assms(1) copied_if [OF assms(1-3)]] reach_live [OF assms(4)]
    unfolding k(3) by blast
  from store_all_outside [OF k(1) this] k(2) show ?thesis by metis
qed

lemma old_writes:
  assumes "mem_ok m" and "wt m t v" and "f v m = Some (w, m')" and "fst ` set ws \<subseteq> dom (cells m)"
  shows "wt (store_all ws m') t w \<and> den (store_all ws m') t w = den m t v"
proof -
  note c = copied_if [OF assms(1-3)]
  have "fst ` set ws \<inter> set (reach m' t w) = {}" using assms(4) copied_new [OF assms(1) c] by blast
  with store_all_outside [of m' t w ws] c show ?thesis unfolding copied_def by metis
qed

end

section \<open>The ways of copying\<close>

text \<open>\<open>*out = *in\<close>: the value itself, pointers and all.\<close>

definition assign :: copier where
  "assign v m = Some (v, m)"

text \<open>
  \<open>if in != nil { *out = new(T); (*in).DeepCopyInto(*out) }\<close>; the same code is
  \<open>DeepCopy\<close>, which answers nil for nil.
\<close>

definition new_copy :: "copier \<Rightarrow> copier" where
  "new_copy f v m =
     (case v of
        Ref None \<Rightarrow> Some (Ref None, m)
      | Ref (Some a) \<Rightarrow>
          (case cells m a of
             Some (Box w) \<Rightarrow>
               (case f w m of
                  None \<Rightarrow> None
                | Some (w', m') \<Rightarrow> (case alloc (Box w') m' of (b, m'') \<Rightarrow> Some (Ref (Some b), m'')))
           | _ \<Rightarrow> None)
      | _ \<Rightarrow> None)"

fun copy_elems :: "copier \<Rightarrow> gv list \<Rightarrow> memory \<Rightarrow> (gv list \<times> memory) option" where
  "copy_elems f [] m = Some ([], m)"
| "copy_elems f (v # vs) m =
     (case f v m of
        None \<Rightarrow> None
      | Some (w, m') \<Rightarrow>
          (case copy_elems f vs m' of None \<Rightarrow> None | Some (ws, m'') \<Rightarrow> Some (w # ws, m'')))"

text \<open>
  \<open>if in != nil { *out = make([]T, len(*in)); for i := range *in { (*in)[i].DeepCopyInto(&(*out)[i]) } }\<close>;
  with \<open>assign\<close> it is the built-in \<open>copy\<close>.
\<close>

definition make_copy :: "copier \<Rightarrow> copier" where
  "make_copy f v m =
     (case v of
        Slice None \<Rightarrow> Some (Slice None, m)
      | Slice (Some (a, off, n)) \<Rightarrow>
          (case cells m a of
             Some (Arr vs) \<Rightarrow>
               (case copy_elems f (elems off n vs) m of
                  None \<Rightarrow> None
                | Some (ws, m') \<Rightarrow> (case alloc (Arr ws) m' of (b, m'') \<Rightarrow> Some (Slice (Some (b, 0, n)), m'')))
           | _ \<Rightarrow> None)
      | _ \<Rightarrow> None)"

text \<open>A new map with the same keys.\<close>

definition tab_copy :: "copier \<Rightarrow> copier" where
  "tab_copy f v m =
     (case v of
        Ref None \<Rightarrow> Some (Ref None, m)
      | Ref (Some a) \<Rightarrow>
          (case cells m a of
             Some (Tab kvs) \<Rightarrow>
               (case copy_elems f (map snd kvs) m of
                  None \<Rightarrow> None
                | Some (ws, m') \<Rightarrow>
                    (case alloc (Tab (zip (map fst kvs) ws)) m' of (b, m'') \<Rightarrow> Some (Ref (Some b), m'')))
           | _ \<Rightarrow> None)
      | _ \<Rightarrow> None)"

text \<open>
  \<open>DeepCopyInto\<close> of a structure: \<open>*out = *in\<close>, and then field after field of \<open>out\<close> is
  written again with a copy of the field of \<open>in\<close>.
\<close>

fun set_fields :: "(string \<times> copier) list \<Rightarrow> (string \<times> gv) list \<Rightarrow> (string \<times> gv) list \<Rightarrow> memory \<Rightarrow>
    ((string \<times> gv) list \<times> memory) option" where
  "set_fields [] ins outs m = Some (outs, m)"
| "set_fields ((n, f) # ops) ins outs m =
     (case map_of ins n of
        None \<Rightarrow> None
      | Some v \<Rightarrow>
          (case f v m of
             None \<Rightarrow> None
           | Some (w, m') \<Rightarrow> set_fields ops ins (AList.update n w outs) m'))"

definition into :: "(string \<times> copier) list \<Rightarrow> copier" where
  "into ops v m =
     (case v of
        Struct fs \<Rightarrow>
          (case set_fields ops fs fs m of None \<Rightarrow> None | Some (outs, m') \<Rightarrow> Some (Struct outs, m'))
      | _ \<Rightarrow> None)"

text \<open>A structure without pointers may be assigned.\<close>

fun flat :: "ty \<Rightarrow> bool" where
  "flat TPrim = True"
| "flat (TStruct fts) = (\<forall>ft \<in> set fts. flat (snd ft))"
| "flat _ = False"

lemma flat_reach: "flat t \<Longrightarrow> reach m t v = []"
proof (induction t arbitrary: v)
  case (TStruct fts)
  have "field fs n (reach m t) [] = []" if "(n, t) \<in> set fts" for fs n t
    using TStruct.IH [OF that, of t] TStruct.prems that by (force simp: field_def split: option.split)
  then show ?case by (cases v) auto
qed auto

lemma copied_self: "mem_ok m \<Longrightarrow> wt m t v \<Longrightarrow> flat t \<Longrightarrow> copied t m v m v"
  by (simp add: copied_def flat_reach)

lemma deep_copier_assign: "flat t \<Longrightarrow> deep_copier t assign"
  by unfold_locales (simp add: assign_def copied_self)

text \<open>A copy taken after others, and one that others follow.\<close>

lemma copied_later:
  assumes "extends m m1" and "lim m \<le> lim m1" and "wt m t v" and "copied t m1 v m' w"
  shows "copied t m v m' w"
  using assms extends_frame [OF assms(1,3)] by (auto simp: copied_def intro: extends_trans)

lemma copied_kept:
  assumes "copied t m v m1 w" and "mem_ok m'" and "extends m1 m'" and "lim m1 \<le> lim m'"
  shows "copied t m v m' w"
  using assms extends_frame [OF assms(3), of t w] by (auto simp: copied_def intro: extends_trans)


lemma copied_memory: "copied t m v m' w \<Longrightarrow> mem_ok m' \<and> extends m m' \<and> lim m \<le> lim m'"
  by (simp add: copied_def)

lemma copied_alloc:
  assumes "copied t m v m1 w" and "alloc c m1 = (a, m')"
  shows "copied t m v m' w"
  using alloc_ok [OF _ assms(2)] copied_memory [OF assms(1)] copied_kept [OF assms(1)] by simp

lemma copied_list:
  "list_all2 (\<lambda>v w. copied t m v m' w) vs ws \<Longrightarrow>
     map (den m' t) ws = map (den m t) vs \<and> length ws = length vs \<and>
     (\<forall>w \<in> set ws. wt m' t w \<and> (\<forall>a \<in> set (reach m' t w). lim m \<le> a))"
  by (induction rule: list_all2_induct) (auto simp: copied_def)

context deep_copier
begin

lemma new_copy_copies: "deep_copier (TPtr t) (new_copy f)"
proof
  fix m v
  assume m: "mem_ok m" and "wt m (TPtr t) v"
  from this(2) show "\<exists>w m'. new_copy f v m = Some (w, m') \<and> copied (TPtr t) m v m' w"
  proof (rule wt_PtrE)
    fix a w
    assume v: "v = Ref (Some a)" "cells m a = Some (Box w)" and "wt m t w"
    from m this(3) obtain w' m1 where c: "f w m = Some (w', m1)" "copied t m w m1 w'" by (rule copyE)
    obtain b m' where al: "alloc (Box w') m1 = (b, m')" by (cases "alloc (Box w') m1") blast
    note ok = alloc_ok [OF conjunct1 [OF copied_memory [OF c(2)]] al]
    have "copied (TPtr t) m v m' (Ref (Some b))"
      using copied_alloc [OF c(2) al] copied_memory [OF c(2)] ok v by (auto simp: copied_def)
    with c al v show ?thesis by (simp add: new_copy_def)
  qed (use m in \<open>simp add: new_copy_def copied_def\<close>)
qed

lemma copy_elems_copied:
  "mem_ok m \<Longrightarrow> \<forall>v \<in> set vs. wt m t v \<Longrightarrow>
     \<exists>ws m'. copy_elems f vs m = Some (ws, m') \<and> mem_ok m' \<and> extends m m' \<and> lim m \<le> lim m' \<and>
       list_all2 (\<lambda>v w. copied t m v m' w) vs ws"
proof (induction vs arbitrary: m)
  case (Cons v vs)
  from Cons.prems obtain w m1 where c: "f v m = Some (w, m1)" "copied t m v m1 w" by (auto elim: copyE)
  note k = copied_memory [OF c(2)]
  have "\<forall>v \<in> set vs. wt m1 t v" using Cons.prems(2) extends_frame(1) k by auto
  with Cons.IH k obtain ws m' where r: "copy_elems f vs m1 = Some (ws, m')" "mem_ok m'" "extends m1 m'" "lim m1 \<le> lim m'"
    "list_all2 (\<lambda>v w. copied t m1 v m' w) vs ws" by blast
  have "list_all2 (\<lambda>v w. copied t m v m' w) vs ws"
    using r(5) Cons.prems(2) k by (auto simp: list_all2_conv_all_nth intro: copied_later)
  with c r k copied_kept [OF c(2) r(2-4)] show ?case by (auto intro: extends_trans)
qed simp

lemma make_copy_copies: "deep_copier (TSlice t) (make_copy f)"
proof
  fix m v
  assume m: "mem_ok m" and "wt m (TSlice t) v"
  from this(2) show "\<exists>w m'. make_copy f v m = Some (w, m') \<and> copied (TSlice t) m v m' w"
  proof (rule wt_SliceE)
    fix a off n vs
    assume v: "v = Slice (Some (a, off, n))" "cells m a = Some (Arr vs)" "off + n \<le> length vs"
      "\<forall>w \<in> set (elems off n vs). wt m t w"
    from copy_elems_copied [OF m v(4)] obtain ws m1 where c: "copy_elems f (elems off n vs) m = Some (ws, m1)"
      "mem_ok m1" "extends m m1" "lim m \<le> lim m1" "list_all2 (\<lambda>v w. copied t m v m1 w) (elems off n vs) ws" by blast
    obtain b m' where al: "alloc (Arr ws) m1 = (b, m')" by (cases "alloc (Arr ws) m1") blast
    note ok = alloc_ok [OF c(2) al]
    have each: "list_all2 (\<lambda>v w. copied t m v m' w) (elems off n vs) ws"
      using c(5) by (rule list_all2_mono) (rule copied_alloc [OF _ al])
    have "length ws = n" using copied_list [OF each] v(3) by (simp add: elems_def)
    then have "elems 0 n ws = ws" by (simp add: elems_def)
    then have "copied (TSlice t) m v m' (Slice (Some (b, 0, n)))"
      using copied_list [OF each] ok c(3,4) v(1-3) \<open>length ws = n\<close>
      by (auto simp: copied_def simp del: map_eq_conv intro: extends_trans)
    with c al v show ?thesis by (simp add: make_copy_def)
  qed (use m in \<open>simp add: make_copy_def copied_def\<close>)
qed

end



lemma map_snd_copied:
  assumes "map (den m' t) ws = map (den m t) (map snd kvs)" and "length ws = length kvs"
  shows "map (\<lambda>kv. (fst kv, den m' t (snd kv))) (zip (map fst kvs) ws) = map (\<lambda>kv. (fst kv, den m t (snd kv))) kvs"
  using assms by (induction kvs arbitrary: ws) (auto simp: length_Suc_conv)

context deep_copier
begin

lemma tab_copy_copies: "deep_copier (TMap t) (tab_copy f)"
proof
  fix m v
  assume m: "mem_ok m" and "wt m (TMap t) v"
  from this(2) show "\<exists>w m'. tab_copy f v m = Some (w, m') \<and> copied (TMap t) m v m' w"
  proof (rule wt_MapE)
    fix a kvs
    assume v: "v = Ref (Some a)" "cells m a = Some (Tab kvs)" "\<forall>kv \<in> set kvs. wt m t (snd kv)"
    then have "\<forall>v \<in> set (map snd kvs). wt m t v" by simp
    from copy_elems_copied [OF m this] obtain ws m1 where c: "copy_elems f (map snd kvs) m = Some (ws, m1)"
      "mem_ok m1" "extends m m1" "lim m \<le> lim m1" "list_all2 (\<lambda>v w. copied t m v m1 w) (map snd kvs) ws" by blast
    obtain b m' where al: "alloc (Tab (zip (map fst kvs) ws)) m1 = (b, m')"
      by (cases "alloc (Tab (zip (map fst kvs) ws)) m1") blast
    note ok = alloc_ok [OF c(2) al]
    have each: "list_all2 (\<lambda>v w. copied t m v m' w) (map snd kvs) ws"
      using c(5) by (rule list_all2_mono) (rule copied_alloc [OF _ al])
    have "copied (TMap t) m v m' (Ref (Some b))"
      using copied_list [OF each] ok c(3,4) v map_snd_copied [of m' t ws m kvs]
      by (auto simp: copied_def simp del: map_eq_conv map_map dest!: set_zip_rightD intro: extends_trans)
    with c al v show ?thesis by (simp add: tab_copy_def)
  qed (use m in \<open>simp add: tab_copy_def copied_def\<close>)
qed

end

text \<open>
  A \<open>DeepCopyInto\<close> is complete when every field that is not written again after
  \<open>*out = *in\<close> has no pointers.
\<close>

definition covers :: "(string \<times> ty) list \<Rightarrow> (string \<times> copier) list \<Rightarrow> bool" where
  "covers fts ops \<longleftrightarrow>
     distinct (map fst fts) \<and> distinct (map fst ops) \<and> set (map fst ops) \<subseteq> set (map fst fts) \<and>
     (\<forall>(n, t) \<in> set fts. case map_of ops n of None \<Rightarrow> flat t | Some f \<Rightarrow> deep_copier t f)"

definition field_copied :: "memory \<Rightarrow> memory \<Rightarrow> (string \<times> gv) list \<Rightarrow> (string \<times> gv) list \<Rightarrow> string \<times> ty \<Rightarrow> bool" where
  "field_copied m m' ins outs ft \<longleftrightarrow>
     (\<exists>v w. map_of ins (fst ft) = Some v \<and> map_of outs (fst ft) = Some w \<and> copied (snd ft) m v m' w)"

lemma copied_struct:
  assumes "\<forall>ft \<in> set fts. field_copied m m' ins outs ft" and "map fst outs = map fst fts"
    and "mem_ok m'" and "extends m m'" and "lim m \<le> lim m'"
  shows "copied (TStruct fts) m (Struct ins) m' (Struct outs)"
proof -
  have "field outs (fst ft) (wt m' (snd ft)) False \<and>
      field outs (fst ft) (den m' (snd ft)) NilT = field ins (fst ft) (den m (snd ft)) NilT \<and>
      (\<forall>a \<in> set (field outs (fst ft) (reach m' (snd ft)) []). lim m \<le> a)" if "ft \<in> set fts" for ft
    using bspec [OF assms(1) that] by (auto simp: field_copied_def field_def copied_def)
  with assms(2-) show ?thesis by (auto simp: copied_def)
qed

lemma set_fields_copied:
  assumes "mem_ok m" and "distinct (map fst ops)"
    and "\<forall>(n, f) \<in> set ops. \<exists>t v. map_of fts n = Some t \<and> map_of ins n = Some v \<and> wt m t v \<and> deep_copier t f"
    and "set (map fst ops) \<subseteq> set (map fst outs)"
  shows "\<exists>outs' m'. set_fields ops ins outs m = Some (outs', m') \<and>
    mem_ok m' \<and> extends m m' \<and> lim m \<le> lim m' \<and> map fst outs' = map fst outs \<and>
    (\<forall>n. n \<notin> set (map fst ops) \<longrightarrow> map_of outs' n = map_of outs n) \<and>
    (\<forall>n \<in> set (map fst ops). field_copied m m' ins outs' (n, the (map_of fts n)))"
  using assms
proof (induction ops arbitrary: outs m)
  case (Cons op ops)
  obtain n f where op: "op = (n, f)" by (cases op)
  with Cons.prems(3) obtain t v where t: "map_of fts n = Some t" "map_of ins n = Some v" "wt m t v" "deep_copier t f"
    by auto
  from deep_copier.copy [OF t(4) Cons.prems(1) t(3)] obtain w m1 where w: "f v m = Some (w, m1)" "copied t m v m1 w"
    by blast
  note k = copied_memory [OF w(2)]
  let ?outs = "AList.update n w outs"
  have names: "map fst ?outs = map fst outs"
    using Cons.prems(4) op by (simp add: update_keys)
  have later: "\<forall>(n, f) \<in> set ops. \<exists>t v. map_of fts n = Some t \<and> map_of ins n = Some v \<and> wt m1 t v \<and> deep_copier t f"
    using Cons.prems(3) extends_frame(1) k by fastforce
  from Cons.IH [OF conjunct1 [OF k] _ later, of ?outs] Cons.prems(2,4) names
  obtain outs' m' where r: "set_fields ops ins ?outs m1 = Some (outs', m')"
    "mem_ok m'" "extends m1 m'" "lim m1 \<le> lim m'" "map fst outs' = map fst ?outs"
    "\<forall>n. n \<notin> set (map fst ops) \<longrightarrow> map_of outs' n = map_of ?outs n"
    "\<forall>n \<in> set (map fst ops). field_copied m1 m' ins outs' (n, the (map_of fts n))" by auto
  have "n \<notin> set (map fst ops)" using Cons.prems(2) op by simp
  then have this_field: "field_copied m m' ins outs' (n, t)"
    using r(6) t(2) copied_kept [OF w(2) r(2-4)] by (simp add: field_copied_def update_conv')
  have "field_copied m m' ins outs' (n', the (map_of fts n'))" if "n' \<in> set (map fst ops)" for n'
    using bspec [OF r(7) that] Cons.prems(3) that k unfolding field_copied_def
    by (fastforce intro: copied_later)
  with r op w(1) t this_field names k show ?case by (auto simp: update_conv' intro: extends_trans)
qed simp



lemma into_copies:
  assumes "covers fts ops"
  shows "deep_copier (TStruct fts) (into ops)"
proof
  fix m v
  assume m: "mem_ok m" and "wt m (TStruct fts) v"
  from this(2) obtain fs where fs: "v = Struct fs" "map fst fs = map fst fts"
    "\<forall>(n, t) \<in> set fts. \<exists>w. map_of fs n = Some w \<and> wt m t w" by (rule wt_StructE)
  from assms have names: "distinct (map fst fts)" "distinct (map fst ops)" "set (map fst ops) \<subseteq> set (map fst fs)"
    using fs(2) by (auto simp: covers_def)
  have each: "case map_of ops n of None \<Rightarrow> flat t | Some f \<Rightarrow> deep_copier t f" if "(n, t) \<in> set fts" for n t
    using assms that by (auto simp: covers_def)
  have "\<exists>t v. map_of fts n = Some t \<and> map_of fs n = Some v \<and> wt m t v \<and> deep_copier t f" if "(n, f) \<in> set ops" for n f
  proof -
    from that names(3) fs(2) obtain t where t: "(n, t) \<in> set fts" by force
    moreover have "map_of ops n = Some f" using that names(2) by simp
    ultimately show ?thesis using names(1) each [OF t] bspec [OF fs(3) t] by auto
  qed
  then have "\<forall>(n, f) \<in> set ops. \<exists>t v. map_of fts n = Some t \<and> map_of fs n = Some v \<and> wt m t v \<and> deep_copier t f"
    by auto
  from set_fields_copied [OF m names(2) this names(3)] obtain outs m' where r: "set_fields ops fs fs m = Some (outs, m')"
    "mem_ok m'" "extends m m'" "lim m \<le> lim m'" "map fst outs = map fst fs"
    "\<forall>n. n \<notin> set (map fst ops) \<longrightarrow> map_of outs n = map_of fs n"
    "\<forall>n \<in> set (map fst ops). field_copied m m' fs outs (n, the (map_of fts n))" by blast
  have "field_copied m m' fs outs (n, t)" if t: "(n, t) \<in> set fts" for n t
  proof (cases "n \<in> set (map fst ops)")
    case True
    with r(7) t names(1) show ?thesis by fastforce
  next
    case False
    then have "map_of ops n = None" by (simp add: map_of_eq_None_iff)
    with False have "flat t" "map_of outs n = map_of fs n" using each [OF t] r(6) by auto
    moreover obtain w where "map_of fs n = Some w" "wt m t w" using bspec [OF fs(3) t] by blast
    ultimately show ?thesis using copied_kept [OF copied_self [OF m] r(2-4)] by (simp add: field_copied_def)
  qed
  then have "\<forall>ft \<in> set fts. field_copied m m' fs outs ft" by auto
  from copied_struct [OF this _ r(2-4)] r fs show "\<exists>w m'. into ops v m = Some (w, m') \<and> copied (TStruct fts) m v m' w"
    by (auto simp: into_def)
qed

lemmas deep_copier_new = deep_copier.new_copy_copies
lemmas deep_copier_make = deep_copier.make_copy_copies
lemmas deep_copier_tab = deep_copier.tab_copy_copies


text \<open>Assigned fields are left alone, and so are those that no step writes.\<close>

lemma set_fields_keeps:
  "set_fields ops ins outs m = Some (outs', m') \<Longrightarrow> \<forall>f. (n, f) \<in> set ops \<longrightarrow> f = assign \<Longrightarrow>
     map_of outs n = map_of ins n \<Longrightarrow> map_of outs' n = map_of ins n"
proof (induction ops arbitrary: outs m)
  case (Cons op ops)
  obtain k f where op: "op = (k, f)" by (cases op)
  with Cons.prems(1) obtain v w m1 where v: "map_of ins k = Some v" "f v m = Some (w, m1)"
    "set_fields ops ins (AList.update k w outs) m1 = Some (outs', m')" by (auto split: option.splits)
  have "map_of (AList.update k w outs) n = map_of ins n"
    using Cons.prems(2,3) op v(1,2) by (auto simp: update_conv' assign_def)
  with Cons.IH [OF v(3)] Cons.prems(2) op show ?case by simp
qed simp

lemma into_keeps:
  assumes "into ops (Struct fs) m = Some (w, m')" and "\<forall>f. (n, f) \<in> set ops \<longrightarrow> f = assign"
  shows "\<exists>outs. w = Struct outs \<and> map_of outs n = map_of fs n"
  using assms set_fields_keeps [of ops fs fs m _ m' n] by (auto simp: into_def split: option.splits)

end
