(* ===== verification/Deep_Copy.thy ===== *)
theory Deep_Copy
  imports Go_Memory
begin

text \<open>
  The generated deep copies of the API types, zz_generated.deepcopy.go.  A structure is the
  list of its fields under their Go names; \<open>X_DeepCopyInto\<close> answers what is written to
  \<open>*out\<close> and \<open>X_DeepCopy\<close> is \<open>new_copy\<close> of it.  The Kubernetes types that have a
  \<open>DeepCopyInto\<close> of their own are parameters, each a type with its copy; \<open>lib_ok\<close> is their
  contract, which is the one that all generated copies keep.  Numbers, strings, booleans and
  \<open>metav1.Time\<close> are primitive: they are copied by assignment.
\<close>

section \<open>The types\<close>

record lib =
  objectMeta :: "ty \<times> copier"
  listMeta :: "ty \<times> copier"
  podTemplateSpec :: "ty \<times> copier"
  labelSelector :: "ty \<times> copier"
  persistentVolumeClaim :: "ty \<times> copier"
  statefulSetCondition :: "ty \<times> copier"

definition lib_ok :: "lib \<Rightarrow> bool" where
  "lib_ok L \<longleftrightarrow> (\<forall>(t, f) \<in> {objectMeta L, listMeta L, podTemplateSpec L, labelSelector L,
     persistentVolumeClaim L, statefulSetCondition L}. deep_copier t f)"

definition TypeMetaT :: ty where
  "TypeMetaT = TStruct [(''Kind'', TPrim), (''APIVersion'', TPrim)]"

definition IntOrStringT :: ty where
  "IntOrStringT = TStruct [(''Type'', TPrim), (''IntVal'', TPrim), (''StrVal'', TPrim)]"

definition inplace_StrategyT :: ty where
  "inplace_StrategyT = TStruct [(''GracePeriodSeconds'', TPrim)]"

definition RollingUpdateAppStrategyT :: ty where
  "RollingUpdateAppStrategyT = TStruct
     [(''Partition'', TPtr TPrim), (''MaxUnavailable'', TPtr IntOrStringT), (''PodUpdatePolicy'', TPrim),
      (''Paused'', TPrim), (''UnorderedUpdate'', TPrim), (''InPlaceUpdateStrategy'', TPtr inplace_StrategyT),
      (''MinReadySeconds'', TPtr TPrim)]"

definition AppUpdateStrategyT :: ty where
  "AppUpdateStrategyT = TStruct [(''Type'', TPrim), (''RollingUpdate'', TPtr RollingUpdateAppStrategyT)]"

definition VolumeClaimStatusT :: ty where
  "VolumeClaimStatusT = TStruct
     [(''VolumeClaimName'', TPrim), (''CompatibleReplicas'', TPrim), (''CompatibleReadyReplicas'', TPrim)]"

definition AppSpecT :: "lib \<Rightarrow> ty" where
  "AppSpecT L = TStruct
     [(''Replicas'', TPtr TPrim), (''Template'', fst (podTemplateSpec L)),
      (''Selector'', TPtr (fst (labelSelector L))),
      (''VolumeClaimTemplates'', TSlice (fst (persistentVolumeClaim L))),
      (''UpdateStrategy'', AppUpdateStrategyT), (''ServiceName'', TPrim),
      (''RevisionHistoryLimit'', TPtr TPrim), (''PodManagementPolicy'', TPrim)]"

definition AppStatusT :: "lib \<Rightarrow> ty" where
  "AppStatusT L = TStruct
     [(''ObservedGeneration'', TPrim), (''Replicas'', TPrim), (''ReadyReplicas'', TPrim),
      (''AvailableReplicas'', TPrim), (''CurrentReplicas'', TPrim), (''UpdatedReplicas'', TPrim),
      (''UpdatedReadyReplicas'', TPrim), (''UpdatedAvailableReplicas'', TPrim), (''CurrentRevision'', TPrim),
      (''UpdateRevision'', TPrim), (''Conditions'', TSlice (fst (statefulSetCondition L))),
      (''LabelSelector'', TPrim), (''CollisionCount'', TPtr TPrim), (''VolumeClaims'', TSlice VolumeClaimStatusT)]"

definition AppT :: "lib \<Rightarrow> ty" where
  "AppT L = TStruct
     [(''TypeMeta'', TypeMetaT), (''ObjectMeta'', fst (objectMeta L)), (''Spec'', AppSpecT L), (''Status'', AppStatusT L)]"

text \<open>The lists of all kinds have the same form.\<close>

definition listT :: "lib \<Rightarrow> ty \<Rightarrow> ty" where
  "listT L t = TStruct [(''TypeMeta'', TypeMetaT), (''ListMeta'', fst (listMeta L)), (''Items'', TSlice t)]"

definition DeployerSpecT :: ty where
  "DeployerSpecT = TStruct [(''Foo'', TPrim)]"

definition DeployerStatusT :: ty where
  "DeployerStatusT = TStruct []"

definition DeployerT :: "lib \<Rightarrow> ty" where
  "DeployerT L = TStruct
     [(''TypeMeta'', TypeMetaT), (''ObjectMeta'', fst (objectMeta L)), (''Spec'', DeployerSpecT), (''Status'', DeployerStatusT)]"

definition ImageInfoT :: ty where
  "ImageInfoT = TStruct [(''AlwaysPull'', TPrim), (''NextPull'', TPrim)]"

definition ImageListSpecT :: ty where
  "ImageListSpecT = TStruct [(''Images'', TMap ImageInfoT)]"

definition ImageListStatusT :: ty where
  "ImageListStatusT = TStruct []"

definition ImageListT :: "lib \<Rightarrow> ty" where
  "ImageListT L = TStruct
     [(''TypeMeta'', TypeMetaT), (''ObjectMeta'', fst (objectMeta L)), (''Spec'', ImageListSpecT), (''Status'', ImageListStatusT)]"

section \<open>The copies\<close>

definition RollingUpdateAppStrategy_DeepCopyInto :: copier where
  "RollingUpdateAppStrategy_DeepCopyInto = into
     [(''Partition'', new_copy assign), (''MaxUnavailable'', new_copy assign),
      (''InPlaceUpdateStrategy'', new_copy assign), (''MinReadySeconds'', new_copy assign)]"

definition RollingUpdateAppStrategy_DeepCopy :: copier where
  "RollingUpdateAppStrategy_DeepCopy = new_copy RollingUpdateAppStrategy_DeepCopyInto"

definition AppUpdateStrategy_DeepCopyInto :: copier where
  "AppUpdateStrategy_DeepCopyInto = into [(''RollingUpdate'', new_copy RollingUpdateAppStrategy_DeepCopyInto)]"

definition AppUpdateStrategy_DeepCopy :: copier where
  "AppUpdateStrategy_DeepCopy = new_copy AppUpdateStrategy_DeepCopyInto"

definition VolumeClaimStatus_DeepCopyInto :: copier where
  "VolumeClaimStatus_DeepCopyInto = into []"

definition VolumeClaimStatus_DeepCopy :: copier where
  "VolumeClaimStatus_DeepCopy = new_copy VolumeClaimStatus_DeepCopyInto"

definition AppSpec_DeepCopyInto :: "lib \<Rightarrow> copier" where
  "AppSpec_DeepCopyInto L = into
     [(''Replicas'', new_copy assign),
      (''Template'', snd (podTemplateSpec L)),
      (''Selector'', new_copy (snd (labelSelector L))),
      (''VolumeClaimTemplates'', make_copy (snd (persistentVolumeClaim L))),
      (''UpdateStrategy'', AppUpdateStrategy_DeepCopyInto),
      (''RevisionHistoryLimit'', new_copy assign)]"

definition AppSpec_DeepCopy :: "lib \<Rightarrow> copier" where
  "AppSpec_DeepCopy L = new_copy (AppSpec_DeepCopyInto L)"

definition AppStatus_DeepCopyInto :: "lib \<Rightarrow> copier" where
  "AppStatus_DeepCopyInto L = into
     [(''Conditions'', make_copy (snd (statefulSetCondition L))),
      (''CollisionCount'', new_copy assign),
      (''VolumeClaims'', make_copy assign)]"

definition AppStatus_DeepCopy :: "lib \<Rightarrow> copier" where
  "AppStatus_DeepCopy L = new_copy (AppStatus_DeepCopyInto L)"

definition App_DeepCopyInto :: "lib \<Rightarrow> copier" where
  "App_DeepCopyInto L = into
     [(''TypeMeta'', assign),
      (''ObjectMeta'', snd (objectMeta L)),
      (''Spec'', AppSpec_DeepCopyInto L),
      (''Status'', AppStatus_DeepCopyInto L)]"

definition App_DeepCopy :: "lib \<Rightarrow> copier" where
  "App_DeepCopy L = new_copy (App_DeepCopyInto L)"

definition AppList_DeepCopyInto :: "lib \<Rightarrow> copier" where
  "AppList_DeepCopyInto L = into
     [(''TypeMeta'', assign),
      (''ListMeta'', snd (listMeta L)),
      (''Items'', make_copy (App_DeepCopyInto L))]"

definition AppList_DeepCopy :: "lib \<Rightarrow> copier" where
  "AppList_DeepCopy L = new_copy (AppList_DeepCopyInto L)"

text \<open>
  An interface value is nil or a type with a value of it; \<open>DeepCopyObject\<close> answers the nil
  interface for a nil pointer and not an interface that holds a nil pointer.
\<close>

type_synonym iface = "(string \<times> gv) option"

definition object_of :: "string \<Rightarrow> (gv \<times> memory) option \<Rightarrow> (iface \<times> memory) option" where
  "object_of tn r = (case r of None \<Rightarrow> None | Some (c, m) \<Rightarrow> Some (if c \<noteq> Ref None then Some (tn, c) else None, m))"

definition App_DeepCopyObject :: "lib \<Rightarrow> gv \<Rightarrow> memory \<Rightarrow> (iface \<times> memory) option" where
  "App_DeepCopyObject L v m = object_of ''App'' (App_DeepCopy L v m)"

definition AppList_DeepCopyObject :: "lib \<Rightarrow> gv \<Rightarrow> memory \<Rightarrow> (iface \<times> memory) option" where
  "AppList_DeepCopyObject L v m = object_of ''AppList'' (AppList_DeepCopy L v m)"

definition DeployerSpec_DeepCopyInto :: copier where
  "DeployerSpec_DeepCopyInto = into []"

definition DeployerSpec_DeepCopy :: copier where
  "DeployerSpec_DeepCopy = new_copy DeployerSpec_DeepCopyInto"

definition DeployerStatus_DeepCopyInto :: copier where
  "DeployerStatus_DeepCopyInto = into []"

definition DeployerStatus_DeepCopy :: copier where
  "DeployerStatus_DeepCopy = new_copy DeployerStatus_DeepCopyInto"

definition Deployer_DeepCopyInto :: "lib \<Rightarrow> copier" where
  "Deployer_DeepCopyInto L = into
     [(''TypeMeta'', assign), (''ObjectMeta'', snd (objectMeta L)), (''Spec'', assign), (''Status'', assign)]"

definition Deployer_DeepCopy :: "lib \<Rightarrow> copier" where
  "Deployer_DeepCopy L = new_copy (Deployer_DeepCopyInto L)"

definition Deployer_DeepCopyObject :: "lib \<Rightarrow> gv \<Rightarrow> memory \<Rightarrow> (iface \<times> memory) option" where
  "Deployer_DeepCopyObject L v m = object_of ''Deployer'' (Deployer_DeepCopy L v m)"

definition DeployerList_DeepCopyInto :: "lib \<Rightarrow> copier" where
  "DeployerList_DeepCopyInto L = into
     [(''TypeMeta'', assign), (''ListMeta'', snd (listMeta L)), (''Items'', make_copy (Deployer_DeepCopyInto L))]"

definition DeployerList_DeepCopy :: "lib \<Rightarrow> copier" where
  "DeployerList_DeepCopy L = new_copy (DeployerList_DeepCopyInto L)"

definition DeployerList_DeepCopyObject :: "lib \<Rightarrow> gv \<Rightarrow> memory \<Rightarrow> (iface \<times> memory) option" where
  "DeployerList_DeepCopyObject L v m = object_of ''DeployerList'' (DeployerList_DeepCopy L v m)"

text \<open>
  The file was generated before \<open>ImageListSpec\<close> got its map: the specification of an ImageList
  is assigned.
\<close>

definition ImageListSpec_DeepCopyInto :: copier where
  "ImageListSpec_DeepCopyInto = into []"

definition ImageListSpec_DeepCopy :: copier where
  "ImageListSpec_DeepCopy = new_copy ImageListSpec_DeepCopyInto"

definition ImageListStatus_DeepCopyInto :: copier where
  "ImageListStatus_DeepCopyInto = into []"

definition ImageListStatus_DeepCopy :: copier where
  "ImageListStatus_DeepCopy = new_copy ImageListStatus_DeepCopyInto"

definition ImageList_DeepCopyInto :: "lib \<Rightarrow> copier" where
  "ImageList_DeepCopyInto L = into
     [(''TypeMeta'', assign), (''ObjectMeta'', snd (objectMeta L)), (''Spec'', assign), (''Status'', assign)]"

definition ImageList_DeepCopy :: "lib \<Rightarrow> copier" where
  "ImageList_DeepCopy L = new_copy (ImageList_DeepCopyInto L)"

definition ImageList_DeepCopyObject :: "lib \<Rightarrow> gv \<Rightarrow> memory \<Rightarrow> (iface \<times> memory) option" where
  "ImageList_DeepCopyObject L v m = object_of ''ImageList'' (ImageList_DeepCopy L v m)"

definition ImageListList_DeepCopyInto :: "lib \<Rightarrow> copier" where
  "ImageListList_DeepCopyInto L = into
     [(''TypeMeta'', assign), (''ListMeta'', snd (listMeta L)), (''Items'', make_copy (ImageList_DeepCopyInto L))]"

definition ImageListList_DeepCopy :: "lib \<Rightarrow> copier" where
  "ImageListList_DeepCopy L = new_copy (ImageListList_DeepCopyInto L)"

definition ImageListList_DeepCopyObject :: "lib \<Rightarrow> gv \<Rightarrow> memory \<Rightarrow> (iface \<times> memory) option" where
  "ImageListList_DeepCopyObject L v m = object_of ''ImageListList'' (ImageListList_DeepCopy L v m)"

section \<open>The copies are deep\<close>

lemma flat_types [simp]:
  "flat TypeMetaT" "flat IntOrStringT" "flat inplace_StrategyT" "flat VolumeClaimStatusT" "flat DeployerSpecT"
  "flat DeployerStatusT" "flat ImageListStatusT"
  by (simp_all add: TypeMetaT_def IntOrStringT_def inplace_StrategyT_def VolumeClaimStatusT_def DeployerSpecT_def
      DeployerStatusT_def ImageListStatusT_def)

lemmas copier_intros = deep_copier_assign deep_copier_new deep_copier_make deep_copier_tab

interpretation rolling: deep_copier RollingUpdateAppStrategyT RollingUpdateAppStrategy_DeepCopyInto
  unfolding RollingUpdateAppStrategyT_def RollingUpdateAppStrategy_DeepCopyInto_def
  by (rule into_copies) (simp add: covers_def copier_intros)

interpretation strategy: deep_copier AppUpdateStrategyT AppUpdateStrategy_DeepCopyInto
  unfolding AppUpdateStrategyT_def AppUpdateStrategy_DeepCopyInto_def
  by (rule into_copies) (simp add: covers_def rolling.new_copy_copies)

interpretation claim_status: deep_copier VolumeClaimStatusT VolumeClaimStatus_DeepCopyInto
  unfolding VolumeClaimStatusT_def VolumeClaimStatus_DeepCopyInto_def
  by (rule into_copies) (simp add: covers_def)

interpretation deployer_spec: deep_copier DeployerSpecT DeployerSpec_DeepCopyInto
  unfolding DeployerSpecT_def DeployerSpec_DeepCopyInto_def
  by (rule into_copies) (simp add: covers_def)

lemma lib_copies:
  assumes "lib_ok L"
  shows "deep_copier (fst (objectMeta L)) (snd (objectMeta L))"
    and "deep_copier (fst (listMeta L)) (snd (listMeta L))"
    and "deep_copier (fst (podTemplateSpec L)) (snd (podTemplateSpec L))"
    and "deep_copier (fst (labelSelector L)) (snd (labelSelector L))"
    and "deep_copier (fst (persistentVolumeClaim L)) (snd (persistentVolumeClaim L))"
    and "deep_copier (fst (statefulSetCondition L)) (snd (statefulSetCondition L))"
  using assms by (auto simp: lib_ok_def split_beta)

lemma AppSpec_copies: "lib_ok L \<Longrightarrow> deep_copier (AppSpecT L) (AppSpec_DeepCopyInto L)"
  unfolding AppSpecT_def AppSpec_DeepCopyInto_def
  by (rule into_copies) (simp add: covers_def copier_intros lib_copies strategy.deep_copier_axioms)

lemma AppStatus_copies: "lib_ok L \<Longrightarrow> deep_copier (AppStatusT L) (AppStatus_DeepCopyInto L)"
  unfolding AppStatusT_def AppStatus_DeepCopyInto_def
  by (rule into_copies) (simp add: covers_def copier_intros lib_copies)

lemma App_copies: "lib_ok L \<Longrightarrow> deep_copier (AppT L) (App_DeepCopyInto L)"
  unfolding AppT_def App_DeepCopyInto_def
  by (rule into_copies) (simp add: covers_def copier_intros lib_copies AppSpec_copies AppStatus_copies)

lemma AppList_copies: "lib_ok L \<Longrightarrow> deep_copier (listT L (AppT L)) (AppList_DeepCopyInto L)"
  unfolding listT_def AppList_DeepCopyInto_def
  by (rule into_copies) (simp add: covers_def copier_intros lib_copies App_copies)

lemma Deployer_copies: "lib_ok L \<Longrightarrow> deep_copier (DeployerT L) (Deployer_DeepCopyInto L)"
  unfolding DeployerT_def Deployer_DeepCopyInto_def
  by (rule into_copies) (simp add: covers_def copier_intros lib_copies)

lemma DeployerList_copies: "lib_ok L \<Longrightarrow> deep_copier (listT L (DeployerT L)) (DeployerList_DeepCopyInto L)"
  unfolding listT_def DeployerList_DeepCopyInto_def
  by (rule into_copies) (simp add: covers_def copier_intros lib_copies Deployer_copies)


text \<open>\<open>DeepCopy\<close> itself.\<close>

lemma App_pointer_copies: "lib_ok L \<Longrightarrow> deep_copier (TPtr (AppT L)) (App_DeepCopy L)"
  unfolding App_DeepCopy_def by (intro deep_copier_new App_copies)

section \<open>Examples\<close>

text \<open>A library of types whose only pointer is a map of labels, and a memory with an App and an ImageList.\<close>

definition labelledT :: ty where
  "labelledT = TStruct [(''Labels'', TMap TPrim)]"

definition labelled_copy :: copier where
  "labelled_copy = into [(''Labels'', tab_copy assign)]"

definition sample_lib :: lib where
  "sample_lib = \<lparr>objectMeta = (labelledT, labelled_copy), listMeta = (labelledT, labelled_copy),
     podTemplateSpec = (labelledT, labelled_copy), labelSelector = (labelledT, labelled_copy),
     persistentVolumeClaim = (labelledT, labelled_copy), statefulSetCondition = (labelledT, labelled_copy)\<rparr>"

lemma sample_lib_ok: "lib_ok sample_lib"
proof -
  have "deep_copier labelledT labelled_copy"
    unfolding labelledT_def labelled_copy_def by (rule into_copies) (simp add: covers_def copier_intros)
  then show ?thesis by (simp add: lib_ok_def sample_lib_def)
qed

definition str :: "string \<Rightarrow> gv" where
  "str s = Prim (PStr s)"

definition num :: "int \<Rightarrow> gv" where
  "num n = Prim (PInt n)"

definition typeMeta :: gv where
  "typeMeta = Struct [(''Kind'', str ''App''), (''APIVersion'', str ''v1'')]"

definition sample_App :: gv where
  "sample_App = Struct
     [(''TypeMeta'', typeMeta), (''ObjectMeta'', Struct [(''Labels'', Ref (Some 1))]),
      (''Spec'', Struct
        [(''Replicas'', Ref (Some 2)), (''Template'', Struct [(''Labels'', Ref (Some 1))]), (''Selector'', Ref (Some 3)),
         (''VolumeClaimTemplates'', Slice (Some (4, 1, 1))),
         (''UpdateStrategy'', Struct [(''Type'', str ''RollingUpdate''), (''RollingUpdate'', Ref None)]),
         (''ServiceName'', str ''web''), (''RevisionHistoryLimit'', Ref None), (''PodManagementPolicy'', str '''')]),
      (''Status'', Struct
        [(''ObservedGeneration'', num 1), (''Replicas'', num 3), (''ReadyReplicas'', num 3), (''AvailableReplicas'', num 3),
         (''CurrentReplicas'', num 3), (''UpdatedReplicas'', num 3), (''UpdatedReadyReplicas'', num 3),
         (''UpdatedAvailableReplicas'', num 3), (''CurrentRevision'', str ''r''), (''UpdateRevision'', str ''r''),
         (''Conditions'', Slice None), (''LabelSelector'', str ''''), (''CollisionCount'', Ref (Some 2)), (''VolumeClaims'', Slice None)])]"

definition sample_ImageList :: gv where
  "sample_ImageList = Struct
     [(''TypeMeta'', typeMeta), (''ObjectMeta'', Struct [(''Labels'', Ref (Some 1))]),
      (''Spec'', Struct [(''Images'', Ref (Some 6))]), (''Status'', Struct [])]"

definition sample_memory :: memory where
  "sample_memory = \<lparr>cells =
     [0 \<mapsto> Box sample_App, 1 \<mapsto> Tab [(''app'', str ''web'')], 2 \<mapsto> Box (num 3),
      3 \<mapsto> Box (Struct [(''Labels'', Ref (Some 1))]),
      4 \<mapsto> Arr [Struct [(''Labels'', Ref None)], Struct [(''Labels'', Ref (Some 1))]],
      5 \<mapsto> Box sample_ImageList,
      6 \<mapsto> Tab [(''nginx'', Struct [(''AlwaysPull'', Prim (PBool True)), (''NextPull'', num 0)])]],
     lim = 7\<rparr>"

lemmas sample_defs = sample_lib_def labelledT_def labelled_copy_def str_def num_def typeMeta_def sample_App_def
  sample_ImageList_def sample_memory_def

lemma sample_mem_ok: "mem_ok sample_memory"
  by (simp add: mem_ok_def sample_memory_def)

lemma sample_App_typed: "wt sample_memory (TPtr (AppT sample_lib)) (Ref (Some 0))"
  by (simp add: sample_defs AppT_def AppSpecT_def AppStatusT_def TypeMetaT_def AppUpdateStrategyT_def field_def elems_def)

lemma sample_ImageList_typed: "wt sample_memory (ImageListT sample_lib) sample_ImageList"
  by (simp add: sample_defs ImageListT_def ImageListSpecT_def ImageListStatusT_def ImageInfoT_def TypeMetaT_def field_def)

section \<open>Properties\<close>

text \<open>
  C15.  \<open>App.DeepCopy\<close> is a deep copy: it returns, the result is a well-typed App with the same
  meaning at every depth, and all cells that it refers to are new.
\<close>

theorem App_DeepCopy_deep:
  assumes "lib_ok L" and "mem_ok m" and "wt m (TPtr (AppT L)) v"
  shows "\<exists>w m'. App_DeepCopy L v m = Some (w, m') \<and> mem_ok m' \<and> wt m' (TPtr (AppT L)) w \<and>
      den m' (TPtr (AppT L)) w = den m (TPtr (AppT L)) v \<and>
      (\<forall>a \<in> set (reach m' (TPtr (AppT L)) w). cells m a = None)"
  using deep_copier.copy [OF App_pointer_copies [OF assms(1)] assms(2,3)] copied_new [OF assms(2)]
  unfolding copied_def by metis

theorem App_DeepCopy_deep_witness:
  "\<exists>w m'. App_DeepCopy sample_lib (Ref (Some 0)) sample_memory = Some (w, m') \<and> mem_ok m' \<and>
     wt m' (TPtr (AppT sample_lib)) w \<and>
     den m' (TPtr (AppT sample_lib)) w = den sample_memory (TPtr (AppT sample_lib)) (Ref (Some 0)) \<and>
     (\<forall>a \<in> set (reach m' (TPtr (AppT sample_lib)) w). cells sample_memory a = None)"
  by (rule App_DeepCopy_deep [OF sample_lib_ok sample_mem_ok sample_App_typed])

text \<open>
  C16.  Isolation: after \<open>App.DeepCopy\<close> whatever is written through the copy leaves everything
  that was in memory before as it was, the App of the lister's cache included; and whatever is
  written to the old cells leaves the copy as it was.
\<close>

theorem App_DeepCopy_isolated:
  assumes "lib_ok L" and "mem_ok m" and "wt m (TPtr (AppT L)) v" and "App_DeepCopy L v m = Some (w, m')"
  shows "(\<forall>ws s x. fst ` set ws \<subseteq> set (reach m' (TPtr (AppT L)) w) \<longrightarrow> wt m s x \<longrightarrow>
             wt (store_all ws m') s x \<and> den (store_all ws m') s x = den m s x) \<and>
         (\<forall>ws. fst ` set ws \<subseteq> dom (cells m) \<longrightarrow>
             wt (store_all ws m') (TPtr (AppT L)) w \<and>
             den (store_all ws m') (TPtr (AppT L)) w = den m (TPtr (AppT L)) v)"
  using deep_copier.copy_writes [OF App_pointer_copies [OF assms(1)] assms(2-4)]
    deep_copier.old_writes [OF App_pointer_copies [OF assms(1)] assms(2-4)] by blast

section \<open>ImageList is copied too shallowly\<close>

lemma into_Nil: "into [] (Struct fs) m = Some (Struct fs, m)"
  by (simp add: into_def)

lemma ImageListSpec_not_deep: "\<not> deep_copier ImageListSpecT ImageListSpec_DeepCopyInto"
proof
  assume d: "deep_copier ImageListSpecT ImageListSpec_DeepCopyInto"
  define m where "m = \<lparr>cells = [0 \<mapsto> Tab []], lim = 1\<rparr>"
  define v where "v = Struct [(''Images'', Ref (Some 0))]"
  have m: "mem_ok m" "wt m ImageListSpecT v" "reach m ImageListSpecT v = [0]"
    by (auto simp: mem_ok_def m_def v_def ImageListSpecT_def field_def split: if_splits)
  have "ImageListSpec_DeepCopyInto v m = Some (v, m)" by (simp add: ImageListSpec_DeepCopyInto_def v_def into_Nil)
  from deep_copier.copy_disjoint [OF d m(1,2) this] m(3) show False by simp
qed

lemma ImageList_DeepCopyInto_memory:
  assumes "lib_ok L" and "mem_ok m" and "wt m (ImageListT L) (Struct fs)"
    and "ImageList_DeepCopyInto L (Struct fs) m = Some (s, m1)"
  shows "mem_ok m1 \<and> extends m m1 \<and> lim m \<le> lim m1"
proof -
  from assms(3) obtain v where v: "map_of fs ''ObjectMeta'' = Some v" "wt m (fst (objectMeta L)) v"
    unfolding ImageListT_def by (rule wt_StructE) auto
  from assms(4) v(1) obtain w where "snd (objectMeta L) v m = Some (w, m1)"
    by (auto simp: ImageList_DeepCopyInto_def into_def assign_def split: option.splits)
  from deep_copier.copied_if [OF lib_copies(1) [OF assms(1)] assms(2) v(2) this] show ?thesis
    by (rule copied_memory)
qed

theorem App_DeepCopy_isolated_witness:
  "\<exists>w m'. App_DeepCopy sample_lib (Ref (Some 0)) sample_memory = Some (w, m') \<and>
     (\<forall>ws s x. fst ` set ws \<subseteq> set (reach m' (TPtr (AppT sample_lib)) w) \<longrightarrow> wt sample_memory s x \<longrightarrow>
        wt (store_all ws m') s x \<and> den (store_all ws m') s x = den sample_memory s x)"
proof -
  from deep_copier.copy [OF App_pointer_copies [OF sample_lib_ok] sample_mem_ok sample_App_typed]
  obtain w m' where "App_DeepCopy sample_lib (Ref (Some 0)) sample_memory = Some (w, m')" by blast
  with App_DeepCopy_isolated [OF sample_lib_ok sample_mem_ok sample_App_typed this] show ?thesis by blast
qed

text \<open>
  C34.  \<open>ImageList.DeepCopy\<close> is not deep: the copy's map of images is the very map of the
  original, so that writing an image through the copy also changes the original.
\<close>

theorem ImageList_DeepCopy_shares:
  assumes "lib_ok L" and "mem_ok m" and "wt m (ImageListT L) (Struct fs)" and "cells m a = Some (Box (Struct fs))"
    and "map_of fs ''Spec'' = Some (Struct [(''Images'', Ref (Some b))])"
    and "ImageList_DeepCopy L (Ref (Some a)) m = Some (w, m')"
  shows "\<exists>c outs. w = Ref (Some c) \<and> cells m c = None \<and> cells m' c = Some (Box (Struct outs)) \<and>
      map_of outs ''Spec'' = Some (Struct [(''Images'', Ref (Some b))]) \<and>
      b \<in> set (reach m (ImageListT L) (Struct fs)) \<and> b \<in> set (reach m' (ImageListT L) (Struct outs))"
proof -
  from assms(4,6) obtain s m1 where s: "ImageList_DeepCopyInto L (Struct fs) m = Some (s, m1)"
    and al: "alloc (Box s) m1 = (lim m1, m')" "w = Ref (Some (lim m1))"
    by (auto simp: ImageList_DeepCopy_def new_copy_def alloc_def split: option.splits)
  from into_keeps [OF s [unfolded ImageList_DeepCopyInto_def], of "''Spec''"] assms(5)
  obtain outs where outs: "s = Struct outs" "map_of outs ''Spec'' = Some (Struct [(''Images'', Ref (Some b))])" by auto
  have new: "cells m (lim m1) = None" and old: "extends m m1" and ok: "mem_ok m1"
    using ImageList_DeepCopyInto_memory [OF assms(1-3) s] fresh_cell_none unfolding extends_def map_le_def
    by (auto simp: dom_def)
  have "b \<in> set (reach m0 (ImageListT L) (Struct gs))"
    if "map_of gs ''Spec'' = Some (Struct [(''Images'', Ref (Some b))])" for m0 gs
    using that by (simp add: ImageListT_def ImageListSpecT_def field_def)
  with assms(5) outs alloc_ok(5) [OF ok al(1)] al(2) new show ?thesis by blast
qed

theorem ImageList_DeepCopy_shares_witness:
  "\<exists>w m' c outs. ImageList_DeepCopy sample_lib (Ref (Some 5)) sample_memory = Some (w, m') \<and> w = Ref (Some c) \<and> c \<noteq> 5 \<and>
     cells m' c = Some (Box (Struct outs)) \<and> map_of outs ''Spec'' = Some (Struct [(''Images'', Ref (Some 6))])"
proof -
  obtain fs where fs: "sample_ImageList = Struct fs" "map_of fs ''Spec'' = Some (Struct [(''Images'', Ref (Some 6))])"
    by (simp add: sample_ImageList_def)
  have cell: "cells sample_memory 5 = Some (Box (Struct fs))" by (simp add: sample_memory_def flip: fs(1))
  obtain w m' where r: "ImageList_DeepCopy sample_lib (Ref (Some 5)) sample_memory = Some (w, m')"
    by (simp add: ImageList_DeepCopy_def new_copy_def ImageList_DeepCopyInto_def into_def assign_def make_copy_def
        tab_copy_def alloc_def sample_defs)
  from ImageList_DeepCopy_shares [OF sample_lib_ok sample_mem_ok sample_ImageList_typed [unfolded fs(1)] cell fs(2) r]
  show ?thesis using r cell by fastforce
qed


section \<open>Runtime objects\<close>

text \<open>The answer is the nil interface exactly for a nil pointer; otherwise it holds a deep copy.\<close>

lemma App_DeepCopyObject_spec:
  assumes "lib_ok L" and "mem_ok m" and "wt m (TPtr (AppT L)) v"
  shows "\<exists>c m'. App_DeepCopyObject L v m = Some (if v = Ref None then None else Some (''App'', c), m') \<and>
      copied (TPtr (AppT L)) m v m' c \<and> (c = Ref None \<longleftrightarrow> v = Ref None)"
proof -
  from deep_copier.copy [OF App_pointer_copies [OF assms(1)] assms(2,3)] obtain c m'
    where c: "App_DeepCopy L v m = Some (c, m')" "copied (TPtr (AppT L)) m v m' c" by blast
  then have "c = Ref None \<longleftrightarrow> v = Ref None"
    unfolding App_DeepCopy_def new_copy_def alloc_def
    by (auto split: gv.splits option.splits cell.splits)
  with c show ?thesis by (auto simp: App_DeepCopyObject_def object_of_def)
qed

end
