(* ===== verification/Rest_Client.thy ===== *)
theory Rest_Client
  imports Samples_Env Complex_Main
begin

text \<open>
  The generated clients of Apps and ImageLists (typed/deployer/v1), the client set and the
  listers.  A request is what the code builds: a verb and the calls of the request builder in
  their order.  Sending it is the business of the REST client, a parameter; \<open>Into\<close> decodes
  the answer or leaves the empty object as it is.  The two typed clients are one text with
  different names, so each method is one definition over the kind of its objects, and the
  clients of the two kinds are its instances.
\<close>

section \<open>Requests\<close>

type_synonym options = string

record list_options =
  lo_label_selector :: string
  lo_timeout_seconds :: "int64 option"
  lo_watch :: bool
  lo_rest :: string

datatype params =
    GetParams options
  | ListParams list_options
  | CreateParams options
  | UpdateParams options
  | PatchParams options

datatype verb = GET | POST | PUT | DELETE | PATCH string

datatype 'a part =
    Namespace string
  | Resource string
  | Name string
  | SubResource "string list"
  | VersionedParams params
  | Timeout int64
  | BodyObject 'a
  | BodyOptions options
  | BodyData string

type_synonym 'a request = "verb \<times> 'a part list"

text \<open>The REST client: what \<open>Do(ctx).Into(result)\<close>, \<open>Do(ctx).Error()\<close> and \<open>Watch(ctx)\<close> answer.\<close>

record ('a, 'l, 'w, 's) rest =
  rc_into :: "'a request \<Rightarrow> 's \<Rightarrow> (go_error + 'a) \<times> 's"
  rc_into_list :: "'a request \<Rightarrow> 's \<Rightarrow> (go_error + 'l) \<times> 's"
  rc_error :: "'a request \<Rightarrow> 's \<Rightarrow> go_error option \<times> 's"
  rc_watch :: "'a request \<Rightarrow> 's \<Rightarrow> (go_error + 'w) \<times> 's"

record ('a, 'l) kind =
  k_resource :: string
  k_name :: "'a \<Rightarrow> string"
  k_empty :: 'a
  k_empty_list :: 'l

text \<open>\<open>apps\<close> and \<open>imageLists\<close>: the REST client and the namespace.\<close>

type_synonym ('a, 'l, 'w, 's) typed_client = "('a, 'l, 'w, 's) rest \<times> string"

definition into_result :: "'a \<Rightarrow> (go_error + 'a) \<times> 's \<Rightarrow> ('a \<times> go_error option) \<times> 's" where
  "into_result none r = (case r of (Inl e, s) \<Rightarrow> ((none, Some e), s) | (Inr x, s) \<Rightarrow> ((x, None), s))"

text \<open>\<open>time.Duration(*opts.TimeoutSeconds) * time.Second\<close>, in 64 bits.\<close>

definition timeout_of :: "list_options \<Rightarrow> int64" where
  "timeout_of opts = (case lo_timeout_seconds opts of None \<Rightarrow> 0 | Some t \<Rightarrow> t * 1000000000)"

section \<open>The methods\<close>

definition typed_Get :: "('a, 'l) kind \<Rightarrow> ('a, 'l, 'w, 's) typed_client \<Rightarrow> string \<Rightarrow> options \<Rightarrow> 's \<Rightarrow>
    ('a \<times> go_error option) \<times> 's" where
  "typed_Get k c name opts s = into_result (k_empty k) (rc_into (fst c)
     (GET, [Namespace (snd c), Resource (k_resource k), Name name, VersionedParams (GetParams opts)]) s)"

definition typed_List :: "('a, 'l) kind \<Rightarrow> ('a, 'l, 'w, 's) typed_client \<Rightarrow> list_options \<Rightarrow> 's \<Rightarrow>
    ('l \<times> go_error option) \<times> 's" where
  "typed_List k c opts s = into_result (k_empty_list k) (rc_into_list (fst c)
     (GET, [Namespace (snd c), Resource (k_resource k), VersionedParams (ListParams opts), Timeout (timeout_of opts)]) s)"

definition typed_Watch :: "('a, 'l) kind \<Rightarrow> ('a, 'l, 'w, 's) typed_client \<Rightarrow> list_options \<Rightarrow> 's \<Rightarrow>
    (go_error + 'w) \<times> 's" where
  "typed_Watch k c opts s = rc_watch (fst c)
     (GET, [Namespace (snd c), Resource (k_resource k), VersionedParams (ListParams (opts\<lparr>lo_watch := True\<rparr>)),
            Timeout (timeout_of opts)]) s"

definition typed_Create :: "('a, 'l) kind \<Rightarrow> ('a, 'l, 'w, 's) typed_client \<Rightarrow> 'a \<Rightarrow> options \<Rightarrow> 's \<Rightarrow>
    ('a \<times> go_error option) \<times> 's" where
  "typed_Create k c x opts s = into_result (k_empty k) (rc_into (fst c)
     (POST, [Namespace (snd c), Resource (k_resource k), VersionedParams (CreateParams opts), BodyObject x]) s)"

definition typed_Update :: "('a, 'l) kind \<Rightarrow> ('a, 'l, 'w, 's) typed_client \<Rightarrow> 'a \<Rightarrow> options \<Rightarrow> 's \<Rightarrow>
    ('a \<times> go_error option) \<times> 's" where
  "typed_Update k c x opts s = into_result (k_empty k) (rc_into (fst c)
     (PUT, [Namespace (snd c), Resource (k_resource k), Name (k_name k x), VersionedParams (UpdateParams opts),
            BodyObject x]) s)"

definition typed_UpdateStatus :: "('a, 'l) kind \<Rightarrow> ('a, 'l, 'w, 's) typed_client \<Rightarrow> 'a \<Rightarrow> options \<Rightarrow> 's \<Rightarrow>
    ('a \<times> go_error option) \<times> 's" where
  "typed_UpdateStatus k c x opts s = into_result (k_empty k) (rc_into (fst c)
     (PUT, [Namespace (snd c), Resource (k_resource k), Name (k_name k x), SubResource [''status''],
            VersionedParams (UpdateParams opts), BodyObject x]) s)"

definition typed_Delete :: "('a, 'l) kind \<Rightarrow> ('a, 'l, 'w, 's) typed_client \<Rightarrow> string \<Rightarrow> options \<Rightarrow> 's \<Rightarrow>
    go_error option \<times> 's" where
  "typed_Delete k c name opts s = rc_error (fst c)
     (DELETE, [Namespace (snd c), Resource (k_resource k), Name name, BodyOptions opts]) s"

definition typed_DeleteCollection :: "('a, 'l) kind \<Rightarrow> ('a, 'l, 'w, 's) typed_client \<Rightarrow> options \<Rightarrow> list_options \<Rightarrow> 's \<Rightarrow>
    go_error option \<times> 's" where
  "typed_DeleteCollection k c opts listOpts s = rc_error (fst c)
     (DELETE, [Namespace (snd c), Resource (k_resource k), VersionedParams (ListParams listOpts),
               Timeout (timeout_of listOpts), BodyOptions opts]) s"

definition typed_Patch :: "('a, 'l) kind \<Rightarrow> ('a, 'l, 'w, 's) typed_client \<Rightarrow> string \<Rightarrow> string \<Rightarrow> string \<Rightarrow> options \<Rightarrow>
    string list \<Rightarrow> 's \<Rightarrow> ('a \<times> go_error option) \<times> 's" where
  "typed_Patch k c name pt data opts subresources s = into_result (k_empty k) (rc_into (fst c)
     (PATCH pt, [Namespace (snd c), Resource (k_resource k), Name name, SubResource subresources,
                 VersionedParams (PatchParams opts), BodyData data]) s)"

section \<open>The two kinds\<close>

record image_list_object =
  il_name :: string
  il_namespace :: string
  il_labels :: gomap
  il_images :: image_list

definition app_kind :: "(app, app list) kind" where
  "app_kind = \<lparr>k_resource = ''apps'', k_name = a_name, k_empty = zero_app, k_empty_list = []\<rparr>"

definition image_list_kind :: "(image_list_object, image_list_object list) kind" where
  "image_list_kind = \<lparr>k_resource = ''imagelists'', k_name = il_name,
     k_empty = \<lparr>il_name = '''', il_namespace = '''', il_labels = None, il_images = []\<rparr>, k_empty_list = []\<rparr>"

definition newApps :: "('a, 'l, 'w, 's) rest \<Rightarrow> string \<Rightarrow> ('a, 'l, 'w, 's) typed_client" where
  "newApps c namespace = (c, namespace)"

definition newImageLists :: "('a, 'l, 'w, 's) rest \<Rightarrow> string \<Rightarrow> ('a, 'l, 'w, 's) typed_client" where
  "newImageLists c namespace = (c, namespace)"

definition apps_Get where "apps_Get = typed_Get app_kind"
definition apps_List where "apps_List = typed_List app_kind"
definition apps_Watch where "apps_Watch = typed_Watch app_kind"
definition apps_Create where "apps_Create = typed_Create app_kind"
definition apps_Update where "apps_Update = typed_Update app_kind"
definition apps_UpdateStatus where "apps_UpdateStatus = typed_UpdateStatus app_kind"
definition apps_Delete where "apps_Delete = typed_Delete app_kind"
definition apps_DeleteCollection where "apps_DeleteCollection = typed_DeleteCollection app_kind"
definition apps_Patch where "apps_Patch = typed_Patch app_kind"

definition imageLists_Get where "imageLists_Get = typed_Get image_list_kind"
definition imageLists_List where "imageLists_List = typed_List image_list_kind"
definition imageLists_Watch where "imageLists_Watch = typed_Watch image_list_kind"
definition imageLists_Create where "imageLists_Create = typed_Create image_list_kind"
definition imageLists_Update where "imageLists_Update = typed_Update image_list_kind"
definition imageLists_UpdateStatus where "imageLists_UpdateStatus = typed_UpdateStatus image_list_kind"
definition imageLists_Delete where "imageLists_Delete = typed_Delete image_list_kind"
definition imageLists_DeleteCollection where "imageLists_DeleteCollection = typed_DeleteCollection image_list_kind"
definition imageLists_Patch where "imageLists_Patch = typed_Patch image_list_kind"

section \<open>The client of Apps in the environment\<close>

text \<open>
  What a request addresses: the namespaces, resources, names and subresources that the builder
  was given, and the objects in its body.
\<close>

definition names_of :: "'a part list \<Rightarrow> string list" where
  "names_of ps = concat (map (\<lambda>p. case p of Name n \<Rightarrow> [n] | _ \<Rightarrow> []) ps)"

definition namespaces_of :: "'a part list \<Rightarrow> string list" where
  "namespaces_of ps = concat (map (\<lambda>p. case p of Namespace n \<Rightarrow> [n] | _ \<Rightarrow> []) ps)"

definition resources_of :: "'a part list \<Rightarrow> string list" where
  "resources_of ps = concat (map (\<lambda>p. case p of Resource r \<Rightarrow> [r] | _ \<Rightarrow> []) ps)"

definition subresources_of :: "'a part list \<Rightarrow> string list" where
  "subresources_of ps = concat (map (\<lambda>p. case p of SubResource rs \<Rightarrow> rs | _ \<Rightarrow> []) ps)"

definition objects_of :: "'a part list \<Rightarrow> 'a list" where
  "objects_of ps = concat (map (\<lambda>p. case p of BodyObject x \<Rightarrow> [x] | _ \<Rightarrow> []) ps)"

lemmas parts_of = names_of_def namespaces_of_def resources_of_def subresources_of_def objects_of_def

definition addresses :: "'a request \<Rightarrow> verb \<Rightarrow> string \<Rightarrow> string \<Rightarrow> string \<Rightarrow> string list \<Rightarrow> 'a list \<Rightarrow> bool" where
  "addresses r v ns resource name subs objs \<longleftrightarrow>
     fst r = v \<and> namespaces_of (snd r) = [ns] \<and> resources_of (snd r) = [resource] \<and> names_of (snd r) = [name] \<and>
     subresources_of (snd r) = subs \<and> objects_of (snd r) = objs \<and> ns \<noteq> '''' \<and> name \<noteq> ''''"

text \<open>
  A REST client, otherwise arbitrary, that is connected to the API server of the environment:
  it answers what is asked about one object of the resource \<open>apps\<close> by its namespace and name,
  a \<open>PUT\<close> only under the name of the object that is sent, and the status by its subresource.
  Of any other request, say of another resource, nothing is known.
\<close>

definition serves_apps :: "env \<Rightarrow> (app, app list, 'w, sys) rest \<Rightarrow> bool" where
  "serves_apps env c \<longleftrightarrow>
     (\<forall>r s ns name. addresses r GET ns ''apps'' name [] [] \<longrightarrow>
        rc_into c r s = (e_app_get env (trace s) ns name, log_call (CallAppGet ns name) s)) \<and>
     (\<forall>r s a. addresses r PUT (a_namespace a) ''apps'' (a_name a) [] [a] \<longrightarrow>
        rc_into c r s = (e_app_put env (trace s) a, log_call (CallAppUpdate a) s)) \<and>
     (\<forall>r s a. addresses r PUT (a_namespace a) ''apps'' (a_name a) [''status''] [a] \<longrightarrow>
        rc_into c r s = (e_app_put_status env (trace s) a, log_call (CallAppUpdateStatus a) s))"

text \<open>
  C31.  The generated client sends the requests that the controller's environment answers: over
  every REST client that serves the Apps of the environment, \<open>Get\<close>, and for an App in its own
  namespace \<open>Update\<close> and \<open>UpdateStatus\<close>, are the operations with which the reconciler is
  modelled, the empty App after a failed request included.
\<close>

theorem typed_client_is_environment:
  assumes "serves_apps env c" and "ns \<noteq> ''''" and "name \<noteq> ''''"
    and "a_namespace a = ns" and "a_name a = name"
  shows "apps_Get (newApps c ns) name opts s = app_Get env ns name s \<and>
   apps_Update (newApps c ns) a opts s = app_Update env a s \<and>
   apps_UpdateStatus (newApps c ns) a opts s = app_UpdateStatus env a s"
proof -
  have "addresses (GET, [Namespace ns, Resource ''apps'', Name name, VersionedParams (GetParams opts)])
      GET ns ''apps'' name [] ([] :: app list)"
    using assms by (simp add: addresses_def parts_of)
  with assms(1) have "rc_into c (GET, [Namespace ns, Resource ''apps'', Name name, VersionedParams (GetParams opts)]) s =
      (e_app_get env (trace s) ns name, log_call (CallAppGet ns name) s)" unfolding serves_apps_def by blast
  moreover have "addresses (PUT, [Namespace ns, Resource ''apps'', Name name, VersionedParams (UpdateParams opts), BodyObject a])
      PUT (a_namespace a) ''apps'' (a_name a) [] [a]"
    using assms by (simp add: addresses_def parts_of)
  with assms(1) have "rc_into c (PUT, [Namespace ns, Resource ''apps'', Name name, VersionedParams (UpdateParams opts), BodyObject a]) s =
      (e_app_put env (trace s) a, log_call (CallAppUpdate a) s)" unfolding serves_apps_def by blast
  moreover have "addresses (PUT, [Namespace ns, Resource ''apps'', Name name, SubResource [''status''],
      VersionedParams (UpdateParams opts), BodyObject a]) PUT (a_namespace a) ''apps'' (a_name a) [''status''] [a]"
    using assms by (simp add: addresses_def parts_of)
  with assms(1) have "rc_into c (PUT, [Namespace ns, Resource ''apps'', Name name, SubResource [''status''],
      VersionedParams (UpdateParams opts), BodyObject a]) s =
      (e_app_put_status env (trace s) a, log_call (CallAppUpdateStatus a) s)" unfolding serves_apps_def by blast
  ultimately show ?thesis using assms(5)
    by (simp add: apps_Get_def apps_Update_def apps_UpdateStatus_def typed_Get_def typed_Update_def typed_UpdateStatus_def
        newApps_def app_kind_def into_result_def app_Get_def app_Update_def app_UpdateStatus_def split: sum.split)
qed

text \<open>A REST client for one App: it knows the paths of the App and of its status, and no others.\<close>

definition not_served :: go_error where
  "not_served = ErrOther ''the server could not find the requested resource''"

definition one_app_into :: "env \<Rightarrow> app request \<Rightarrow> sys \<Rightarrow> (go_error + app) \<times> sys" where
  "one_app_into env r s =
     (case (namespaces_of (snd r), resources_of (snd r), names_of (snd r), subresources_of (snd r)) of
        ([ns], [resource], [name], subs) \<Rightarrow>
          if resource \<noteq> ''apps'' then (Inl not_served, s)
          else (case (fst r, objects_of (snd r)) of
              (GET, []) \<Rightarrow> if subs = [] then (e_app_get env (trace s) ns name, log_call (CallAppGet ns name) s)
                else (Inl not_served, s)
            | (PUT, [x]) \<Rightarrow>
                if a_name x \<noteq> name \<or> a_namespace x \<noteq> ns then (Inl not_served, s)
                else if subs = [] then (e_app_put env (trace s) x, log_call (CallAppUpdate x) s)
                else if subs = [''status''] then (e_app_put_status env (trace s) x, log_call (CallAppUpdateStatus x) s)
                else (Inl not_served, s)
            | _ \<Rightarrow> (Inl not_served, s))
      | _ \<Rightarrow> (Inl not_served, s))"

definition one_app_rest :: "env \<Rightarrow> (app, app list, unit, sys) rest" where
  "one_app_rest env = \<lparr>rc_into = one_app_into env, rc_into_list = (\<lambda>_ s. (Inl not_served, s)),
     rc_error = (\<lambda>_ s. (Some not_served, s)), rc_watch = (\<lambda>_ s. (Inl not_served, s))\<rparr>"

lemma one_app_serves: "serves_apps env (one_app_rest env)"
  by (simp add: serves_apps_def one_app_rest_def one_app_into_def addresses_def)

theorem typed_client_is_environment_witness:
  "apps_UpdateStatus (newApps (one_app_rest sample_env) ''ns'') sample_app [] sample_sys =
     ((sample_app, None), log_call (CallAppUpdateStatus sample_app) sample_sys)"
proof -
  have "(''ns'' :: string) \<noteq> ''''" "a_name sample_app \<noteq> ''''" "a_namespace sample_app = ''ns''" by (simp_all add: sample_app_def)
  from typed_client_is_environment [OF one_app_serves [of sample_env] this refl] show ?thesis
    by (simp add: app_UpdateStatus_def sample_env_def)
qed

text \<open>
  The timeout of a list request is exact up to 9223372036 seconds; one second more and the
  multiplication wraps around to a negative duration.
\<close>

theorem timeout_exact:
  "(0 \<le> sint t \<and> sint t \<le> 9223372036 \<longrightarrow>
      sint (timeout_of \<lparr>lo_label_selector = sel, lo_timeout_seconds = Some t, lo_watch = w, lo_rest = r\<rparr>) = sint t * second) \<and>
   sint (timeout_of \<lparr>lo_label_selector = sel, lo_timeout_seconds = Some 9223372037, lo_watch = w, lo_rest = r\<rparr>) < 0"
proof -
  have "sint (t * 1000000000) = sint t * second" if "0 \<le> sint t" "sint t \<le> 9223372036"
  proof -
    have "sint (t * 1000000000) = signed_take_bit 63 (sint t * 1000000000)"
      by (simp add: sint_word_ariths)
    also have "\<dots> = sint t * 1000000000" using that by (intro signed_take_bit_int_eq_self) auto
    finally show ?thesis by (simp add: second_def)
  qed
  moreover have "sint ((9223372037::int64) * 1000000000) < 0" by simp
  ultimately show ?thesis by (simp add: timeout_of_def)
qed

theorem timeout_exact_witness:
  "sint (timeout_of \<lparr>lo_label_selector = '''', lo_timeout_seconds = Some 30, lo_watch = False, lo_rest = ''''\<rparr>) = 30 * second"
  using timeout_exact [of 30 "''''" False "''''"] by simp

section \<open>Listers\<close>

text \<open>
  A cache holds objects of any type; a lister asserts the type of its own, and a failed
  assertion panics (\<open>None\<close>).
\<close>

datatype cached = CachedApp app | CachedImageList image_list_object

fun as_App :: "cached \<Rightarrow> app option" where
  "as_App (CachedApp a) = Some a"
| "as_App _ = None"

fun as_ImageList :: "cached \<Rightarrow> image_list_object option" where
  "as_ImageList (CachedImageList l) = Some l"
| "as_ImageList _ = None"

record 'q indexer =
  ix_key :: "string \<Rightarrow> go_error + cached option"
  ix_all :: "'q \<Rightarrow> cached list \<times> go_error option"
  ix_namespace :: "string \<Rightarrow> 'q \<Rightarrow> cached list \<times> go_error option"

text \<open>The objects a traversal visits are appended to the result, also when it ends with an error.\<close>

fun append_all :: "(cached \<Rightarrow> 'a option) \<Rightarrow> 'a list \<Rightarrow> cached list \<Rightarrow> 'a list option" where
  "append_all as ret [] = Some ret"
| "append_all as ret (m # ms) = (case as m of None \<Rightarrow> None | Some x \<Rightarrow> append_all as (ret @ [x]) ms)"

definition visited :: "(cached \<Rightarrow> 'a option) \<Rightarrow> cached list \<times> go_error option \<Rightarrow> ('a list \<times> go_error option) option" where
  "visited as r = (case append_all as [] (fst r) of None \<Rightarrow> None | Some ret \<Rightarrow> Some (ret, snd r))"

definition got :: "(cached \<Rightarrow> 'a option) \<Rightarrow> go_error + cached option \<Rightarrow> (go_error + 'a) option" where
  "got as r =
     (case r of
        Inl e \<Rightarrow> Some (Inl e)
      | Inr None \<Rightarrow> Some (Inl ErrNotFound)
      | Inr (Some m) \<Rightarrow> (case as m of None \<Rightarrow> None | Some x \<Rightarrow> Some (Inr x)))"

definition appLister_List :: "'q indexer \<Rightarrow> 'q \<Rightarrow> (app list \<times> go_error option) option" where
  "appLister_List ix selector = visited as_App (ix_all ix selector)"

definition appNamespaceLister_List :: "'q indexer \<Rightarrow> string \<Rightarrow> 'q \<Rightarrow> (app list \<times> go_error option) option" where
  "appNamespaceLister_List ix namespace selector = visited as_App (ix_namespace ix namespace selector)"

definition appNamespaceLister_Get :: "'q indexer \<Rightarrow> string \<Rightarrow> string \<Rightarrow> (go_error + app) option" where
  "appNamespaceLister_Get ix namespace name = got as_App (ix_key ix (namespace @ ''/'' @ name))"

definition imageListLister_List :: "'q indexer \<Rightarrow> 'q \<Rightarrow> (image_list_object list \<times> go_error option) option" where
  "imageListLister_List ix selector = visited as_ImageList (ix_all ix selector)"

definition imageListNamespaceLister_List :: "'q indexer \<Rightarrow> string \<Rightarrow> 'q \<Rightarrow> (image_list_object list \<times> go_error option) option" where
  "imageListNamespaceLister_List ix namespace selector = visited as_ImageList (ix_namespace ix namespace selector)"

definition imageListNamespaceLister_Get :: "'q indexer \<Rightarrow> string \<Rightarrow> string \<Rightarrow> (go_error + image_list_object) option" where
  "imageListNamespaceLister_Get ix namespace name = got as_ImageList (ix_key ix (namespace @ ''/'' @ name))"

text \<open>
  The documented behaviour of the indexer of Apps: it holds Apps under their keys
  \<open>namespace/name\<close>, and lists those of a namespace that match the selector.  The API server
  allows no slash in a namespace.
\<close>

definition app_key :: "app \<Rightarrow> string" where
  "app_key a = a_namespace a @ ''/'' @ a_name a"

definition indexes :: "('q \<Rightarrow> app \<Rightarrow> bool) \<Rightarrow> app list \<Rightarrow> 'q indexer \<Rightarrow> bool" where
  "indexes matches as ix \<longleftrightarrow>
     distinct (map app_key as) \<and> (\<forall>a \<in> set as. CHR ''/'' \<notin> set (a_namespace a)) \<and>
     (\<forall>k. ix_key ix k = Inr (map_option CachedApp (List.find (\<lambda>a. app_key a = k) as))) \<and>
     (\<forall>ns q. ix_namespace ix ns q = (map CachedApp (filter (\<lambda>a. a_namespace a = ns \<and> matches q a) as), None))"

lemma append_all_Apps: "append_all as_App ret (map CachedApp as) = Some (ret @ as)"
  by (induction as arbitrary: ret) auto

lemma append_slash_eq:
  "CHR ''/'' \<notin> set x \<Longrightarrow> CHR ''/'' \<notin> set y \<Longrightarrow> x @ CHR ''/'' # u = y @ CHR ''/'' # v \<longleftrightarrow> x = y \<and> u = v"
proof (induction x arbitrary: y)
  case Nil
  then show ?case by (cases y) auto
next
  case (Cons c x)
  then show ?case by (cases y) auto
qed

lemma find_by_key: "distinct (map f xs) \<Longrightarrow> List.find (\<lambda>x. f x = k) xs = Some a \<longleftrightarrow> a \<in> set xs \<and> f a = k"
  by (induction xs) (auto simp: image_iff)

text \<open>
  The lister of a namespace is consistent: a name is found exactly when the App is in the
  list of the namespace for the selector that matches everything, and the answer is that App.
\<close>

theorem namespace_lister_consistent:
  assumes "indexes matches as ix" and "\<forall>a. matches everything a" and "CHR ''/'' \<notin> set namespace"
  shows "\<exists>ret. appNamespaceLister_List ix namespace everything = Some (ret, None) \<and>
      (\<forall>a. appNamespaceLister_Get ix namespace name = Some (Inr a) \<longleftrightarrow> a \<in> set ret \<and> a_name a = name) \<and>
      ((\<forall>a \<in> set ret. a_name a \<noteq> name) \<longleftrightarrow> appNamespaceLister_Get ix namespace name = Some (Inl ErrNotFound))"
proof -
  let ?ret = "filter (\<lambda>a. a_namespace a = namespace) as"
  let ?find = "List.find (\<lambda>a. app_key a = namespace @ ''/'' @ name) as"
  have key: "app_key a = namespace @ ''/'' @ name \<longleftrightarrow> a_namespace a = namespace \<and> a_name a = name" if "a \<in> set as" for a
    using assms(1,3) that by (simp add: app_key_def indexes_def append_slash_eq)
  have "?find = Some a \<longleftrightarrow> a \<in> set ?ret \<and> a_name a = name" for a
    using assms(1) key by (auto simp: find_by_key indexes_def)
  moreover have "?find = None \<longleftrightarrow> (\<forall>a \<in> set ?ret. a_name a \<noteq> name)"
    using key by (auto simp: find_None_iff)
  moreover have "appNamespaceLister_List ix namespace everything = Some (?ret, None)"
    using assms(1,2) by (simp add: appNamespaceLister_List_def visited_def indexes_def append_all_Apps)
  moreover have "appNamespaceLister_Get ix namespace name = Some (Inr a) \<longleftrightarrow> ?find = Some a"
    "appNamespaceLister_Get ix namespace name = Some (Inl ErrNotFound) \<longleftrightarrow> ?find = None" for a
    using assms(1) by (auto simp: appNamespaceLister_Get_def got_def indexes_def split: option.split)
  ultimately show ?thesis by auto
qed

definition sample_indexer :: "string indexer" where
  "sample_indexer = \<lparr>ix_key = (\<lambda>k. Inr (map_option CachedApp (List.find (\<lambda>a. app_key a = k) [sample_app]))),
     ix_all = (\<lambda>q. ([CachedApp sample_app], None)),
     ix_namespace = (\<lambda>ns q. (map CachedApp (filter (\<lambda>a. a_namespace a = ns \<and> True) [sample_app]), None))\<rparr>"

theorem namespace_lister_consistent_witness:
  "appNamespaceLister_Get sample_indexer (a_namespace sample_app) (a_name sample_app) = Some (Inr sample_app)"
proof -
  have ns: "CHR ''/'' \<notin> set (a_namespace sample_app)" by (simp add: sample_app_def)
  have "indexes (\<lambda>_ _. True) [sample_app] sample_indexer"
    using ns by (simp add: indexes_def sample_indexer_def)
  from namespace_lister_consistent [OF this _ ns, of "''''" "a_name sample_app"]
  obtain ret where "appNamespaceLister_List sample_indexer (a_namespace sample_app) '''' = Some (ret, None)"
    "\<forall>a. appNamespaceLister_Get sample_indexer (a_namespace sample_app) (a_name sample_app) = Some (Inr a) \<longleftrightarrow>
       a \<in> set ret \<and> a_name a = a_name sample_app" by auto
  moreover from this(1) have "ret = [sample_app]"
    by (simp add: appNamespaceLister_List_def visited_def sample_indexer_def)
  ultimately show ?thesis by simp
qed

section \<open>The client set\<close>

text \<open>
  A configuration with the fields the code reads or writes; the queries per second are a
  32-bit float, of which only the sign is looked at.  The transport, the rate limiter and the
  clients themselves are library types.
\<close>

datatype float32 = NaN | Float real

fun positive :: "float32 \<Rightarrow> bool" where
  "positive NaN = False"
| "positive (Float x) = (0 < x)"

record 'r rest_config =
  cf_user_agent :: string
  cf_rate_limiter :: "'r option"
  cf_qps :: float32
  cf_burst :: int
  cf_group_version :: "(string \<times> string) option"
  cf_api_path :: string
  cf_serializer :: string
  cf_rest :: string

record ('r, 'h, 'c, 'd) rest_library =
  rl_user_agent :: string
  rl_http_client :: "'r rest_config \<Rightarrow> go_error + 'h"
  rl_rest_client :: "'r rest_config \<Rightarrow> 'h \<Rightarrow> go_error + 'c"
  rl_discovery :: "'r rest_config \<Rightarrow> 'h \<Rightarrow> go_error + 'd"
  rl_limiter :: "float32 \<Rightarrow> int \<Rightarrow> 'r"

definition setConfigDefaults :: "('r, 'h, 'c, 'd) rest_library \<Rightarrow> 'r rest_config \<Rightarrow> 'r rest_config" where
  "setConfigDefaults lib cf =
     (let cf1 = cf\<lparr>cf_group_version := Some (''unicore.mcyou.cn'', ''v1''), cf_api_path := ''/apis'',
                   cf_serializer := ''scheme.Codecs''\<rparr>
      in if cf_user_agent cf1 = '''' then cf1\<lparr>cf_user_agent := rl_user_agent lib\<rparr> else cf1)"

text \<open>\<open>NewForConfigAndClient\<close> and \<open>NewForConfig\<close> of the typed client.\<close>

definition unicore_NewForConfigAndClient :: "('r, 'h, 'c, 'd) rest_library \<Rightarrow> 'r rest_config \<Rightarrow> 'h \<Rightarrow> go_error + 'c" where
  "unicore_NewForConfigAndClient lib c h = rl_rest_client lib (setConfigDefaults lib c) h"

definition unicore_NewForConfig :: "('r, 'h, 'c, 'd) rest_library \<Rightarrow> 'r rest_config \<Rightarrow> go_error + 'c" where
  "unicore_NewForConfig lib c =
     (let config = setConfigDefaults lib c in
      case rl_http_client lib config of
        Inl e \<Rightarrow> Inl e
      | Inr h \<Rightarrow> unicore_NewForConfigAndClient lib config h)"

definition burst_error :: go_error where
  "burst_error = ErrOther ''burst is required to be greater than 0 when RateLimiter is not set and QPS is set to greater than 0''"

text \<open>The two clients of the set: the typed client and the discovery client.\<close>

definition limited :: "('r, 'h, 'c, 'd) rest_library \<Rightarrow> 'r rest_config \<Rightarrow> 'r rest_config" where
  "limited lib c =
     (if cf_rate_limiter c = None \<and> positive (cf_qps c)
      then c\<lparr>cf_rate_limiter := Some (rl_limiter lib (cf_qps c) (cf_burst c))\<rparr> else c)"

definition NewForConfigAndClient :: "('r, 'h, 'c, 'd) rest_library \<Rightarrow> 'r rest_config \<Rightarrow> 'h \<Rightarrow> go_error + ('c \<times> 'd)" where
  "NewForConfigAndClient lib c h =
     (if cf_rate_limiter c = None \<and> positive (cf_qps c) \<and> cf_burst c \<le> 0 then Inl burst_error
      else
        let cf = limited lib c in
        case unicore_NewForConfigAndClient lib cf h of
          Inl e \<Rightarrow> Inl e
        | Inr u \<Rightarrow> (case rl_discovery lib cf h of Inl e \<Rightarrow> Inl e | Inr d \<Rightarrow> Inr (u, d)))"

definition with_agent :: "('r, 'h, 'c, 'd) rest_library \<Rightarrow> 'r rest_config \<Rightarrow> 'r rest_config" where
  "with_agent lib c = (if cf_user_agent c = '''' then c\<lparr>cf_user_agent := rl_user_agent lib\<rparr> else c)"

definition NewForConfig :: "('r, 'h, 'c, 'd) rest_library \<Rightarrow> 'r rest_config \<Rightarrow> go_error + ('c \<times> 'd)" where
  "NewForConfig lib c =
     (let cf = with_agent lib c in
      case rl_http_client lib cf of
        Inl e \<Rightarrow> Inl e
      | Inr h \<Rightarrow> NewForConfigAndClient lib cf h)"

text \<open>\<open>OrDie\<close> panics where the constructor fails.\<close>

definition NewForConfigOrDie :: "('r, 'h, 'c, 'd) rest_library \<Rightarrow> 'r rest_config \<Rightarrow> ('c \<times> 'd) option" where
  "NewForConfigOrDie lib c = (case NewForConfig lib c of Inl e \<Rightarrow> None | Inr cs \<Rightarrow> Some cs)"

definition unicore_NewForConfigOrDie :: "('r, 'h, 'c, 'd) rest_library \<Rightarrow> 'r rest_config \<Rightarrow> 'c option" where
  "unicore_NewForConfigOrDie lib c = (case unicore_NewForConfig lib c of Inl e \<Rightarrow> None | Inr client \<Rightarrow> Some client)"

text \<open>
  The constructors from a REST client: the typed client holds it, and the client set gives it to
  both its clients.  \<open>RESTClient\<close> of a typed client, which may be nil, gives it back.
\<close>

definition unicore_New :: "'c \<Rightarrow> 'c" where
  "unicore_New c = c"

definition UnicoreV1Client_RESTClient :: "'c option \<Rightarrow> 'c option" where
  "UnicoreV1Client_RESTClient c = (case c of None \<Rightarrow> None | Some restClient \<Rightarrow> Some restClient)"

definition clientset_New :: "('c \<Rightarrow> 'd) \<Rightarrow> 'c \<Rightarrow> 'c \<times> 'd" where
  "clientset_New NewDiscoveryClient c = (unicore_New c, NewDiscoveryClient c)"

definition Clientset_Discovery :: "('c \<times> 'd) option \<Rightarrow> 'd option" where
  "Clientset_Discovery c = (case c of None \<Rightarrow> None | Some (_, discovery) \<Rightarrow> Some discovery)"

text \<open>
  Both clients of a set are built with one transport and one configuration, in which a rate
  that needs a limiter has one and a positive burst.
\<close>

lemma NewForConfig_shares:
  assumes "NewForConfig lib c = Inr (u, d)"
  shows "\<exists>h. rl_http_client lib (with_agent lib c) = Inr h \<and>
      rl_rest_client lib (setConfigDefaults lib (limited lib (with_agent lib c))) h = Inr u \<and>
      rl_discovery lib (limited lib (with_agent lib c)) h = Inr d \<and>
      (cf_rate_limiter c = None \<and> positive (cf_qps c) \<longrightarrow> 0 < cf_burst c)"
proof -
  have same: "cf_rate_limiter (with_agent lib c) = cf_rate_limiter c" "cf_qps (with_agent lib c) = cf_qps c"
    "cf_burst (with_agent lib c) = cf_burst c" by (simp_all add: with_agent_def)
  from assms obtain h where h: "rl_http_client lib (with_agent lib c) = Inr h"
    "NewForConfigAndClient lib (with_agent lib c) h = Inr (u, d)"
    by (auto simp: NewForConfig_def Let_def split: sum.splits)
  from h(2) show ?thesis unfolding NewForConfigAndClient_def unicore_NewForConfigAndClient_def same
    using h(1) by (auto simp: Let_def split: sum.splits if_splits)
qed

lemma limited_has_limiter: "positive (cf_qps c) \<Longrightarrow> cf_rate_limiter (limited lib c) \<noteq> None"
  by (simp add: limited_def)

section \<open>The informers' requests\<close>

text \<open>
  \<open>ListFunc\<close> and \<open>WatchFunc\<close> of the informers: the options are tweaked, if there is a
  function for it, and go to the typed client.
\<close>

definition tweaked :: "(list_options \<Rightarrow> list_options) option \<Rightarrow> list_options \<Rightarrow> list_options" where
  "tweaked tweakListOptions options = (case tweakListOptions of None \<Rightarrow> options | Some f \<Rightarrow> f options)"

definition app_ListFunc :: "(app, app list, 'w, 's) rest \<Rightarrow> string \<Rightarrow> (list_options \<Rightarrow> list_options) option \<Rightarrow>
    list_options \<Rightarrow> 's \<Rightarrow> (app list \<times> go_error option) \<times> 's" where
  "app_ListFunc c namespace tweak options s = apps_List (newApps c namespace) (tweaked tweak options) s"

definition app_WatchFunc :: "(app, app list, 'w, 's) rest \<Rightarrow> string \<Rightarrow> (list_options \<Rightarrow> list_options) option \<Rightarrow>
    list_options \<Rightarrow> 's \<Rightarrow> (go_error + 'w) \<times> 's" where
  "app_WatchFunc c namespace tweak options s = apps_Watch (newApps c namespace) (tweaked tweak options) s"

definition image_list_ListFunc :: "(image_list_object, image_list_object list, 'w, 's) rest \<Rightarrow> string \<Rightarrow>
    (list_options \<Rightarrow> list_options) option \<Rightarrow> list_options \<Rightarrow> 's \<Rightarrow> (image_list_object list \<times> go_error option) \<times> 's" where
  "image_list_ListFunc c namespace tweak options s = imageLists_List (newImageLists c namespace) (tweaked tweak options) s"

definition image_list_WatchFunc :: "(image_list_object, image_list_object list, 'w, 's) rest \<Rightarrow> string \<Rightarrow>
    (list_options \<Rightarrow> list_options) option \<Rightarrow> list_options \<Rightarrow> 's \<Rightarrow> (go_error + 'w) \<times> 's" where
  "image_list_WatchFunc c namespace tweak options s = imageLists_Watch (newImageLists c namespace) (tweaked tweak options) s"

end
