(* ===== verification/Informer_Factory.thy ===== *)
theory Informer_Factory
  imports Rest_Client "HOL-Library.Multiset"
begin

text \<open>
  The shared informer factory, pkg/generated/informers/externalversions.  Its methods hold the
  lock for their whole body, except \<open>Shutdown\<close>, which waits for the goroutines without it,
  and \<open>WaitForCacheSync\<close>, which waits for the caches without it; so each locked section is
  one step.  The goroutines that \<open>Start\<close> launches are the multiset \<open>running\<close>; one of them
  ends when the library's \<open>Run\<close> returns, and then calls \<open>Done\<close>.  Iteration over a map takes
  the order of its keys as an argument.
\<close>

section \<open>Informers\<close>

text \<open>The types the reflection of an object tells apart.\<close>

datatype rtype = AppType | ImageListType | OtherType string

text \<open>
  A shared index informer is a library object; what the code fixes of it are the requests with
  which it lists and watches (client, namespace, tweak), the type, the period, the
  indexers and the transformation.
\<close>

record 'c informer =
  in_client :: 'c
  in_namespace :: string
  in_tweak :: "(list_options \<Rightarrow> list_options) option"
  in_object :: rtype
  in_resync :: duration
  in_indexers :: "string list"
  in_transform :: "(cached \<Rightarrow> go_error + cached) option"

definition NewFilteredAppInformer :: "'c \<Rightarrow> string \<Rightarrow> duration \<Rightarrow> string list \<Rightarrow> (list_options \<Rightarrow> list_options) option \<Rightarrow>
    'c informer" where
  "NewFilteredAppInformer client namespace resyncPeriod indexers tweakListOptions =
     \<lparr>in_client = client, in_namespace = namespace, in_tweak = tweakListOptions, in_object = AppType,
      in_resync = resyncPeriod, in_indexers = indexers, in_transform = None\<rparr>"

definition NewAppInformer :: "'c \<Rightarrow> string \<Rightarrow> duration \<Rightarrow> string list \<Rightarrow> 'c informer" where
  "NewAppInformer client namespace resyncPeriod indexers =
     NewFilteredAppInformer client namespace resyncPeriod indexers None"

definition NewFilteredImageListInformer :: "'c \<Rightarrow> string \<Rightarrow> duration \<Rightarrow> string list \<Rightarrow>
    (list_options \<Rightarrow> list_options) option \<Rightarrow> 'c informer" where
  "NewFilteredImageListInformer client namespace resyncPeriod indexers tweakListOptions =
     \<lparr>in_client = client, in_namespace = namespace, in_tweak = tweakListOptions, in_object = ImageListType,
      in_resync = resyncPeriod, in_indexers = indexers, in_transform = None\<rparr>"

definition NewImageListInformer :: "'c \<Rightarrow> string \<Rightarrow> duration \<Rightarrow> string list \<Rightarrow> 'c informer" where
  "NewImageListInformer client namespace resyncPeriod indexers =
     NewFilteredImageListInformer client namespace resyncPeriod indexers None"

section \<open>The factory\<close>

text \<open>\<open>startedInformers\<close> only ever gets the value true, so it is the set of its keys.\<close>

record 'c factory =
  client :: 'c
  namespace :: string
  tweakListOptions :: "(list_options \<Rightarrow> list_options) option"
  defaultResync :: duration
  customResync :: "rtype \<rightharpoonup> duration"
  transform :: "(cached \<Rightarrow> go_error + cached) option"
  informers :: "rtype \<rightharpoonup> 'c informer"
  startedInformers :: "rtype set"
  wg :: nat
  shuttingDown :: bool

type_synonym 'c informer_option = "'c factory \<Rightarrow> 'c factory"

text \<open>The configuration is a map from objects; two objects may have one type, and then the later one counts.\<close>

definition WithCustomResyncConfig :: "(rtype \<times> duration) list \<Rightarrow> 'c informer_option" where
  "WithCustomResyncConfig resyncConfig f = fold (\<lambda>(k, v) f. f\<lparr>customResync := (customResync f)(k \<mapsto> v)\<rparr>) resyncConfig f"

definition WithTweakListOptions :: "(list_options \<Rightarrow> list_options) option \<Rightarrow> 'c informer_option" where
  "WithTweakListOptions tweak f = f\<lparr>tweakListOptions := tweak\<rparr>"

definition WithNamespace :: "string \<Rightarrow> 'c informer_option" where
  "WithNamespace ns f = f\<lparr>namespace := ns\<rparr>"

definition WithTransform :: "(cached \<Rightarrow> go_error + cached) option \<Rightarrow> 'c informer_option" where
  "WithTransform t f = f\<lparr>transform := t\<rparr>"

definition NewSharedInformerFactoryWithOptions :: "'c \<Rightarrow> duration \<Rightarrow> 'c informer_option list \<Rightarrow> 'c factory" where
  "NewSharedInformerFactoryWithOptions c resync options =
     fold (\<lambda>opt f. opt f) options
       \<lparr>client = c, namespace = '''', tweakListOptions = None, defaultResync = resync, customResync = Map.empty,
        transform = None, informers = Map.empty, startedInformers = {}, wg = 0, shuttingDown = False\<rparr>"

definition NewSharedInformerFactory :: "'c \<Rightarrow> duration \<Rightarrow> 'c factory" where
  "NewSharedInformerFactory c resync = NewSharedInformerFactoryWithOptions c resync []"

definition NewFilteredSharedInformerFactory :: "'c \<Rightarrow> duration \<Rightarrow> string \<Rightarrow> (list_options \<Rightarrow> list_options) option \<Rightarrow> 'c factory" where
  "NewFilteredSharedInformerFactory c resync ns tweak =
     NewSharedInformerFactoryWithOptions c resync [WithNamespace ns, WithTweakListOptions tweak]"

text \<open>\<open>InformerFor\<close>: the informer of a type is made once.\<close>

definition InformerFor :: "rtype \<Rightarrow> ('c \<Rightarrow> duration \<Rightarrow> 'c informer) \<Rightarrow> 'c factory \<Rightarrow> 'c informer \<times> 'c factory" where
  "InformerFor informerType newFunc f =
     (case informers f informerType of
        Some informer \<Rightarrow> (informer, f)
      | None \<Rightarrow>
          let resyncPeriod = (case customResync f informerType of None \<Rightarrow> defaultResync f | Some d \<Rightarrow> d);
              informer = (newFunc (client f) resyncPeriod)\<lparr>in_transform := transform f\<rparr>
          in (informer, f\<lparr>informers := (informers f)(informerType \<mapsto> informer)\<rparr>))"

text \<open>
  \<open>Unicore().V1()\<close> carries the namespace and the tweak of the factory; \<open>Apps()\<close> and
  \<open>ImageLists()\<close> hand them on.
\<close>

record access =
  ac_namespace :: string
  ac_tweak :: "(list_options \<Rightarrow> list_options) option"

definition Unicore :: "'c factory \<Rightarrow> access" where
  "Unicore f = \<lparr>ac_namespace = namespace f, ac_tweak = tweakListOptions f\<rparr>"

definition V1 :: "access \<Rightarrow> access" where
  "V1 g = \<lparr>ac_namespace = ac_namespace g, ac_tweak = ac_tweak g\<rparr>"

definition Apps :: "access \<Rightarrow> access" where
  "Apps v = \<lparr>ac_namespace = ac_namespace v, ac_tweak = ac_tweak v\<rparr>"

definition ImageLists :: "access \<Rightarrow> access" where
  "ImageLists v = \<lparr>ac_namespace = ac_namespace v, ac_tweak = ac_tweak v\<rparr>"

definition app_defaultInformer :: "access \<Rightarrow> 'c \<Rightarrow> duration \<Rightarrow> 'c informer" where
  "app_defaultInformer a c resyncPeriod = NewFilteredAppInformer c (ac_namespace a) resyncPeriod [''namespace''] (ac_tweak a)"

definition image_list_defaultInformer :: "access \<Rightarrow> 'c \<Rightarrow> duration \<Rightarrow> 'c informer" where
  "image_list_defaultInformer a c resyncPeriod =
     NewFilteredImageListInformer c (ac_namespace a) resyncPeriod [''namespace''] (ac_tweak a)"

definition appInformer_Informer :: "access \<Rightarrow> 'c factory \<Rightarrow> 'c informer \<times> 'c factory" where
  "appInformer_Informer a f = InformerFor AppType (app_defaultInformer a) f"

definition imageListInformer_Informer :: "access \<Rightarrow> 'c factory \<Rightarrow> 'c informer \<times> 'c factory" where
  "imageListInformer_Informer a f = InformerFor ImageListType (image_list_defaultInformer a) f"

text \<open>\<open>ForResource\<close>: a generic informer is the shared one with the group resource.\<close>

definition unicore_group :: string where
  "unicore_group = ''unicore.mcyou.cn''"

definition ForResource :: "string \<times> string \<times> string \<Rightarrow> 'c factory \<Rightarrow>
    (go_error + ('c informer \<times> string \<times> string)) \<times> 'c factory" where
  "ForResource gvr f =
     (if gvr = (unicore_group, ''v1'', ''apps'') then
        (case appInformer_Informer (Apps (V1 (Unicore f))) f of
           (i, f') \<Rightarrow> (Inr (i, fst gvr, snd (snd gvr)), f'))
      else if gvr = (unicore_group, ''v1'', ''imagelists'') then
        (case imageListInformer_Informer (ImageLists (V1 (Unicore f))) f of
           (i, f') \<Rightarrow> (Inr (i, fst gvr, snd (snd gvr)), f'))
      else (Inl (ErrFmt ''no informer found for %v'' [fst gvr, fst (snd gvr), snd (snd gvr)]), f))"

section \<open>Starting and shutting down\<close>

text \<open>The factory with its goroutines and, as a record of the past, what was launched.\<close>

record 'c world =
  fac :: "'c factory"
  running :: "rtype multiset"
  launched :: "rtype list"

definition launch :: "rtype \<Rightarrow> 'c world \<Rightarrow> 'c world" where
  "launch informerType w =
     w\<lparr>fac := (fac w)\<lparr>wg := wg (fac w) + 1, startedInformers := insert informerType (startedInformers (fac w))\<rparr>,
       running := add_mset informerType (running w),
       launched := launched w @ [informerType]\<rparr>"

fun start_loop :: "rtype list \<Rightarrow> 'c world \<Rightarrow> 'c world" where
  "start_loop [] w = w"
| "start_loop (informerType # order) w =
     start_loop order (if informerType \<notin> startedInformers (fac w) then launch informerType w else w)"

definition factory_Start :: "rtype list \<Rightarrow> 'c world \<Rightarrow> 'c world" where
  "factory_Start order w = (if shuttingDown (fac w) then w else start_loop order w)"

text \<open>A goroutine's \<open>Run\<close> has returned.\<close>

definition finish :: "rtype \<Rightarrow> 'c world \<Rightarrow> 'c world" where
  "finish informerType w =
     w\<lparr>fac := (fac w)\<lparr>wg := wg (fac w) - 1\<rparr>, running := running w - {#informerType#}\<rparr>"

text \<open>\<open>Shutdown\<close> up to \<open>wg.Wait()\<close>, and whether the wait is over.\<close>

definition Shutdown_begin :: "'c world \<Rightarrow> 'c world" where
  "Shutdown_begin w = w\<lparr>fac := (fac w)\<lparr>shuttingDown := True\<rparr>\<rparr>"

definition Shutdown_returns :: "'c world \<Rightarrow> bool" where
  "Shutdown_returns w \<longleftrightarrow> shuttingDown (fac w) \<and> wg (fac w) = 0"

text \<open>\<open>WaitForCacheSync\<close>: \<open>synced\<close> is what the library's wait answers for an informer.\<close>

definition WaitForCacheSync :: "('c informer \<Rightarrow> bool) \<Rightarrow> 'c world \<Rightarrow> rtype \<rightharpoonup> bool" where
  "WaitForCacheSync synced w =
     (\<lambda>informerType. case informers (fac w) informerType of
        None \<Rightarrow> None
      | Some informer \<Rightarrow> if informerType \<in> startedInformers (fac w) then Some (synced informer) else None)"

text \<open>
  What clients and goroutines do to a factory, in any order and any number of times.
\<close>

inductive factory_step :: "'c world \<Rightarrow> 'c world \<Rightarrow> bool" where
  informer: "InformerFor ty newFunc (fac w) = (i, f') \<Longrightarrow> factory_step w (w\<lparr>fac := f'\<rparr>)"
| start: "distinct order \<Longrightarrow> set order = dom (informers (fac w)) \<Longrightarrow> factory_step w (factory_Start order w)"
| finished: "ty \<in># running w \<Longrightarrow> factory_step w (finish ty w)"
| shutdown: "factory_step w (Shutdown_begin w)"

abbreviation factory_steps :: "'c world \<Rightarrow> 'c world \<Rightarrow> bool" where
  "factory_steps \<equiv> factory_step\<^sup>*\<^sup>*"

inductive_cases factory_stepE: "factory_step w w'"

definition new_world :: "'c factory \<Rightarrow> 'c world" where
  "new_world f = \<lparr>fac = f, running = {#}, launched = []\<rparr>"

section \<open>The invariant of the factory\<close>

definition factory_inv :: "'c world \<Rightarrow> bool" where
  "factory_inv w \<longleftrightarrow>
     startedInformers (fac w) \<subseteq> dom (informers (fac w)) \<and>
     wg (fac w) = size (running w) \<and>
     running w \<subseteq># mset (launched w) \<and>
     distinct (launched w) \<and> set (launched w) = startedInformers (fac w)"

definition fresh_factory :: "'c factory \<Rightarrow> bool" where
  "fresh_factory f \<longleftrightarrow> informers f = Map.empty \<and> startedInformers f = {} \<and> wg f = 0 \<and> \<not> shuttingDown f"

lemma factory_inv_new: "fresh_factory f \<Longrightarrow> factory_inv (new_world f)"
  by (simp add: factory_inv_def fresh_factory_def new_world_def)

text \<open>The options of the package keep a factory fresh.\<close>

lemma fold_custom_fresh:
  "fresh_factory f \<Longrightarrow> fresh_factory (fold (\<lambda>(k, v) f. f\<lparr>customResync := (customResync f)(k \<mapsto> v)\<rparr>) ks f)"
  by (induction ks arbitrary: f) (auto simp: fresh_factory_def)

lemma options_fresh:
  "fresh_factory f \<Longrightarrow> fresh_factory (WithCustomResyncConfig ks f)"
  "fresh_factory f \<Longrightarrow> fresh_factory (WithTweakListOptions tw f)"
  "fresh_factory f \<Longrightarrow> fresh_factory (WithNamespace ns f)"
  "fresh_factory f \<Longrightarrow> fresh_factory (WithTransform t f)"
  by (simp_all add: WithCustomResyncConfig_def fold_custom_fresh)
    (simp_all add: fresh_factory_def WithTweakListOptions_def WithNamespace_def WithTransform_def)

lemma NewSharedInformerFactory_fresh:
  assumes "\<forall>opt \<in> set opts. \<forall>f. fresh_factory f \<longrightarrow> fresh_factory (opt f)"
  shows "fresh_factory (NewSharedInformerFactoryWithOptions c resync opts)"
proof -
  have "fresh_factory (fold (\<lambda>opt f. opt f) opts f)" if "fresh_factory f" for f :: "'a factory"
    using assms that by (induction opts arbitrary: f) auto
  then show ?thesis by (simp add: NewSharedInformerFactoryWithOptions_def fresh_factory_def)
qed

text \<open>\<open>InformerFor\<close> touches the informers only, and only to add one.\<close>

lemma InformerFor_frame:
  assumes "InformerFor ty newFunc f = (i, f')"
  shows "startedInformers f' = startedInformers f" and "wg f' = wg f" and "shuttingDown f' = shuttingDown f"
    and "informers f \<subseteq>\<^sub>m informers f'" and "informers f' ty = Some i" and "dom (informers f') = insert ty (dom (informers f))"
  using assms by (auto simp: InformerFor_def Let_def map_le_def split: option.splits)

lemma launch_fields [simp]:
  "informers (fac (launch ty w)) = informers (fac w)" "shuttingDown (fac (launch ty w)) = shuttingDown (fac w)"
  "startedInformers (fac (launch ty w)) = insert ty (startedInformers (fac w))"
  "wg (fac (launch ty w)) = wg (fac w) + 1" "running (launch ty w) = add_mset ty (running w)"
  "launched (launch ty w) = launched w @ [ty]"
  by (simp_all add: launch_def)

lemma finish_fields [simp]:
  "informers (fac (finish ty w)) = informers (fac w)" "shuttingDown (fac (finish ty w)) = shuttingDown (fac w)"
  "startedInformers (fac (finish ty w)) = startedInformers (fac w)"
  "wg (fac (finish ty w)) = wg (fac w) - 1" "running (finish ty w) = running w - {#ty#}"
  "launched (finish ty w) = launched w"
  by (simp_all add: finish_def)

lemma Shutdown_begin_fields [simp]:
  "informers (fac (Shutdown_begin w)) = informers (fac w)" "shuttingDown (fac (Shutdown_begin w))"
  "startedInformers (fac (Shutdown_begin w)) = startedInformers (fac w)"
  "wg (fac (Shutdown_begin w)) = wg (fac w)" "running (Shutdown_begin w) = running w"
  "launched (Shutdown_begin w) = launched w"
  by (simp_all add: Shutdown_begin_def)

lemma launch_inv:
  assumes "factory_inv w" and "ty \<in> dom (informers (fac w))" and "ty \<notin> startedInformers (fac w)"
  shows "factory_inv (launch ty w)"
  using assms by (auto simp: factory_inv_def)

lemma start_loop_inv:
  "factory_inv w \<Longrightarrow> set order \<subseteq> dom (informers (fac w)) \<Longrightarrow> factory_inv (start_loop order w)"
  by (induction order arbitrary: w) (simp_all add: launch_inv)

lemma start_loop_frame:
  "informers (fac (start_loop order w)) = informers (fac w) \<and> shuttingDown (fac (start_loop order w)) = shuttingDown (fac w)"
  by (induction order arbitrary: w) auto

lemma start_loop_launches:
  "distinct order \<Longrightarrow>
     launched (start_loop order w) = launched w @ filter (\<lambda>ty. ty \<notin> startedInformers (fac w)) order \<and>
     startedInformers (fac (start_loop order w)) = startedInformers (fac w) \<union> set order \<and>
     running (start_loop order w) = running w + mset (filter (\<lambda>ty. ty \<notin> startedInformers (fac w)) order)"
proof (induction order arbitrary: w)
  case (Cons ty order)
  have same: "filter (\<lambda>x. x \<noteq> ty \<and> P x) order = filter P order" for P
    using Cons.prems by (auto intro: filter_cong)
  from arg_cong [OF this, of mset] have "filter_mset (\<lambda>x. x \<noteq> ty \<and> P x) (mset order) = filter_mset P (mset order)" for P
    by simp
  with same Cons show ?case by auto
qed simp

lemma start_loop_nothing: "set order \<subseteq> startedInformers (fac w) \<Longrightarrow> start_loop order w = w"
  by (induction order) auto

lemma factory_step_inv: "factory_step w w' \<Longrightarrow> factory_inv w \<Longrightarrow> factory_inv w'"
proof (induction rule: factory_step.induct)
  case (informer ty newFunc w i f')
  then show ?case using InformerFor_frame [OF informer.hyps] by (auto simp: factory_inv_def)
next
  case (start order w)
  then show ?case by (simp add: factory_Start_def start_loop_inv)
next
  case (finished ty w)
  then have "running w - {#ty#} \<subseteq># mset (launched w)"
    by (meson diff_subset_eq_self factory_inv_def subset_mset.order_trans)
  with finished show ?case by (simp add: factory_inv_def size_Diff_singleton)
next
  case (shutdown w)
  then show ?case by (simp add: factory_inv_def)
qed

lemma factory_steps_inv: "factory_steps w w' \<Longrightarrow> factory_inv w \<Longrightarrow> factory_inv w'"
  by (induction rule: rtranclp_induct) (auto intro: factory_step_inv)

text \<open>Once a shutdown has begun nothing is launched any more.\<close>

lemma shutdown_step:
  assumes "factory_step w w'" and "shuttingDown (fac w)"
  shows "shuttingDown (fac w') \<and> launched w' = launched w \<and> running w' \<subseteq># running w"
  using assms by (cases rule: factory_step.cases) (auto simp: InformerFor_frame factory_Start_def)

lemma shutdown_steps:
  assumes "factory_steps w w'" and "shuttingDown (fac w)"
  shows "shuttingDown (fac w') \<and> launched w' = launched w \<and> running w' \<subseteq># running w"
  using assms by (induction rule: rtranclp_induct) (auto dest: shutdown_step intro: subset_mset.order_trans)


lemma factory_step_keeps_informers: "factory_step w w' \<Longrightarrow> informers (fac w) \<subseteq>\<^sub>m informers (fac w')"
  by (induction rule: factory_step.induct) (auto simp: InformerFor_frame factory_Start_def start_loop_frame)

lemma factory_steps_keep_informers: "factory_steps w w' \<Longrightarrow> informers (fac w) \<subseteq>\<^sub>m informers (fac w')"
  by (induction rule: rtranclp_induct) (auto dest: factory_step_keeps_informers intro: map_le_trans)

section \<open>Examples\<close>

definition sample_factory :: "unit factory" where
  "sample_factory = NewFilteredSharedInformerFactory () 0 ''ns'' None"

definition world_asked :: "unit world" where
  "world_asked = (new_world sample_factory)\<lparr>fac := snd (appInformer_Informer (Apps (V1 (Unicore sample_factory))) sample_factory)\<rparr>"

definition world_started :: "unit world" where
  "world_started = factory_Start [AppType] world_asked"

definition world_quiet :: "unit world" where
  "world_quiet = Shutdown_begin (finish AppType world_started)"

lemma sample_factory_fresh: "fresh_factory sample_factory"
  unfolding sample_factory_def NewFilteredSharedInformerFactory_def
  by (rule NewSharedInformerFactory_fresh) (simp add: options_fresh)

lemma asked_informers: "dom (informers (fac world_asked)) = {AppType}" "\<not> shuttingDown (fac world_asked)"
  "startedInformers (fac world_asked) = {}" "running world_asked = {#}" "launched world_asked = []"
  by (simp_all add: world_asked_def appInformer_Informer_def InformerFor_def new_world_def sample_factory_def
      NewFilteredSharedInformerFactory_def NewSharedInformerFactoryWithOptions_def WithNamespace_def WithTweakListOptions_def Let_def)

lemma started_world: "running world_started = {#AppType#}" "launched world_started = [AppType]"
  by (simp_all add: world_started_def factory_Start_def asked_informers)

lemma steps_asked: "factory_steps (new_world sample_factory) world_asked"
  unfolding world_asked_def appInformer_Informer_def
  by (rule r_into_rtranclp, rule factory_step.informer [where ty = AppType and
        newFunc = "app_defaultInformer (Apps (V1 (Unicore sample_factory)))" and
        i = "fst (InformerFor AppType (app_defaultInformer (Apps (V1 (Unicore sample_factory)))) sample_factory)"])
    (simp add: new_world_def)

lemma steps_started: "factory_steps world_asked world_started"
  unfolding world_started_def by (rule r_into_rtranclp, rule factory_step.start) (simp_all add: asked_informers)

lemma steps_quiet: "factory_steps world_started world_quiet"
proof -
  have "factory_step world_started (finish AppType world_started)" by (rule factory_step.finished) (simp add: started_world)
  moreover have "factory_step (finish AppType world_started) world_quiet"
    unfolding world_quiet_def by (rule factory_step.shutdown)
  ultimately show ?thesis by (meson rtranclp.rtrancl_into_rtrancl r_into_rtranclp)
qed

lemma quiet_returns: "Shutdown_returns world_quiet"
proof -
  have "factory_inv world_quiet"
    using factory_steps_inv [OF _ factory_inv_new [OF sample_factory_fresh]] steps_asked steps_started steps_quiet
    by (meson rtranclp_trans)
  then have "wg (fac world_quiet) = 0" by (simp add: factory_inv_def world_quiet_def started_world)
  then show ?thesis by (simp add: Shutdown_returns_def world_quiet_def)
qed

section \<open>Properties\<close>

text \<open>
  C26.  However clients ask for informers, call \<open>Start\<close> and \<open>Shutdown\<close>, and goroutines end, in
  every order: each informer is launched at most once, only informers of the factory are, and
  the wait group counts exactly the goroutines that run.
\<close>

theorem informers_started_once:
  assumes "fresh_factory f" and "factory_steps (new_world f) w"
  shows "distinct (launched w) \<and> set (launched w) = startedInformers (fac w) \<and>
      set (launched w) \<subseteq> dom (informers (fac w)) \<and>
      running w \<subseteq># mset (launched w) \<and> wg (fac w) = size (running w)"
  using factory_steps_inv [OF assms(2) factory_inv_new [OF assms(1)]] by (simp add: factory_inv_def)

theorem informers_started_once_witness:
  "AppType \<in> dom (informers (fac world_started)) \<and> wg (fac world_started) = 1"
  using informers_started_once [OF sample_factory_fresh rtranclp_trans [OF steps_asked steps_started]]
  by (simp add: started_world)

text \<open>
  C27.  When \<open>Shutdown\<close> returns no goroutine of the factory runs, and none ever will: whatever
  is done to the factory afterwards, \<open>Start\<close> included, launches nothing.
\<close>

theorem shutdown_is_final:
  assumes "fresh_factory f" and "factory_steps (new_world f) w" and "Shutdown_returns w" and "factory_steps w w'"
  shows "running w' = {#} \<and> launched w' = launched w \<and> Shutdown_returns w'"
proof -
  have "factory_inv w" using factory_steps_inv [OF assms(2) factory_inv_new [OF assms(1)]] .
  with assms(3) have "running w = {#}" by (simp add: factory_inv_def Shutdown_returns_def)
  moreover have "shuttingDown (fac w')" "launched w' = launched w" "running w' \<subseteq># running w"
    using shutdown_steps [OF assms(4)] assms(3) by (simp_all add: Shutdown_returns_def)
  moreover have "factory_inv w'" using \<open>factory_inv w\<close> factory_steps_inv [OF assms(4)] by blast
  ultimately show ?thesis by (simp add: Shutdown_returns_def factory_inv_def)
qed

theorem shutdown_is_final_witness:
  "running (factory_Start [AppType] world_quiet) = {#} \<and> launched (factory_Start [AppType] world_quiet) = [AppType]"
proof -
  have "dom (informers (fac world_quiet)) = {AppType}"
    using start_loop_frame [of "[AppType]" world_asked] asked_informers
    by (simp add: world_quiet_def world_started_def factory_Start_def)
  then have "factory_steps world_quiet (factory_Start [AppType] world_quiet)"
    by (intro r_into_rtranclp factory_step.start) simp_all
  with shutdown_is_final [OF sample_factory_fresh _ quiet_returns this] rtranclp_trans [OF rtranclp_trans [OF steps_asked steps_started] steps_quiet]
  show ?thesis by (simp add: world_quiet_def started_world)
qed

text \<open>
  \<open>Start\<close> before a shutdown launches exactly the informers that were asked for and not
  started yet, in whatever order the map is visited; a second \<open>Start\<close> does nothing, and
  \<open>WaitForCacheSync\<close> then answers for every informer of the factory.
\<close>

theorem Start_launches_the_rest:
  assumes "fresh_factory f" and "factory_steps (new_world f) w" and "\<not> shuttingDown (fac w)"
    and "distinct order" and "set order = dom (informers (fac w))" and "set order' = set order" and "distinct order'"
  shows "running (factory_Start order w) = running w + mset_set (dom (informers (fac w)) - startedInformers (fac w)) \<and>
      factory_Start order' (factory_Start order w) = factory_Start order w \<and>
      dom (WaitForCacheSync synced (factory_Start order w)) = dom (informers (fac w))"
proof -
  let ?new = "filter (\<lambda>ty. ty \<notin> startedInformers (fac w)) order"
  have "mset ?new = mset_set (set ?new)" using assms(4) by (simp add: mset_set_set del: set_filter)
  also have "set ?new = dom (informers (fac w)) - startedInformers (fac w)" using assms(5) by auto
  finally have "running (factory_Start order w) = running w + mset_set (dom (informers (fac w)) - startedInformers (fac w))"
    using start_loop_launches [OF assms(4), of w] assms(3) by (simp add: factory_Start_def)
  moreover have all: "startedInformers (fac (factory_Start order w)) = dom (informers (fac w))"
    using start_loop_launches [OF assms(4), of w] assms(3,5) factory_steps_inv [OF assms(2) factory_inv_new [OF assms(1)]]
    by (auto simp: factory_Start_def factory_inv_def)
  have "factory_Start order' (factory_Start order w) = factory_Start order w"
  proof -
    have "start_loop order' (factory_Start order w) = factory_Start order w" by (rule start_loop_nothing) (use all assms(5,6) in simp)
    then show ?thesis by (simp add: factory_Start_def [of order'])
  qed
  moreover have "dom (WaitForCacheSync synced (factory_Start order w)) = dom (informers (fac w))"
    using all start_loop_frame [of order w] assms(3)
    by (auto simp: WaitForCacheSync_def factory_Start_def dom_def split: option.splits)
  ultimately show ?thesis by simp
qed

theorem Start_launches_the_rest_witness:
  "running (factory_Start [AppType] world_asked) = {#AppType#} \<and>
   dom (WaitForCacheSync (\<lambda>_. True) (factory_Start [AppType] world_asked)) = {AppType}"
  using Start_launches_the_rest [OF sample_factory_fresh steps_asked, of "[AppType]" "[AppType]" "\<lambda>_. True"]
  by (simp add: asked_informers)

text \<open>
  Informers are shared: once an informer was made for a type, every later request for
  this type, through any accessor and with any constructor, gets this same informer and
  leaves the factory as it is.
\<close>

theorem informer_shared:
  assumes "InformerFor ty newFunc (fac w) = (i, f')" and "factory_steps (w\<lparr>fac := f'\<rparr>) w'"
  shows "InformerFor ty newFunc' (fac w') = (i, fac w')"
proof -
  have "informers f' ty = Some i" using InformerFor_frame [OF assms(1)] by simp
  moreover have "informers f' \<subseteq>\<^sub>m informers (fac w')" using factory_steps_keep_informers [OF assms(2)] by simp
  ultimately have "informers (fac w') ty = Some i" by (metis domI map_le_def)
  then show ?thesis by (simp add: InformerFor_def)
qed

theorem informer_shared_witness:
  "InformerFor AppType (\<lambda>c d. NewAppInformer c ''other'' d []) (fac world_started) =
     (fst (appInformer_Informer (Apps (V1 (Unicore sample_factory))) sample_factory), fac world_started)"
proof -
  let ?r = "InformerFor AppType (app_defaultInformer (Apps (V1 (Unicore sample_factory)))) (fac (new_world sample_factory))"
  have "factory_steps ((new_world sample_factory)\<lparr>fac := snd ?r\<rparr>) world_started"
    using steps_started by (simp add: world_asked_def appInformer_Informer_def new_world_def)
  from informer_shared [OF surjective_pairing this, of "\<lambda>c d. NewAppInformer c ''other'' d []"] show ?thesis
    by (simp add: appInformer_Informer_def new_world_def)
qed


section \<open>Generic access\<close>

lemma ForResource_Apps:
  assumes "ForResource (unicore_group, ''v1'', ''apps'') f = (r, f')"
  shows "\<exists>i. r = Inr (i, unicore_group, ''apps'') \<and> (\<forall>a. appInformer_Informer a f' = (i, f'))"
proof -
  obtain i where i: "InformerFor AppType (app_defaultInformer (Apps (V1 (Unicore f)))) f = (i, f')"
    "r = Inr (i, unicore_group, ''apps'')"
    using assms by (auto simp: ForResource_def appInformer_Informer_def split: prod.splits)
  with InformerFor_frame(5) [OF i(1)] show ?thesis by (auto simp: appInformer_Informer_def InformerFor_def)
qed

lemma ForResource_ImageLists:
  assumes "ForResource (unicore_group, ''v1'', ''imagelists'') f = (r, f')"
  shows "\<exists>i. r = Inr (i, unicore_group, ''imagelists'') \<and> (\<forall>a. imageListInformer_Informer a f' = (i, f'))"
proof -
  obtain i where i: "InformerFor ImageListType (image_list_defaultInformer (ImageLists (V1 (Unicore f)))) f = (i, f')"
    "r = Inr (i, unicore_group, ''imagelists'')"
    using assms by (auto simp: ForResource_def imageListInformer_Informer_def split: prod.splits)
  with InformerFor_frame(5) [OF i(1)] show ?thesis by (auto simp: imageListInformer_Informer_def InformerFor_def)
qed

lemma ForResource_unknown:
  assumes "r \<notin> {(unicore_group, ''v1'', ''apps''), (unicore_group, ''v1'', ''imagelists'')}"
  shows "\<exists>e. ForResource r f = (Inl e, f)"
  using assms by (auto simp: ForResource_def)

text \<open>Of several periods for one type the last one visited counts.\<close>

lemma custom_resync_last: "customResync (WithCustomResyncConfig (ks @ [(ty, d)]) f) ty = Some d"
  by (simp add: WithCustomResyncConfig_def)

end
