(* ===== verification/Fake_Client.thy ===== *)
theory Fake_Client
  imports Rest_Client
begin

text \<open>
  The generated test double of the client of Apps, clientset/versioned/typed/deployer/v1/fake.
  Its methods hand an action to the library's \<open>testing.Fake\<close>, a parameter, which answers with
  an object of any type, perhaps nil, and an error; the answer is asserted to be of the
  method's type, and a failed assertion panics (\<open>None\<close>).  Listing filters the answer by the label
  selector of the options.
\<close>

text \<open>The actions carry the resource (apps) and the kind (App) of the package.\<close>

definition appsResource :: "string \<times> string \<times> string" where
  "appsResource = (''unicore.mcyou.cn'', ''v1'', ''apps'')"

definition appsKind :: "string \<times> string \<times> string" where
  "appsKind = (''unicore.mcyou.cn'', ''v1'', ''App'')"

datatype action =
    GetAction "string \<times> string \<times> string" string string
  | ListAction "string \<times> string \<times> string" "string \<times> string \<times> string" string list_options
  | WatchAction "string \<times> string \<times> string" string list_options
  | CreateAction "string \<times> string \<times> string" string app
  | UpdateAction "string \<times> string \<times> string" string app
  | UpdateSubresourceAction "string \<times> string \<times> string" string string app
  | DeleteAction "string \<times> string \<times> string" string string options
  | DeleteCollectionAction "string \<times> string \<times> string" string list_options
  | PatchSubresourceAction "string \<times> string \<times> string" string string string string "string list"

datatype object = AppObject app | AppListObject string "app list" | OtherObject

record ('w, 's) fake =
  Invokes :: "action \<Rightarrow> 's \<Rightarrow> (object option \<times> go_error option) \<times> 's"
  InvokesWatch :: "action \<Rightarrow> 's \<Rightarrow> (go_error + 'w) \<times> 's"
  label_of_options :: "list_options \<Rightarrow> (app \<Rightarrow> bool) option"

text \<open>\<open>FakeApps\<close>: the double and the namespace.\<close>

type_synonym ('w, 's) fake_apps = "('w, 's) fake \<times> string"

definition app_answer :: "(object option \<times> go_error option) \<times> 's \<Rightarrow> ((app option \<times> go_error option) \<times> 's) option" where
  "app_answer r =
     (case r of
        ((None, err), s) \<Rightarrow> Some ((None, err), s)
      | ((Some (AppObject a), err), s) \<Rightarrow> Some ((Some a, err), s)
      | _ \<Rightarrow> None)"

definition FakeApps_Get :: "('w, 's) fake_apps \<Rightarrow> string \<Rightarrow> options \<Rightarrow> 's \<Rightarrow>
    ((app option \<times> go_error option) \<times> 's) option" where
  "FakeApps_Get c name opts s = app_answer (Invokes (fst c) (GetAction appsResource (snd c) name) s)"

text \<open>A list without a label selector is returned as it is, with the metadata of the answer.\<close>

fun matching :: "(app \<Rightarrow> bool) \<Rightarrow> app list \<Rightarrow> app list \<Rightarrow> app list" where
  "matching label ret [] = ret"
| "matching label ret (item # items) = matching label (if label item then ret @ [item] else ret) items"

definition FakeApps_List :: "('w, 's) fake_apps \<Rightarrow> list_options \<Rightarrow> 's \<Rightarrow>
    (((string \<times> app list) option \<times> go_error option) \<times> 's) option" where
  "FakeApps_List c opts s =
     (case Invokes (fst c) (ListAction appsResource appsKind (snd c) opts) s of
        ((None, err), s') \<Rightarrow> Some ((None, err), s')
      | ((Some (AppListObject listMeta items), err), s') \<Rightarrow>
          let label = (case label_of_options (fst c) opts of None \<Rightarrow> (\<lambda>_. True) | Some l \<Rightarrow> l)
          in Some ((Some (listMeta, matching label [] items), err), s')
      | _ \<Rightarrow> None)"

definition FakeApps_Watch :: "('w, 's) fake_apps \<Rightarrow> list_options \<Rightarrow> 's \<Rightarrow> (go_error + 'w) \<times> 's" where
  "FakeApps_Watch c opts s = InvokesWatch (fst c) (WatchAction appsResource (snd c) opts) s"

definition FakeApps_Create :: "('w, 's) fake_apps \<Rightarrow> app \<Rightarrow> options \<Rightarrow> 's \<Rightarrow>
    ((app option \<times> go_error option) \<times> 's) option" where
  "FakeApps_Create c a opts s = app_answer (Invokes (fst c) (CreateAction appsResource (snd c) a) s)"

definition FakeApps_Update :: "('w, 's) fake_apps \<Rightarrow> app \<Rightarrow> options \<Rightarrow> 's \<Rightarrow>
    ((app option \<times> go_error option) \<times> 's) option" where
  "FakeApps_Update c a opts s = app_answer (Invokes (fst c) (UpdateAction appsResource (snd c) a) s)"

definition FakeApps_UpdateStatus :: "('w, 's) fake_apps \<Rightarrow> app \<Rightarrow> options \<Rightarrow> 's \<Rightarrow>
    ((app option \<times> go_error option) \<times> 's) option" where
  "FakeApps_UpdateStatus c a opts s =
     app_answer (Invokes (fst c) (UpdateSubresourceAction appsResource ''status'' (snd c) a) s)"

definition FakeApps_Delete :: "('w, 's) fake_apps \<Rightarrow> string \<Rightarrow> options \<Rightarrow> 's \<Rightarrow> go_error option \<times> 's" where
  "FakeApps_Delete c name opts s =
     (case Invokes (fst c) (DeleteAction appsResource (snd c) name opts) s of ((_, err), s') \<Rightarrow> (err, s'))"

definition FakeApps_DeleteCollection :: "('w, 's) fake_apps \<Rightarrow> options \<Rightarrow> list_options \<Rightarrow> 's \<Rightarrow> go_error option \<times> 's" where
  "FakeApps_DeleteCollection c opts listOpts s =
     (case Invokes (fst c) (DeleteCollectionAction appsResource (snd c) listOpts) s of ((_, err), s') \<Rightarrow> (err, s'))"

definition FakeApps_Patch :: "('w, 's) fake_apps \<Rightarrow> string \<Rightarrow> string \<Rightarrow> string \<Rightarrow> options \<Rightarrow> string list \<Rightarrow> 's \<Rightarrow>
    ((app option \<times> go_error option) \<times> 's) option" where
  "FakeApps_Patch c name pt data opts subresources s =
     app_answer (Invokes (fst c) (PatchSubresourceAction appsResource (snd c) name pt data subresources) s)"

section \<open>The double answers as the typed client does\<close>

lemma matching_filter: "matching label ret items = ret @ filter label items"
  by (induction items arbitrary: ret) auto

text \<open>Listing keeps the order and the metadata, and exactly the items that the selector matches.\<close>

lemma FakeApps_List_filters:
  assumes "Invokes (fst c) (ListAction appsResource appsKind (snd c) opts) s = ((Some (AppListObject meta items), err), s')"
  shows "FakeApps_List c opts s =
      Some ((Some (meta, case label_of_options (fst c) opts of None \<Rightarrow> items | Some l \<Rightarrow> filter l items), err), s')"
  using assms by (simp add: FakeApps_List_def matching_filter Let_def split: option.split)

text \<open>
  Over a REST client that answers like a double, the typed client and the double agree on a
  successful request; after a failed one the typed client gives an empty App where the double
  gives nil.
\<close>

definition same_answer :: "(app \<times> go_error option) \<times> 's \<Rightarrow> ((app option \<times> go_error option) \<times> 's) option \<Rightarrow> bool" where
  "same_answer r q \<longleftrightarrow>
     (case q of
        None \<Rightarrow> False
      | Some ((a, err), s) \<Rightarrow> snd r = s \<and> snd (fst r) = err \<and>
          (case err of None \<Rightarrow> a = Some (fst (fst r)) | Some e \<Rightarrow> a = None \<and> fst (fst r) = zero_app))"

definition answers_alike :: "((go_error + app) \<times> 's) \<Rightarrow> (object option \<times> go_error option) \<times> 's \<Rightarrow> bool" where
  "answers_alike r q \<longleftrightarrow>
     (case r of (Inl e, s) \<Rightarrow> q = ((None, Some e), s) | (Inr a, s) \<Rightarrow> q = ((Some (AppObject a), None), s))"

lemma same_answer_if_alike:
  "answers_alike r q \<Longrightarrow> same_answer (into_result zero_app r) (app_answer q)"
  by (auto simp: answers_alike_def same_answer_def into_result_def app_answer_def split: sum.splits)

lemma fake_Update_agrees:
  assumes "\<And>a opts s. answers_alike
      (rc_into c (PUT, [Namespace ns, Resource ''apps'', Name (a_name a), VersionedParams (UpdateParams opts), BodyObject a]) s)
      (Invokes f (UpdateAction appsResource ns a) s)"
  shows "same_answer (apps_Update (newApps c ns) a opts s) (FakeApps_Update (f, ns) a opts s)"
  using same_answer_if_alike [OF assms]
  by (simp add: apps_Update_def typed_Update_def newApps_def app_kind_def FakeApps_Update_def)

end
