(* ===== verification/Program_Start.thy ===== *)
theory Program_Start
  imports Image_Daemon
begin

text \<open>
  How the programs start: the controller manager (cmd/main.go with the constructors of its
  reconcilers), the image daemon (daemon.New and its main), the scheduler with the plugins, and
  the web server of the control plane with its handlers.  Starting is a sequence of calls of
  libraries, each of which may fail, panic or end the process itself; \<open>env\<close> answers them, and
  the result is the calls that were made with how it ended.  What the calls build is theirs; the
  arguments that the code chooses are part of the calls.
\<close>

section \<open>Sequences of fallible calls\<close>

datatype answer = Succeeds | Fails go_error | Ends int | Panics

datatype outcome = Completed | Failed go_error | Ended int | Panicked

fun run_calls :: "('c \<Rightarrow> answer) \<Rightarrow> 'c list \<Rightarrow> 'c list \<times> outcome" where
  "run_calls env [] = ([], Completed)"
| "run_calls env (c # cs) =
     (case env c of
        Succeeds \<Rightarrow> (case run_calls env cs of (t, r) \<Rightarrow> (c # t, r))
      | Fails e \<Rightarrow> ([c], Failed e)
      | Ends n \<Rightarrow> ([c], Ended n)
      | Panics \<Rightarrow> ([c], Panicked))"

text \<open>A run makes the calls in their order, up to the first that does not succeed.\<close>

lemma run_calls_append:
  "run_calls env (cs @ ds) =
     (case run_calls env cs of
        (t, Completed) \<Rightarrow> (case run_calls env ds of (u, r) \<Rightarrow> (t @ u, r))
      | (t, r) \<Rightarrow> (t, r))"
  by (induction cs) (auto split: answer.splits outcome.splits prod.splits)

lemma run_calls_spec:
  assumes "run_calls env cs = (t, r)"
  shows "\<exists>us. cs = t @ us \<and> (\<forall>c \<in> set (butlast t). env c = Succeeds) \<and>
      (case r of
         Completed \<Rightarrow> us = [] \<and> (\<forall>c \<in> set cs. env c = Succeeds)
       | Failed e \<Rightarrow> t \<noteq> [] \<and> env (last t) = Fails e
       | Ended n \<Rightarrow> t \<noteq> [] \<and> env (last t) = Ends n
       | Panicked \<Rightarrow> t \<noteq> [] \<and> env (last t) = Panics)"
  using assms
proof (induction cs arbitrary: t r)
  case (Cons c cs)
  show ?case
  proof (cases "env c")
    case Succeeds
    obtain t' where t': "run_calls env cs = (t', r)" "t = c # t'"
      using Cons.prems Succeeds by (auto split: prod.splits)
    from Cons.IH [OF t'(1)] Succeeds t'(2) show ?thesis by (auto split: outcome.splits)
  qed (use Cons.prems in auto)
qed simp

lemma run_calls_completed: "run_calls env cs = (t, r) \<Longrightarrow> r = Completed \<longleftrightarrow> (\<forall>c \<in> set cs. env c = Succeeds)"
  by (induction cs arbitrary: t r) (auto split: answer.splits prod.splits)

section \<open>The controller manager\<close>

text \<open>The command line, with its defaults.\<close>

record flags =
  fl_metrics_addr :: string
  fl_probe_addr :: string
  fl_leader_elect :: bool
  fl_metrics_secure :: bool
  fl_enable_http2 :: bool

definition default_flags :: flags where
  "default_flags = \<lparr>fl_metrics_addr = ''0'', fl_probe_addr = '':8081'', fl_leader_elect = False,
     fl_metrics_secure = True, fl_enable_http2 = False\<rparr>"

record tls_config =
  tls_next_protos :: "string list"
  tls_rest :: string

definition disableHTTP2 :: "tls_config \<Rightarrow> tls_config" where
  "disableHTTP2 c = c\<lparr>tls_next_protos := [''http/1.1'']\<rparr>"

definition tlsOpts :: "flags \<Rightarrow> (tls_config \<Rightarrow> tls_config) list" where
  "tlsOpts fl = (if \<not> fl_enable_http2 fl then [disableHTTP2] else [])"

record manager_options =
  mo_metrics_addr :: string
  mo_metrics_secure :: bool
  mo_metrics_tls :: "(tls_config \<Rightarrow> tls_config) list"
  mo_webhook_tls :: "(tls_config \<Rightarrow> tls_config) list"
  mo_probe_addr :: string
  mo_leader_election :: bool
  mo_leader_election_id :: string

definition manager_options_of :: "flags \<Rightarrow> manager_options" where
  "manager_options_of fl =
     \<lparr>mo_metrics_addr = fl_metrics_addr fl, mo_metrics_secure = fl_metrics_secure fl, mo_metrics_tls = tlsOpts fl,
      mo_webhook_tls = tlsOpts fl, mo_probe_addr = fl_probe_addr fl, mo_leader_election = fl_leader_elect fl,
      mo_leader_election_id = ''e536998e.mcyou.cn''\<rparr>"

datatype setup_call =
    ParseFlags
  | GetConfigOrDie
  | NewManager manager_options
  | CompleteController string "string list"
  | GetInformerForKind string
  | AssertSharedInformer string
  | NewUnicoreClient
  | NewKubeClient
  | NewRecorder string
  | AddHealthzCheck string
  | AddReadyzCheck string
  | SetupSignalHandler
  | StartManager

text \<open>\<open>SetupWithManager\<close>: the kind that is reconciled and the kinds whose owners are.\<close>

definition DeployerReconciler_SetupWithManager :: "setup_call list" where
  "DeployerReconciler_SetupWithManager = [CompleteController ''Deployer'' []]"

definition AppReconciler_SetupWithManager :: "setup_call list" where
  "AppReconciler_SetupWithManager = [CompleteController ''App'' [''Pod'']]"

text \<open>The informers must be shared index informers; the assertions panic otherwise.\<close>

definition NewAppReconciler :: "setup_call list" where
  "NewAppReconciler =
     map GetInformerForKind [''App'', ''Pod'', ''PersistentVolumeClaim'', ''StorageClass'', ''ControllerRevision''] @
     map AssertSharedInformer [''App'', ''Pod'', ''PersistentVolumeClaim'', ''StorageClass''] @
     [NewUnicoreClient, NewKubeClient, NewRecorder ''app-controller'', AssertSharedInformer ''ControllerRevision'']"

text \<open>The generated skeleton of the Deployer reconciler: an empty result and no error.\<close>

definition DeployerReconciler_Reconcile :: "string \<times> string \<Rightarrow> (bool \<times> duration) \<times> go_error option" where
  "DeployerReconciler_Reconcile req = ((False, 0), None)"

text \<open>How the process ends; a failure that \<open>main\<close> logs leaves its message and error.\<close>

datatype exit = Returns | Exits int "(string \<times> go_error) option" | Crashes

text \<open>
  A step of \<open>main\<close>: calls that end with the first error; then
  \<open>setupLog.Error(err, msg); os.Exit(status)\<close>, and the rest of \<open>main\<close> otherwise.
\<close>

definition attempt :: "('c \<Rightarrow> answer) \<Rightarrow> 'c list \<Rightarrow> string \<Rightarrow> int \<Rightarrow> 'c list \<times> exit \<Rightarrow> 'c list \<times> exit" where
  "attempt env cs msg status rest =
     (case run_calls env cs of
        (t, Completed) \<Rightarrow> (t @ fst rest, snd rest)
      | (t, Failed e) \<Rightarrow> (t, Exits status (Some (msg, e)))
      | (t, Ended n) \<Rightarrow> (t, Exits n None)
      | (t, Panicked) \<Rightarrow> (t, Crashes))"

text \<open>
  \<open>main\<close>, one step per error check of the code.  \<open>flag.Parse\<close> ends the process itself for a
  wrong command line and \<open>GetConfigOrDie\<close> when there is no configuration.  \<open>ParseFlags\<close>,
  \<open>GetConfigOrDie\<close> and \<open>SetupSignalHandler\<close> have no error result: they never answer \<open>Fails\<close>.
\<close>

definition manager_main :: "(setup_call \<Rightarrow> answer) \<Rightarrow> flags \<Rightarrow> setup_call list \<times> exit" where
  "manager_main env fl =
     attempt env [ParseFlags, GetConfigOrDie, NewManager (manager_options_of fl)] ''unable to start manager'' 1
     (attempt env DeployerReconciler_SetupWithManager ''unable to create controller'' 1
     (attempt env NewAppReconciler ''unable to new appReconciler'' 1
     (attempt env AppReconciler_SetupWithManager ''unable to create controller'' 1
     (attempt env [AddHealthzCheck ''healthz''] ''unable to set up health check'' 1
     (attempt env [AddReadyzCheck ''readyz''] ''unable to set up ready check'' 1
     (attempt env [SetupSignalHandler, StartManager] ''problem running manager'' 1
     ([], Returns)))))))"

text \<open>
  The specification: a plan is a list of calls, each with the message and the status of its
  failure, which is followed up to the first call that does not succeed.
\<close>

fun follow_plan :: "('c \<Rightarrow> answer) \<Rightarrow> ('c \<times> string \<times> int) list \<Rightarrow> 'c list \<times> exit" where
  "follow_plan env [] = ([], Returns)"
| "follow_plan env ((c, msg, status) # plan) =
     (case env c of
        Succeeds \<Rightarrow> (c # fst (follow_plan env plan), snd (follow_plan env plan))
      | Fails e \<Rightarrow> ([c], Exits status (Some (msg, e)))
      | Ends n \<Rightarrow> ([c], Exits n None)
      | Panics \<Rightarrow> ([c], Crashes))"

lemma attempt_Cons:
  "attempt env (c # cs) msg status rest =
     (case env c of
        Succeeds \<Rightarrow> (c # fst (attempt env cs msg status rest), snd (attempt env cs msg status rest))
      | Fails e \<Rightarrow> ([c], Exits status (Some (msg, e)))
      | Ends n \<Rightarrow> ([c], Exits n None)
      | Panics \<Rightarrow> ([c], Crashes))"
  by (cases "run_calls env cs") (auto simp: attempt_def split: answer.splits outcome.splits)

lemma attempt_follow_plan:
  "attempt env cs msg status (follow_plan env plan) = follow_plan env (map (\<lambda>c. (c, msg, status)) cs @ plan)"
  by (induction cs) (auto simp: attempt_Cons split: answer.splits, simp_all add: attempt_def)

lemma follow_plan_spec:
  assumes "follow_plan env plan = (t, x)" and "plan \<noteq> []"
  shows "t \<noteq> [] \<and> t = map fst (take (length t) plan) \<and> (\<forall>c \<in> set (butlast t). env c = Succeeds) \<and>
      (case env (last t) of
         Succeeds \<Rightarrow> length t = length plan \<and> x = Returns
       | Fails e \<Rightarrow> (case last (take (length t) plan) of (c, msg, status) \<Rightarrow> x = Exits status (Some (msg, e)))
       | Ends n \<Rightarrow> x = Exits n None
       | Panics \<Rightarrow> x = Crashes)"
  using assms
proof (induction plan arbitrary: t x)
  case (Cons q plan)
  obtain c msg status where q: "q = (c, msg, status)" by (cases q)
  show ?case
  proof (cases "env c = Succeeds \<and> plan \<noteq> []")
    case True
    obtain u where u: "follow_plan env plan = (u, x)" "t = c # u"
      using Cons.prems q True by (cases "follow_plan env plan") auto
    with Cons.IH [OF u(1)] True q show ?thesis by (auto split: answer.splits)
  qed (use Cons.prems q in \<open>auto split: answer.splits\<close>)
qed simp

text \<open>The last call is made exactly when all others succeed.\<close>

lemma follow_plan_last:
  "q \<notin> fst ` set plan \<Longrightarrow> q \<in> set (fst (follow_plan env (plan @ [(q, a)]))) \<longleftrightarrow> (\<forall>c \<in> fst ` set plan. env c = Succeeds)"
  by (induction plan) (cases a, auto split: answer.splits prod.splits)

text \<open>The calls of a start with the messages of their failures, in their order.\<close>

definition start_plan :: "flags \<Rightarrow> (setup_call \<times> string \<times> int) list" where
  "start_plan fl =
     [(ParseFlags, ''unable to start manager'', 1), (GetConfigOrDie, ''unable to start manager'', 1),
      (NewManager (manager_options_of fl), ''unable to start manager'', 1),
      (CompleteController ''Deployer'' [], ''unable to create controller'', 1),
      (GetInformerForKind ''App'', ''unable to new appReconciler'', 1),
      (GetInformerForKind ''Pod'', ''unable to new appReconciler'', 1),
      (GetInformerForKind ''PersistentVolumeClaim'', ''unable to new appReconciler'', 1),
      (GetInformerForKind ''StorageClass'', ''unable to new appReconciler'', 1),
      (GetInformerForKind ''ControllerRevision'', ''unable to new appReconciler'', 1),
      (AssertSharedInformer ''App'', ''unable to new appReconciler'', 1),
      (AssertSharedInformer ''Pod'', ''unable to new appReconciler'', 1),
      (AssertSharedInformer ''PersistentVolumeClaim'', ''unable to new appReconciler'', 1),
      (AssertSharedInformer ''StorageClass'', ''unable to new appReconciler'', 1),
      (NewUnicoreClient, ''unable to new appReconciler'', 1), (NewKubeClient, ''unable to new appReconciler'', 1),
      (NewRecorder ''app-controller'', ''unable to new appReconciler'', 1),
      (AssertSharedInformer ''ControllerRevision'', ''unable to new appReconciler'', 1),
      (CompleteController ''App'' [''Pod''], ''unable to create controller'', 1),
      (AddHealthzCheck ''healthz'', ''unable to set up health check'', 1),
      (AddReadyzCheck ''readyz'', ''unable to set up ready check'', 1),
      (SetupSignalHandler, ''problem running manager'', 1), (StartManager, ''problem running manager'', 1)]"

lemma manager_main_plan: "manager_main env fl = follow_plan env (start_plan fl)"
proof -
  have "([], Returns) = follow_plan env []" by simp
  then show ?thesis
    by (simp only: manager_main_def attempt_follow_plan)
      (simp add: start_plan_def DeployerReconciler_SetupWithManager_def NewAppReconciler_def AppReconciler_SetupWithManager_def)
qed

text \<open>
  C37.  What a start does, written out: these calls in this order up to the first that does not
  succeed, and how the process then ends.  In particular a failed call ends it with status 1 and
  the message of that call, \<open>GetConfigOrDie\<close> ends it with the status it chooses, and the manager
  is started exactly when both controllers and both health checks, and all else before, were
  set up.
\<close>

theorem manager_main_in_order:
  assumes "manager_main env fl = (t, x)"
    and "plan =
     [(ParseFlags, ''unable to start manager''), (GetConfigOrDie, ''unable to start manager''),
      (NewManager (manager_options_of fl), ''unable to start manager''),
      (CompleteController ''Deployer'' [], ''unable to create controller''),
      (GetInformerForKind ''App'', ''unable to new appReconciler''),
      (GetInformerForKind ''Pod'', ''unable to new appReconciler''),
      (GetInformerForKind ''PersistentVolumeClaim'', ''unable to new appReconciler''),
      (GetInformerForKind ''StorageClass'', ''unable to new appReconciler''),
      (GetInformerForKind ''ControllerRevision'', ''unable to new appReconciler''),
      (AssertSharedInformer ''App'', ''unable to new appReconciler''),
      (AssertSharedInformer ''Pod'', ''unable to new appReconciler''),
      (AssertSharedInformer ''PersistentVolumeClaim'', ''unable to new appReconciler''),
      (AssertSharedInformer ''StorageClass'', ''unable to new appReconciler''),
      (NewUnicoreClient, ''unable to new appReconciler''), (NewKubeClient, ''unable to new appReconciler''),
      (NewRecorder ''app-controller'', ''unable to new appReconciler''),
      (AssertSharedInformer ''ControllerRevision'', ''unable to new appReconciler''),
      (CompleteController ''App'' [''Pod''], ''unable to create controller''),
      (AddHealthzCheck ''healthz'', ''unable to set up health check''),
      (AddReadyzCheck ''readyz'', ''unable to set up ready check''),
      (SetupSignalHandler, ''problem running manager''), (StartManager, ''problem running manager'')]"
  shows "t \<noteq> [] \<and> t = map fst (take (length t) plan) \<and> (\<forall>c \<in> set (butlast t). env c = Succeeds) \<and>
      (case env (last t) of
         Succeeds \<Rightarrow> length t = length plan \<and> x = Returns
       | Fails e \<Rightarrow> x = Exits 1 (Some (snd (last (take (length t) plan)), e))
       | Ends n \<Rightarrow> x = Exits n None
       | Panics \<Rightarrow> x = Crashes) \<and>
      (StartManager \<in> set t \<longleftrightarrow> (\<forall>c \<in> fst ` set (butlast plan). env c = Succeeds))"
proof -
  have plan: "start_plan fl = map (\<lambda>(c, msg). (c, msg, 1)) plan" unfolding assms(2) start_plan_def by simp
  have plan_ne: "plan \<noteq> []" unfolding assms(2) by simp
  have run: "follow_plan env (map (\<lambda>(c, msg). (c, msg, 1)) plan) = (t, x)"
    using assms(1) unfolding manager_main_plan plan .
  have firsts: "map fst (take n (map (\<lambda>(c, msg). (c, msg, 1::int)) plan)) = map fst (take n plan)" for n
    by (simp add: take_map [symmetric] comp_def case_prod_beta)
  note spec = follow_plan_spec [OF run, unfolded firsts]
  have "last (take (length t) (map (\<lambda>(c, msg). (c, msg, 1::int)) plan)) =
      (case last (take (length t) plan) of (c, msg) \<Rightarrow> (c, msg, 1))" if "t \<noteq> []"
    using that plan_ne by (simp add: take_map last_map)
  note at_last = this
  have last: "StartManager \<in> set (fst (follow_plan env (map (\<lambda>(c, msg). (c, msg, 1)) (butlast plan) @ [(StartManager, ''problem running manager'', 1)])))
      \<longleftrightarrow> (\<forall>c \<in> fst ` set (map (\<lambda>(c, msg). (c, msg, 1::int)) (butlast plan)). env c = Succeeds)"
    by (rule follow_plan_last) (simp add: assms(2))
  have all: "map (\<lambda>(c, msg). (c, msg, 1)) (butlast plan) @ [(StartManager, ''problem running manager'', 1)] =
      map (\<lambda>(c, msg). (c, msg, 1)) plan" by (simp add: assms(2))
  have firsts: "fst ` set (map (\<lambda>(c, msg). (c, msg, 1::int)) (butlast plan)) = fst ` set (butlast plan)"
    by (force simp: image_iff)
  have "StartManager \<in> set t \<longleftrightarrow> (\<forall>c \<in> fst ` set (butlast plan). env c = Succeeds)"
    using last unfolding all firsts run fst_conv .
  with spec at_last plan_ne show ?thesis by (auto split: answer.splits prod.splits)
qed

section \<open>The TLS options\<close>

text \<open>Unless HTTP/2 is enabled, both servers of the manager offer HTTP/1.1 only, whatever the configuration was.\<close>

lemma http2_off_by_default:
  assumes "\<not> fl_enable_http2 fl"
  shows "tls_next_protos (fold (\<lambda>f c. f c) (mo_metrics_tls (manager_options_of fl)) c) = [''http/1.1'']"
    and "tls_next_protos (fold (\<lambda>f c. f c) (mo_webhook_tls (manager_options_of fl)) c) = [''http/1.1'']"
  using assms by (simp_all add: manager_options_of_def tlsOpts_def disableHTTP2_def)

section \<open>The image daemon\<close>

datatype daemon_call = InClusterConfig | NewKubeForConfig | NewVersionedForConfig | NewContainerDClient

definition daemon_New_calls :: "daemon_call list" where
  "daemon_New_calls = [InClusterConfig, NewKubeForConfig, NewVersionedForConfig, NewContainerDClient]"

text \<open>\<open>None\<close>: the process ended in the call.\<close>

definition daemon_New :: "(daemon_call \<Rightarrow> answer) \<Rightarrow> daemon_call list \<times> (go_error + daemon) option" where
  "daemon_New env =
     (case run_calls env daemon_New_calls of
        (t, Completed) \<Rightarrow> (t, Some (Inr new_daemon))
      | (t, Failed e) \<Rightarrow> (t, Some (Inl e))
      | (t, Ended n) \<Rightarrow> (t, None)
      | (t, Panicked) \<Rightarrow> (t, None))"

text \<open>\<open>main\<close> of the daemon panics with every error; \<open>events\<close> are those of the watch until it is closed.\<close>

definition daemon_main :: "(daemon_call \<Rightarrow> answer) \<Rightarrow> 'w cri \<Rightarrow> go_error + image_list list \<Rightarrow> go_error option \<Rightarrow>
    watch_event list \<Rightarrow> 'w \<Rightarrow> exit" where
  "daemon_main env cri found watch_error events w =
     (case snd (daemon_New env) of
        None \<Rightarrow> Crashes
      | Some (Inl e) \<Rightarrow> Crashes
      | Some (Inr d) \<Rightarrow> (case Image_Daemon.Start cri found watch_error events (d, w) of
            (Some e, s) \<Rightarrow> Crashes
          | (None, s) \<Rightarrow> Returns))"

text \<open>
  The watch is not opened again: when the server closes it the program ends with status 0, and
  what it had noted is lost.
\<close>

lemma daemon_ends_with_watch:
  assumes "\<forall>c \<in> set daemon_New_calls. env c = Succeeds"
  shows "daemon_main env cri (Inr items) None events w = Returns"
proof -
  obtain t r where tr: "run_calls env daemon_New_calls = (t, r)" by (cases "run_calls env daemon_New_calls")
  with run_calls_completed [OF tr] assms have "r = Completed" by blast
  with tr show ?thesis by (simp add: daemon_main_def daemon_New_def Image_Daemon.Start_def Let_def)
qed

section \<open>The scheduler\<close>

text \<open>The plugins under the names by which the scheduler's configuration enables them.\<close>

datatype plugin_constructor = ReserveNew | GangNew

definition scheduler_plugins :: "(string \<times> plugin_constructor) list" where
  "scheduler_plugins = [(''unicore-reserve-scheduler'', ReserveNew), (''unicore-gang-scheduler'', GangNew)]"

definition scheduler_main :: "((string \<times> plugin_constructor) list \<Rightarrow> int) \<Rightarrow> int" where
  "scheduler_main cli_run = cli_run scheduler_plugins"

section \<open>The control plane\<close>

text \<open>
  Requests are parsed by the web framework; a handler answers with a status and a body.  The
  three handlers are skeletons.
\<close>

record 'd response =
  rs_code :: int
  rs_data :: "'d option"
  rs_msg :: string

definition SuccessResp :: "'d \<Rightarrow> 'd response" where
  "SuccessResp data = \<lparr>rs_code = 0, rs_data = Some data, rs_msg = ''''\<rparr>"

definition ErrResp :: "string \<Rightarrow> 'd response" where
  "ErrResp err = \<lparr>rs_code = 1, rs_data = None, rs_msg = err\<rparr>"

datatype auth_resp =
    RegisterResp bool
  | LoginResp bool string
  | VerifyTokenResp bool string bool

datatype body = BadRequest string | Answer "auth_resp response"

type_synonym ('q, 'r) handler = "('q \<Rightarrow> string + 'r) \<Rightarrow> 'q \<Rightarrow> int \<times> body"

definition handle_with :: "('r \<Rightarrow> auth_resp) \<Rightarrow> ('q, 'r) handler" where
  "handle_with respond ShouldBindJSON q =
     (case ShouldBindJSON q of
        Inl err \<Rightarrow> (400, BadRequest err)
      | Inr req \<Rightarrow> (200, Answer (SuccessResp (respond req))))"

definition RegisterHandler :: "('q, 'r) handler" where
  "RegisterHandler = handle_with (\<lambda>req. RegisterResp True)"

definition LoginHandler :: "('q, 'r) handler" where
  "LoginHandler = handle_with (\<lambda>req. LoginResp True ''example-token'')"

definition VerifyTokenHandler :: "('q, 'r) handler" where
  "VerifyTokenHandler = handle_with (\<lambda>req. VerifyTokenResp True '''' False)"

definition control_plane_routes :: "(string \<times> ('q, 'r) handler) list" where
  "control_plane_routes =
     [(''/register'', RegisterHandler), (''/login'', LoginHandler), (''/verify'', VerifyTokenHandler)]"

text \<open>The login hands out one token to everybody, and every token that parses is valid.\<close>

lemma login_one_token: "ShouldBindJSON q = Inr req \<Longrightarrow> LoginHandler ShouldBindJSON q = (200, Answer (SuccessResp (LoginResp True ''example-token'')))"
  by (simp add: LoginHandler_def handle_with_def)

lemma every_token_valid:
  "ShouldBindJSON q = Inr req \<Longrightarrow> VerifyTokenHandler ShouldBindJSON q = (200, Answer (SuccessResp (VerifyTokenResp True '''' False)))"
  by (simp add: VerifyTokenHandler_def handle_with_def)

definition no_claims_informer :: "setup_call \<Rightarrow> answer" where
  "no_claims_informer c =
     (if c = GetInformerForKind ''PersistentVolumeClaim'' then Fails ErrNotFound else Succeeds)"

theorem manager_main_in_order_witness:
  "\<exists>t. manager_main no_claims_informer default_flags = (t, Exits 1 (Some (''unable to new appReconciler'', ErrNotFound))) \<and>
     length t = 7 \<and> StartManager \<notin> set t"
proof -
  obtain t where t: "manager_main no_claims_informer default_flags = (t, Exits 1 (Some (''unable to new appReconciler'', ErrNotFound)))"
      "length t = 7"
    by (simp add: manager_main_plan start_plan_def no_claims_informer_def)
  from manager_main_in_order [OF this(1) refl] have "StartManager \<notin> set t"
    by (auto simp: no_claims_informer_def)
  with t show ?thesis by blast
qed

end
