(* ===== verification/Rollout.thy ===== *)
theory Rollout
  imports Update_Progress
begin

text \<open>
  Whole roll-outs: passes of \<open>applyUpdate\<close> alternate with a cluster that carries out what they
  ask for.  A round is a pass without an error over all pods of the App, in any order and from any state of
  the controller, after which the created pod has come up and the deleted pod is gone.
  Every round brings the pods nearer to the specification, until nothing is left to do.
\<close>

section \<open>Rounds\<close>

text \<open>A created pod comes up under its name and with its revision, and is steady then.\<close>

definition brings_up :: "app \<Rightarrow> pod \<Rightarrow> pod \<Rightarrow> bool" where
  "brings_up app q p \<longleftrightarrow> steady app p \<and> p_name p = p_name q \<and> getPodRevision p = getPodRevision q"

fun effect :: "app \<Rightarrow> calls \<Rightarrow> pod set \<Rightarrow> pod set \<Rightarrow> bool" where
  "effect app [] P P' = (P' = P)"
| "effect app (c # cs) P P' =
     (\<exists>Q. (case c of
             CallPodCreate q \<Rightarrow> \<exists>p. brings_up app q p \<and> Q = insert p P
           | CallPodDelete ns name \<Rightarrow> Q = {p \<in> P. \<not> (p_namespace p = ns \<and> p_name p = name)}
           | _ \<Rightarrow> Q = P) \<and>
          effect app cs Q P')"

definition round :: "env \<Rightarrow> app \<Rightarrow> controller_revision \<Rightarrow> controller_revision \<Rightarrow> pod set \<Rightarrow> pod set \<Rightarrow> bool" where
  "round env app cur upd P P' \<longleftrightarrow>
     (\<exists>pods collision revs s st s'.
        distinct pods \<and> set pods = P \<and>
        applyUpdate env (PodController env) app cur upd collision pods revs s = Some ((st, None), s') \<and>
        effect app (lifecycle (calls_between s s')) P P')"

text \<open>
  The setting of an ordered roll-out by deletion: \<open>n\<close> replicas, those at or above \<open>umin\<close> to be
  updated.  The strategy has all its fields; the revisions can be applied, and the App of the
  current revision has the same name and no higher partition.
\<close>

definition partition_at_most :: "int \<Rightarrow> app \<Rightarrow> bool" where
  "partition_at_most umin ca \<longleftrightarrow>
     strategy ca \<noteq> RollingUpdateType \<or>
     (\<exists>ru m. rolling ca = Some ru \<and> \<not> ru_unordered ru \<and> ru_partition ru = Some m \<and> sint m \<le> umin)"

definition applies :: "env \<Rightarrow> app \<Rightarrow> controller_revision \<Rightarrow> controller_revision \<Rightarrow> int \<Rightarrow> app \<Rightarrow> app \<Rightarrow> bool" where
  "applies env app cur upd umin ca ua \<longleftrightarrow>
     ApplyRevision env app cur = Some (Inr ca) \<and> ApplyRevision env app upd = Some (Inr ua) \<and>
     a_name ca = a_name app \<and> a_name ua = a_name app \<and> partition_at_most umin ca"

definition rolls_out :: "env \<Rightarrow> app \<Rightarrow> controller_revision \<Rightarrow> controller_revision \<Rightarrow> nat \<Rightarrow> int \<Rightarrow> bool" where
  "rolls_out env app cur upd n umin \<longleftrightarrow>
     \<not> burstable app \<and> getMinReadySeconds app = 0 \<and> updates_on app umin \<and> 0 \<le> umin \<and> \<not> in_place_allowed app \<and>
     map_option sint (sp_replicas (a_spec app)) = Some (int n) \<and>
     \<not> (strategy app = RollingUpdateType \<and> fst (setDefaultRollingUpdateStrategy app)) \<and>
     (\<exists>sel. e_selector env (sp_selector (a_spec app)) = Inr sel) \<and>
     (\<exists>ca ua. applies env app cur upd umin ca ua) \<and>
     (\<forall>tm a. p_phase (e_from_template env tm a) = PhaseUnset)"

text \<open>What is left to do.\<close>

definition missing :: "nat \<Rightarrow> pod set \<Rightarrow> nat set" where
  "missing n P = {i. i < n \<and> (\<forall>p \<in> P. ordinal p \<noteq> int i)}"

definition surplus_pods :: "nat \<Rightarrow> pod set \<Rightarrow> pod set" where
  "surplus_pods n P = {p \<in> P. int n \<le> ordinal p}"

definition old_pods :: "controller_revision \<Rightarrow> nat \<Rightarrow> int \<Rightarrow> pod set \<Rightarrow> pod set" where
  "old_pods upd n umin P = {p \<in> P. umin \<le> ordinal p \<and> ordinal p < int n \<and> getPodRevision p \<noteq> rev_name upd}"

definition remaining :: "controller_revision \<Rightarrow> nat \<Rightarrow> int \<Rightarrow> pod set \<Rightarrow> nat" where
  "remaining upd n umin P = 2 * card (old_pods upd n umin P) + card (missing n P) + card (surplus_pods n P)"

definition cluster :: "app \<Rightarrow> pod set \<Rightarrow> bool" where
  "cluster app P \<longleftrightarrow> finite P \<and> inj_on ordinal P \<and> (\<forall>p \<in> P. steady app p)"

section \<open>Names and ordinals\<close>

lemma steady_name: "steady app p \<Longrightarrow> p_name p = getPodOutName app (ordinal p) \<and> p_namespace p = a_namespace app \<and> 0 \<le> ordinal p"
  by (auto simp: steady_def matchAppAndPod_def Let_def split: prod.splits if_splits)

lemma same_name_ordinal: "p_name p = p_name q \<Longrightarrow> ordinal p = ordinal q"
  by (simp add: GetPodAppNameAndOrdinal_def)

lemma newAppPod_phase: "newAppPod ft ord a i = Some q \<Longrightarrow> p_phase q = p_phase (ft (sp_template (a_spec a)) a)"
  by (auto simp: newAppPod_def updatePodIdentity_def updateVolume_def Let_def bind_eq_Some_conv split: prod.splits)

lemma made_pod:
  assumes "made ft ord ca ua cur upd i q" and "a_name ca = a_name app" and "a_name ua = a_name app"
    and "int i \<le> max_int64" and "\<And>tm a. p_phase (ft tm a) = PhaseUnset"
  shows "p_name q = getPodOutName app (int i)" and "p_phase q = PhaseUnset" and "ordinal q = int i"
proof -
  from assms(1) obtain a q0 r where q: "newAppPod ft ord a (int i) = Some q0" "a \<in> {ca, ua}"
    "q = q0\<lparr>p_labels := map_set (p_labels q0) revision_label r\<rparr>"
    by (auto simp: made_def newVersionedPodForApp_def bind_eq_Some_conv split: if_splits)
  with assms(2,3) have "getPodOutName a (int i) = getPodOutName app (int i)" by (auto simp: getPodOutName_def)
  with newAppPod_name [OF q(1) _ assms(4)] q(3) show name: "p_name q = getPodOutName app (int i)" by simp
  show "p_phase q = PhaseUnset" using newAppPod_phase [OF q(1)] q(3) assms(5) by simp
  show "ordinal q = int i" using ordinal_of_out_name [OF name _ assms(4)] by simp
qed

lemma made_revision:
  assumes "made ft ord ca ua cur upd i q" and "partition_at_most umin ca" and "umin \<le> int i"
  shows "getPodRevision q = upd"
  using assms
  by (auto simp: made_def newVersionedPodForApp_def isCurrentRevisionExpected_def partition_at_most_def bind_eq_Some_conv
      getPodRevision_def split: if_splits)

lemma pod_at_cluster:
  assumes "inj_on ordinal (set pods)"
  shows "pod_at pods i = Some p \<longleftrightarrow> p \<in> set pods \<and> ordinal p = int i"
proof
  assume "pod_at pods i = Some p"
  then show "p \<in> set pods \<and> ordinal p = int i" by (auto simp: pod_at_def dest: first_match_Some)
next
  assume p: "p \<in> set pods \<and> ordinal p = int i"
  then have "pod_at pods i \<noteq> None" by (auto simp: pod_at_def first_match_None simp del: not_None_eq)
  then obtain p' where "pod_at pods i = Some p'" by blast
  moreover from this have "p' \<in> set pods \<and> ordinal p' = int i" by (auto simp: pod_at_def dest: first_match_Some)
  ultimately show "pod_at pods i = Some p" using p assms by (auto simp: inj_on_def)
qed

section \<open>One round\<close>

lemma applyUpdate_eq:
  assumes "rolls_out env app cur upd n umin"
  shows "\<exists>ca ua status. applies env app cur upd umin ca ua \<and>
      applyUpdate env pc app cur upd collision pods revs s =
        do { (replicas, bad) \<leftarrow> arrange_pods env app ca ua cur upd pods s;
             manage_pods env pc app cur upd revs replicas bad status s }"
proof -
  from assms obtain ca ua sel where "applies env app cur upd umin ca ua" "e_selector env (sp_selector (a_spec app)) = Inr sel"
    "\<not> (strategy app = RollingUpdateType \<and> fst (setDefaultRollingUpdateStrategy app))"
    by (auto simp: rolls_out_def)
  moreover obtain x y where "setDefaultRollingUpdateStrategy app = (x, y)" by fastforce
  ultimately show ?thesis by (auto simp: applyUpdate_def applies_def Let_def)
qed

lemma applyUpdate_manages:
  assumes "rolls_out env app cur upd n umin"
    and "applyUpdate env pc app cur upd collision pods revs s = Some (res, s')"
  obtains ca ua replicas bad status where "applies env app cur upd umin ca ua"
    and "arrange_pods env app ca ua cur upd pods s = Some (replicas, bad)"
    and "manage_pods env pc app cur upd revs replicas bad status s = Some (res, s')"
proof -
  from applyUpdate_eq [OF assms(1)] obtain ca ua status where "applies env app cur upd umin ca ua"
    "do { (replicas, bad) \<leftarrow> arrange_pods env app ca ua cur upd pods s;
          manage_pods env pc app cur upd revs replicas bad status s } = Some (res, s')"
    using assms(2) by metis
  with that show ?thesis by (auto simp: bind_eq_Some_conv)
qed

text \<open>The slots of a cluster: its pods, and new pods where one is missing.\<close>

lemma cluster_slots:
  assumes "rolls_out env app cur upd n umin" and "cluster app P" and "set pods = P"
    and "applies env app cur upd umin ca ua" and "arrange_pods env app ca ua cur upd pods s = Some (replicas, bad)"
  shows "length replicas = n"
    and "i < n \<Longrightarrow> i \<notin> missing n P \<Longrightarrow> \<exists>p \<in> P. replicas ! i = Some p \<and> ordinal p = int i"
    and "i < n \<Longrightarrow> i \<in> missing n P \<Longrightarrow> \<exists>q. replicas ! i = Some q \<and> p_name q = getPodOutName app (int i) \<and>
        p_phase q = PhaseUnset \<and> ordinal q = int i \<and> (umin \<le> int i \<longrightarrow> getPodRevision q = rev_name upd) \<and>
        made (e_from_template env) (e_range env (trace s)) ca ua (rev_name cur) (rev_name upd) i q"
    and "set bad = surplus_pods n P"
proof -
  let ?made = "made (e_from_template env) (e_range env (trace s)) ca ua (rev_name cur) (rev_name upd)"
  from arrange_pods_made [OF assms(5)] obtain w where w: "sp_replicas (a_spec app) = Some w" "int (length replicas) = sint w"
    and slots: "\<forall>i < length replicas. \<exists>q. replicas ! i = Some q \<and> (case pod_at pods i of Some p \<Rightarrow> q = p | None \<Rightarrow> ?made i q)"
    and bad: "mset bad = mset (filter (\<lambda>p. sint w \<le> ordinal p) pods)" by blast
  from w assms(1) have n: "sint w = int n" by (simp add: rolls_out_def)
  with w show len: "length replicas = n" by simp
  have inj: "inj_on ordinal (set pods)" using assms(2,3) by (simp add: cluster_def)
  have gap: "i \<in> missing n P \<longleftrightarrow> pod_at pods i = None" if "i < n"
    using that pod_at_cluster [OF inj, of i] assms(3) by (cases "pod_at pods i") (auto simp: missing_def)
  show "\<exists>p \<in> P. replicas ! i = Some p \<and> ordinal p = int i" if "i < n" "i \<notin> missing n P"
  proof -
    from that gap obtain p where p: "pod_at pods i = Some p" by fastforce
    with pod_at_cluster [OF inj, of i p] slots that(1) len assms(3) show ?thesis by fastforce
  qed
  show "\<exists>q. replicas ! i = Some q \<and> p_name q = getPodOutName app (int i) \<and> p_phase q = PhaseUnset \<and>
      ordinal q = int i \<and> (umin \<le> int i \<longrightarrow> getPodRevision q = rev_name upd) \<and> ?made i q"
    if "i < n" "i \<in> missing n P"
  proof -
    from that gap slots len obtain q where q: "replicas ! i = Some q" "?made i q" by fastforce
    have "int i \<le> max_int64" using that(1) n sint32_bounds [of w] by (simp add: max_int64_def)
    moreover have "\<And>tm a. p_phase (e_from_template env tm a) = PhaseUnset" using assms(1) by (simp add: rolls_out_def)
    ultimately show ?thesis
      using made_pod [OF q(2), of app] made_revision [OF q(2), of umin] q assms(4) by (simp add: applies_def)
  qed
  show "set bad = surplus_pods n P"
    using arg_cong [OF bad, of set_mset] n assms(3) by (auto simp: surplus_pods_def)
qed

text \<open>What a round does, in the order of precedence.\<close>

lemma first_missing:
  assumes "rolls_out env app cur upd n umin" and "cluster app P" and "set pods = P" and "missing n P \<noteq> {}"
    and "applies env app cur upd umin ca ua" and "arrange_pods env app ca ua cur upd pods s = Some (replicas, bad)"
  obtains ps q rest where "replicas = map Some ps @ Some q # rest" and "\<forall>p \<in> set ps. steady app p"
    and "p_phase q = PhaseUnset" and "ordinal q = int (Min (missing n P))" and "Min (missing n P) \<in> missing n P"
    and "umin \<le> ordinal q \<longrightarrow> getPodRevision q = rev_name upd"
    and "made (e_from_template env) (e_range env (trace s)) ca ua (rev_name cur) (rev_name upd) (Min (missing n P)) q"
proof -
  note slots = cluster_slots [OF assms(1-3,5,6)]
  define i where "i = Min (missing n P)"
  have "finite (missing n P)" by (simp add: missing_def)
  with assms(4) have i: "i \<in> missing n P" "\<And>j. j < i \<Longrightarrow> j \<notin> missing n P"
    unfolding i_def by (auto dest: Min_le)
  then have "i < n" by (simp add: missing_def)
  from slots(3) [OF this i(1)] obtain q where q: "replicas ! i = Some q" "p_phase q = PhaseUnset" "ordinal q = int i"
    "umin \<le> int i \<longrightarrow> getPodRevision q = rev_name upd"
    "made (e_from_template env) (e_range env (trace s)) ca ua (rev_name cur) (rev_name upd) i q" by blast
  define ps where "ps = map (\<lambda>j. the (replicas ! j)) [0..<i]"
  have before: "replicas ! j = Some (the (replicas ! j)) \<and> the (replicas ! j) \<in> P" if "j < i" for j
    using slots(2) [of j] i(2) [OF that] that \<open>i < n\<close> by auto
  have "take i replicas = map Some ps"
    by (rule nth_equalityI) (use before slots(1) \<open>i < n\<close> in \<open>auto simp: ps_def\<close>)
  moreover have "replicas = take i replicas @ Some q # drop (Suc i) replicas"
    using id_take_nth_drop [of i replicas] slots(1) \<open>i < n\<close> q(1) by simp
  ultimately obtain rest where "replicas = map Some ps @ Some q # rest" by metis
  moreover have "\<forall>p \<in> set ps. steady app p" using before assms(2) by (auto simp: ps_def cluster_def)
  ultimately show ?thesis using that q i(1) by (simp add: i_def)
qed

lemma round_creates:
  assumes "rolls_out env app cur upd n umin" and "cluster app P" and "round env app cur upd P P'" and "missing n P \<noteq> {}"
  shows "\<exists>p. P' = insert p P \<and> steady app p \<and> ordinal p = int (Min (missing n P)) \<and>
      (umin \<le> ordinal p \<longrightarrow> getPodRevision p = rev_name upd)"
proof -
  from assms(3) obtain pods collision revs s st s' where pods: "set pods = P"
    "applyUpdate env (PodController env) app cur upd collision pods revs s = Some ((st, None), s')"
    "effect app (lifecycle (calls_between s s')) P P'" by (auto simp: round_def)
  from applyUpdate_manages [OF assms(1) pods(2)] obtain ca ua replicas bad status
    where run: "applies env app cur upd umin ca ua" "arrange_pods env app ca ua cur upd pods s = Some (replicas, bad)"
      "manage_pods env (PodController env) app cur upd revs replicas bad status s = Some ((st, None), s')" .
  from first_missing [OF assms(1,2) pods(1) assms(4) run(1,2)] obtain ps q rest
    where split: "replicas = map Some ps @ Some q # rest" and steady: "\<forall>p \<in> set ps. steady app p"
      and q: "p_phase q = PhaseUnset" "ordinal q = int (Min (missing n P))"
        "umin \<le> ordinal q \<longrightarrow> getPodRevision q = rev_name upd" by metis
  from progress_create [OF run(3) [unfolded split] _ _ steady q(1)] assms(1)
  obtain c where c: "lifecycle (calls_between s s') = [c]" "creates q c" by (auto simp: rolls_out_def)
  from c(2) obtain g where "c = CallPodCreate (q\<lparr>p_readiness_gates := g\<rparr>)" by (auto simp: creates_def)
  with pods(3) c(1) obtain p where p: "brings_up app (q\<lparr>p_readiness_gates := g\<rparr>) p" "P' = insert p P" by auto
  then have "ordinal p = ordinal q" by (intro same_name_ordinal) (simp add: brings_up_def)
  with p q show ?thesis by (auto simp: brings_up_def getPodRevision_def)
qed


text \<open>Deleting a pod of the cluster by its name removes just that pod.\<close>

lemma delete_by_name:
  assumes "cluster app P" and "b \<in> P"
  shows "{p \<in> P. \<not> (p_namespace p = p_namespace b \<and> p_name p = p_name b)} = P - {b}"
proof -
  have "p = b" if "p \<in> P" "p_name p = p_name b" for p
    using assms that same_name_ordinal [OF that(2)] by (auto simp: cluster_def inj_on_def)
  then show ?thesis by auto
qed

lemma full_slots:
  assumes "rolls_out env app cur upd n umin" and "cluster app P" and "set pods = P" and "missing n P = {}"
    and "applies env app cur upd umin ca ua" and "arrange_pods env app ca ua cur upd pods s = Some (replicas, bad)"
  obtains ps where "replicas = map Some ps" and "length ps = n" and "set ps \<subseteq> P"
    and "\<forall>i < n. ordinal (ps ! i) = int i"
proof -
  note slots = cluster_slots [OF assms(1-3,5,6)]
  define ps where "ps = map (\<lambda>j. the (replicas ! j)) [0..<n]"
  have each: "replicas ! j = Some (the (replicas ! j)) \<and> the (replicas ! j) \<in> P \<and> ordinal (the (replicas ! j)) = int j"
    if "j < n" for j
    using slots(2) [OF that] assms(4) by auto
  have "replicas = map Some ps"
    by (rule nth_equalityI) (use each slots(1) in \<open>auto simp: ps_def\<close>)
  moreover have "length ps = n" "set ps \<subseteq> P" using each by (auto simp: ps_def)
  moreover have "ordinal (ps ! i) = int i" if "i < n" for i using each that by (simp add: ps_def)
  ultimately show ?thesis using that by blast
qed

lemma round_scales_down:
  assumes "rolls_out env app cur upd n umin" and "cluster app P" and "round env app cur upd P P'"
    and "missing n P = {}" and "surplus_pods n P \<noteq> {}"
  shows "\<exists>b \<in> surplus_pods n P. P' = P - {b}"
proof -
  from assms(3) obtain pods collision revs s st s' where pods: "set pods = P"
    "applyUpdate env (PodController env) app cur upd collision pods revs s = Some ((st, None), s')"
    "effect app (lifecycle (calls_between s s')) P P'" by (auto simp: round_def)
  from applyUpdate_manages [OF assms(1) pods(2)] obtain ca ua replicas bad status
    where run: "applies env app cur upd umin ca ua" "arrange_pods env app ca ua cur upd pods s = Some (replicas, bad)"
      "manage_pods env (PodController env) app cur upd revs replicas bad status s = Some ((st, None), s')" .
  from full_slots [OF assms(1,2) pods(1) assms(4) run(1,2)] obtain ps where ps: "replicas = map Some ps" "set ps \<subseteq> P" .
  have bad: "set bad = surplus_pods n P" by (rule cluster_slots(4) [OF assms(1,2) pods(1) run(1,2)])
  with assms(5) obtain b bs where b: "bad = b # bs" by (cases bad) auto
  with bad have "b \<in> surplus_pods n P" by auto
  then have "b \<in> P" by (simp add: surplus_pods_def)
  with assms(2) have "getPodReady (Some b)" "p_deletion b = None" by (auto simp: cluster_def steady_def settled_def)
  moreover have "\<forall>p \<in> set ps. steady app p" using ps(2) assms(2) by (auto simp: cluster_def)
  ultimately have "lifecycle (calls_between s s') = [CallPodDelete (p_namespace b) (p_name b)]"
    using progress_scale_down [OF run(3) [unfolded ps(1) b]] assms(1) by (simp add: rolls_out_def)
  with pods(3) delete_by_name [OF assms(2) \<open>b \<in> P\<close>] \<open>b \<in> surplus_pods n P\<close> show ?thesis by auto
qed

lemma round_updates:
  assumes "rolls_out env app cur upd n umin" and "cluster app P" and "round env app cur upd P P'"
    and "missing n P = {}" and "surplus_pods n P = {}"
  shows "if old_pods upd n umin P = {} then P' = P else \<exists>p \<in> old_pods upd n umin P. P' = P - {p}"
proof -
  from assms(3) obtain pods collision revs s st s' where pods: "set pods = P"
    "applyUpdate env (PodController env) app cur upd collision pods revs s = Some ((st, None), s')"
    "effect app (lifecycle (calls_between s s')) P P'" by (auto simp: round_def)
  from applyUpdate_manages [OF assms(1) pods(2)] obtain ca ua replicas bad status
    where run: "applies env app cur upd umin ca ua" "arrange_pods env app ca ua cur upd pods s = Some (replicas, bad)"
      "manage_pods env (PodController env) app cur upd revs replicas bad status s = Some ((st, None), s')" .
  from full_slots [OF assms(1,2) pods(1) assms(4) run(1,2)] obtain ps where ps: "replicas = map Some ps"
    "length ps = n" "set ps \<subseteq> P" "\<forall>i < n. ordinal (ps ! i) = int i" .
  have "bad = []" using cluster_slots(4) [OF assms(1,2) pods(1) run(1,2)] assms(5) by simp
  moreover have steady: "\<forall>p \<in> set ps. steady app p" using ps(3) assms(2) by (auto simp: cluster_def)
  ultimately have calls: "lifecycle (calls_between s s') =
      (case outdated upd umin ps n of [] \<Rightarrow> [] | t # _ \<Rightarrow> [CallPodDelete (p_namespace (ps ! t)) (p_name (ps ! t))])"
    using progress_roll [of env app cur upd revs ps status s st None s' umin] run(3) ps(1,2) assms(1)
    by (simp add: rolls_out_def)
  have old: "t \<in> set (outdated upd umin ps n) \<longleftrightarrow> t < n \<and> ps ! t \<in> old_pods upd n umin P" for t
    using ps(2-4) by (auto simp: outdated_def old_pods_def)
  have all: "\<exists>t < n. p = ps ! t" if "p \<in> old_pods upd n umin P" for p
  proof -
    have "0 \<le> ordinal p" "ordinal p < int n" "p \<in> P"
      using that steady_name assms(2) by (auto simp: old_pods_def cluster_def)
    moreover from this have "ps ! nat (ordinal p) \<in> P" "ordinal (ps ! nat (ordinal p)) = ordinal p"
      using ps(2-4) nth_mem [of "nat (ordinal p)" ps] by auto
    ultimately show ?thesis using assms(2) by (intro exI [of _ "nat (ordinal p)"]) (auto simp: cluster_def inj_on_def)
  qed
  show ?thesis
  proof (cases "outdated upd umin ps n")
    case Nil
    with old have "old_pods upd n umin P = {}" using all by fastforce
    with Nil calls pods(3) show ?thesis by simp
  next
    case (Cons t ts)
    then have "ps ! t \<in> old_pods upd n umin P" using old [of t] by simp
    moreover from this have "ps ! t \<in> P" by (simp add: old_pods_def)
    ultimately show ?thesis using Cons calls pods(3) delete_by_name [OF assms(2)] by auto
  qed
qed


section \<open>Every round is progress\<close>

lemma finite_parts [simp]:
  "finite (missing n P)" "finite P \<Longrightarrow> finite (surplus_pods n P)" "finite P \<Longrightarrow> finite (old_pods upd n umin P)"
  by (simp_all add: missing_def surplus_pods_def old_pods_def)

lemma create_progress:
  assumes "cluster app P" and "steady app p" and "ordinal p = int i" and "i \<in> missing n P"
    and "umin \<le> ordinal p \<longrightarrow> getPodRevision p = rev_name upd"
  shows "cluster app (insert p P) \<and> Suc (remaining upd n umin (insert p P)) = remaining upd n umin P"
proof -
  have "old_pods upd n umin (insert p P) = old_pods upd n umin P" "surplus_pods n (insert p P) = surplus_pods n P"
    "missing n (insert p P) = missing n P - {i}"
    using assms(3-5) by (auto simp: old_pods_def surplus_pods_def missing_def)
  moreover have "Suc (card (missing n P - {i})) = card (missing n P)" using assms(4) by (intro card_Suc_Diff1) auto
  moreover have "cluster app (insert p P)"
    using assms(1-4) by (auto simp: cluster_def missing_def inj_on_def)
  ultimately show ?thesis by (simp add: remaining_def)
qed

lemma scale_down_progress:
  assumes "cluster app P" and "b \<in> surplus_pods n P"
  shows "cluster app (P - {b}) \<and> Suc (remaining upd n umin (P - {b})) = remaining upd n umin P"
proof -
  have "old_pods upd n umin (P - {b}) = old_pods upd n umin P" "surplus_pods n (P - {b}) = surplus_pods n P - {b}"
    "missing n (P - {b}) = missing n P"
    using assms(2) by (auto simp: old_pods_def surplus_pods_def missing_def)
  moreover have "Suc (card (surplus_pods n P - {b})) = card (surplus_pods n P)"
    using assms by (intro card_Suc_Diff1) (auto simp: cluster_def)
  moreover have "cluster app (P - {b})" using assms(1) by (auto simp: cluster_def inj_on_def)
  ultimately show ?thesis by (simp add: remaining_def)
qed

lemma update_progress:
  assumes "cluster app P" and "p \<in> old_pods upd n umin P" and "missing n P = {}" and "surplus_pods n P = {}"
  shows "cluster app (P - {p}) \<and> Suc (remaining upd n umin (P - {p})) = remaining upd n umin P"
proof -
  have p: "p \<in> P" "0 \<le> ordinal p" "ordinal p < int n"
    using assms(1,2) steady_name by (auto simp: old_pods_def cluster_def)
  have other: "q = p" if "q \<in> P" "ordinal q = ordinal p" for q
    using assms(1) p(1) that by (auto simp: cluster_def inj_on_def)
  have "missing n (P - {p}) = {nat (ordinal p)}"
    using assms(3) p other by (fastforce simp: missing_def)
  moreover have "old_pods upd n umin (P - {p}) = old_pods upd n umin P - {p}" "surplus_pods n (P - {p}) = {}"
    using assms(4) by (auto simp: old_pods_def surplus_pods_def)
  moreover have "Suc (card (old_pods upd n umin P - {p})) = card (old_pods upd n umin P)"
    using assms(1,2) by (intro card_Suc_Diff1) (auto simp: cluster_def)
  moreover have "cluster app (P - {p})" using assms(1) by (auto simp: cluster_def inj_on_def)
  ultimately show ?thesis using assms(3,4) by (simp add: remaining_def)
qed

lemma round_progress:
  assumes "rolls_out env app cur upd n umin" and "cluster app P" and "round env app cur upd P P'"
  shows "cluster app P'" and "remaining upd n umin P' = remaining upd n umin P - 1"
    and "{p \<in> P. ordinal p < umin \<and> ordinal p < int n} \<subseteq> P'"
proof -
  have "cluster app P' \<and> remaining upd n umin P' = remaining upd n umin P - 1 \<and>
      {p \<in> P. ordinal p < umin \<and> ordinal p < int n} \<subseteq> P'"
  proof (cases "missing n P = {}")
    case False
    from round_creates [OF assms False] obtain p where p: "P' = insert p P" "steady app p"
      "ordinal p = int (Min (missing n P))" "umin \<le> ordinal p \<longrightarrow> getPodRevision p = rev_name upd" by blast
    have "Min (missing n P) \<in> missing n P" using False by (intro Min_in) auto
    from create_progress [OF assms(2) p(2,3) this p(4)] p(1) show ?thesis by auto
  next
    case full: True
    show ?thesis
    proof (cases "surplus_pods n P = {}")
      case False
      from round_scales_down [OF assms full False] obtain b where b: "b \<in> surplus_pods n P" "P' = P - {b}" by blast
      with scale_down_progress [OF assms(2) b(1), of upd umin] show ?thesis by (auto simp: surplus_pods_def)
    next
      case True
      from round_updates [OF assms full True] show ?thesis
      proof (cases "old_pods upd n umin P = {}")
        case False
        with round_updates [OF assms full True] obtain p where p: "p \<in> old_pods upd n umin P" "P' = P - {p}" by auto
        with update_progress [OF assms(2) p(1) full True] show ?thesis by (auto simp: old_pods_def)
      qed (use assms(2) full True in \<open>auto simp: remaining_def\<close>)
    qed
  qed
  then show "cluster app P'" and "remaining upd n umin P' = remaining upd n umin P - 1"
    and "{p \<in> P. ordinal p < umin \<and> ordinal p < int n} \<subseteq> P'" by auto
qed

lemma rounds_progress:
  assumes "rolls_out env app cur upd n umin" and "cluster app P" and "(round env app cur upd ^^ m) P P'"
  shows "cluster app P' \<and> remaining upd n umin P' = remaining upd n umin P - m \<and>
      {p \<in> P. ordinal p < umin \<and> ordinal p < int n} \<subseteq> P'"
  using assms(3)
proof (induction m arbitrary: P')
  case (Suc m)
  then obtain Q where Q: "(round env app cur upd ^^ m) P Q" "round env app cur upd Q P'" by auto
  from Suc.IH [OF Q(1)] round_progress [OF assms(1) _ Q(2)] show ?case by auto
qed (use assms(2) in auto)

lemma nothing_remains:
  assumes "cluster app P"
  shows "remaining upd n umin P = 0 \<longleftrightarrow>
      ordinal ` P = int ` {0..<n} \<and> (\<forall>p \<in> P. umin \<le> ordinal p \<longrightarrow> getPodRevision p = rev_name upd)"
proof -
  have pos: "0 \<le> ordinal p" if "p \<in> P" for p using that assms steady_name by (auto simp: cluster_def)
  have "missing n P = {} \<and> surplus_pods n P = {} \<longleftrightarrow> ordinal ` P = int ` {0..<n}"
  proof (intro iffI conjI)
    assume parts: "missing n P = {} \<and> surplus_pods n P = {}"
    have "ordinal p \<in> int ` {0..<n}" if "p \<in> P" for p
      using pos [OF that] parts that by (intro image_eqI [of _ _ "nat (ordinal p)"]) (auto simp: surplus_pods_def)
    moreover have "int i \<in> ordinal ` P" if "i < n" for i
    proof -
      from parts have "i \<notin> missing n P" by simp
      with that obtain p where "p \<in> P" "ordinal p = int i" by (auto simp: missing_def)
      then show ?thesis by (metis imageI)
    qed
    ultimately show "ordinal ` P = int ` {0..<n}" by auto
  next
    assume all: "ordinal ` P = int ` {0..<n}"
    have "int i \<in> ordinal ` P" if "i < n" for i using that by (simp add: all)
    then show "missing n P = {}" by (force simp: missing_def)
    have "ordinal p \<in> int ` {0..<n}" if "p \<in> P" for p using that by (simp flip: all)
    then show "surplus_pods n P = {}" by (force simp: surplus_pods_def)
  qed
  moreover have "remaining upd n umin P = 0 \<longleftrightarrow> old_pods upd n umin P = {} \<and> missing n P = {} \<and> surplus_pods n P = {}"
    using assms by (auto simp: remaining_def cluster_def)
  ultimately show ?thesis by (fastforce simp: old_pods_def surplus_pods_def)
qed


section \<open>Properties\<close>

text \<open>
  C5.  Convergence: every round without an error does one of the things that are left to do,
  as long as there is one, so that after at most \<open>remaining\<close> rounds (two for each replica to
  update, one for each missing replica and one for each surplus pod) there is exactly one steady
  pod for each ordinal below the number of replicas, those at or above the partition are at
  the update revision, and no replica below the partition was touched.
\<close>

theorem rollout_converges:
  assumes "rolls_out env app cur upd n umin" and "cluster app P" and "(round env app cur upd ^^ m) P P'"
  shows "remaining upd n umin P' = remaining upd n umin P - m \<and> cluster app P' \<and>
      {p \<in> P. ordinal p < umin \<and> ordinal p < int n} \<subseteq> P' \<and>
      (remaining upd n umin P \<le> m \<longrightarrow>
         ordinal ` P' = int ` {0..<n} \<and> (\<forall>p \<in> P'. umin \<le> ordinal p \<longrightarrow> getPodRevision p = rev_name upd))"
  using rounds_progress [OF assms] nothing_remains [of app P' upd n umin] by auto

text \<open>One old replica of an App with one: the first round deletes it.\<close>

lemma ordered_app_simps:
  "rolling ordered_app = Some sample_rolling" "strategy ordered_app = RollingUpdateType" "a_deletion ordered_app = None"
  "\<not> burstable ordered_app" "getMinReadySeconds ordered_app = 0" "\<not> in_place_allowed ordered_app"
  "\<not> fst (setDefaultRollingUpdateStrategy ordered_app)" "sp_replicas (a_spec ordered_app) = Some 1"
  "a_name ordered_app = a_name sample_app"
  by (simp_all add: ordered_app_def sample_app_def sample_rolling_def burstable_def getMinReadySeconds_def
      in_place_allowed_def setDefaultRollingUpdateStrategy_def)

lemma sample_applies:
  "ApplyRevision sample_env a r = Some (Inr sample_app)" "e_selector sample_env l = Inr ''app=nginx''"
  "partition_at_most 0 sample_app"
  by (simp_all add: ApplyRevision_def sample_env_def partition_at_most_def sample_app_def sample_rolling_def)

lemma ordered_app_rolls_out:
  "rolls_out sample_env ordered_app (sample_revision ''r1'' 1) (sample_revision ''r2'' 2) 1 0"
proof -
  have "p_phase (e_from_template sample_env tm a) = PhaseUnset" for tm a
    by (simp add: sample_env_def sample_from_template_def blank_pod_def)
  moreover have "updates_on ordered_app 0"
    by (simp add: updates_on_def ordered_app_simps) (simp add: sample_rolling_def)
  ultimately show ?thesis
    using ordered_app_simps sample_applies by (simp add: rolls_out_def applies_def)
qed

lemma old_replica_round:
  "round sample_env ordered_app (sample_revision ''r1'' 1) (sample_revision ''r2'' 2) {old_replica} {}"
proof -
  let ?cur = "sample_revision ''r1'' 1" and ?upd = "sample_revision ''r2'' 2" and ?pc = "PodController sample_env"
  have steady: "\<forall>p \<in> set [old_replica]. steady ordered_app p" using old_replica_steady by simp
  obtain u where del: "po_delete ?pc ordered_app old_replica sample_sys = (None, u)"
    using old_replica_simps by (simp add: PodController_def DeleteStatefulPod_def settled_def sample_env_def Let_def)
  have arr: "arrange_pods sample_env ordered_app ca ua ?cur ?upd [old_replica] s = Some ([Some old_replica], [])" for ca ua s
    using old_replica_simps by (simp add: arrange_pods_def ordered_app_simps sort_descending_def go_sort_def)
  have out: "outdated ?upd 0 [old_replica] 1 = [0]"
    using old_replica_simps by (simp add: outdated_def sample_revision_def)
  have roll: "roll_update sample_env ?pc ordered_app ?upd [] [Some old_replica] st sample_sys =
      Some (recreate_pod ?pc ordered_app old_replica st sample_sys)" for st
    using roll_loop_steady [OF steady ordered_app_simps(6), of 0 1 sample_env ?pc ?upd "[]" st sample_sys] out
    by (simp add: roll_update_def ordered_app_simps del: roll_loop.simps) (simp add: sample_rolling_def del: roll_loop.simps)
  have "\<exists>st. manage_pods sample_env ?pc ordered_app ?cur ?upd [] [Some old_replica] [] status sample_sys = Some ((st, None), u)"
    for status
    using sync_loop_all_steady [OF steady, of sample_env ?pc] del
    by (simp add: manage_pods_def Let_def roll recreate_pod_def ordered_app_simps split: prod.split del: sync_loop.simps)
  moreover from applyUpdate_eq [OF ordered_app_rolls_out, of ?pc 0 "[old_replica]" "[]" sample_sys] obtain status
    where "applyUpdate sample_env ?pc ordered_app ?cur ?upd 0 [old_replica] [] sample_sys =
      manage_pods sample_env ?pc ordered_app ?cur ?upd [] [Some old_replica] [] status sample_sys" by (auto simp: arr)
  ultimately obtain st where run:
    "applyUpdate sample_env ?pc ordered_app ?cur ?upd 0 [old_replica] [] sample_sys = Some ((st, None), u)" by metis
  have "p_deletion old_replica = None" using old_replica_simps by (simp add: settled_def)
  from pod_controller.delete_calls [OF this del]
  have "lifecycle (calls_between sample_sys u) = [CallPodDelete (p_namespace old_replica) (p_name old_replica)]"
    using adds_calls_between by metis
  then have "effect ordered_app (lifecycle (calls_between sample_sys u)) {old_replica} {}" by auto
  moreover have "distinct [old_replica] \<and> set [old_replica] = {old_replica}" by simp
  ultimately show ?thesis using run unfolding round_def by blast
qed

lemma remaining_old_replica: "remaining (sample_revision ''r2'' 2) 1 0 {old_replica} = 2"
proof -
  have old: "ordinal old_replica = 0" "getPodRevision old_replica = ''r1''" using old_replica_simps by simp_all
  then have "missing 1 {old_replica} = {}" "surplus_pods 1 {old_replica} = {}"
    "old_pods (sample_revision ''r2'' 2) 1 0 {old_replica} = {old_replica}"
    by (auto simp: missing_def surplus_pods_def old_pods_def sample_revision_def)
  then show ?thesis by (simp add: remaining_def)
qed

theorem rollout_converges_witness:
  "remaining (sample_revision ''r2'' 2) 1 0 {old_replica} = 2 \<and> remaining (sample_revision ''r2'' 2) 1 0 {} = 1"
proof -
  have "cluster ordered_app {old_replica}" using old_replica_steady by (simp add: cluster_def)
  moreover have "(round sample_env ordered_app (sample_revision ''r1'' 1) (sample_revision ''r2'' 2) ^^ 1) {old_replica} {}"
    using old_replica_round by (simp add: eq_OO)
  ultimately show ?thesis
    using rollout_converges [OF ordered_app_rolls_out] remaining_old_replica by fastforce
qed

end
