(* ===== verification/Rollout_Liveness.thy ===== *)
theory Rollout_Liveness
  imports Rollout
begin

text \<open>
  Roll-outs come to their end: when the API server grants what is asked for, every state of the
  cluster has a next round, so that the rounds that \<open>rollout_converges\<close> counts do take place.
\<close>

section \<open>An API server that grants what is asked for\<close>

text \<open>A claim exists and is not being deleted, or it is not there and can be created.\<close>

definition grants_claim :: "env \<Rightarrow> calls \<Rightarrow> pvc \<Rightarrow> bool" where
  "grants_claim env cs t =
     (case e_pvc_lister env cs (pvc_namespace t) (pvc_name t) of
        Inl e \<Rightarrow> e = ErrNotFound \<and> e_pvc_create env cs t = None
      | Inr c \<Rightarrow> pvc_deletion c = None)"

definition willing :: "env \<Rightarrow> bool" where
  "willing env \<longleftrightarrow>
     (\<forall>cs q. e_pod_create env cs q = None) \<and> (\<forall>cs ns name. e_pod_delete env cs ns name = None) \<and>
     (\<forall>cs t. grants_claim env cs t)"

lemma create_claims_granted: "willing env \<Longrightarrow> fst (create_claims env cs s) = None"
proof (induction env cs s rule: create_claims.induct)
  case (2 env k tmpl rest s)
  then have "grants_claim env (trace s) tmpl" by (simp add: willing_def)
  with 2 show ?case by (auto simp: grants_claim_def Let_def split: sum.splits)
qed simp

lemma create_granted:
  assumes "willing env" and "po_create (PodController env) app q s = Some (err, q', s')"
  shows "err = None"
proof -
  from assms(2) obtain e u where pvc: "createPVC env app q s = Some (e, u)"
    by (auto simp: PodController_def CreateStatefulPod_def bind_eq_Some_conv)
  then obtain cs where "create_claims env (e_range env (trace s) cs) s = (e, u)"
    by (auto simp: createPVC_def bind_eq_Some_conv)
  with create_claims_granted [OF assms(1), of "e_range env (trace s) cs" s] have "e = None" by simp
  with pvc assms show ?thesis
    by (simp add: PodController_def CreateStatefulPod_def willing_def Let_def)
qed

lemma delete_granted: "willing env \<Longrightarrow> fst (po_delete (PodController env) app p s) = None"
  by (simp add: PodController_def DeleteStatefulPod_def willing_def Let_def)

section \<open>A created pod can come up\<close>

text \<open>Restoring an App from a revision keeps what is not the template.\<close>

definition keeps_object :: "env \<Rightarrow> app \<Rightarrow> bool" where
  "keeps_object env app \<longleftrightarrow>
     restores_template_only env app \<and> (\<forall>r a. ApplyRevision env app r = Some (Inr a) \<longrightarrow> a_namespace a = a_namespace app)"

text \<open>What the kubelet makes of a pod: it runs and reports that it is ready.\<close>

definition started :: "pod \<Rightarrow> pod" where
  "started q = q\<lparr>p_phase := PodRunning, p_deletion := None,
     p_conditions := [\<lparr>pc_type = pod_ready, pc_status = ConditionTrue, pc_transition = 0, pc_reason = ''''\<rparr>]\<rparr>"

lemma started_simps [simp]:
  "GetPodAppNameAndOrdinal (started q) = GetPodAppNameAndOrdinal q"
  "p_name (started q) = p_name q" "p_namespace (started q) = p_namespace q" "p_labels (started q) = p_labels q"
  "p_volumes (started q) = p_volumes q"
  by (simp_all add: started_def GetPodAppNameAndOrdinal_def)

lemma relabelled_ordinal [simp]:
  "GetPodAppNameAndOrdinal (q\<lparr>p_labels := l\<rparr>) = GetPodAppNameAndOrdinal q"
  "GetPodAppNameAndOrdinal (q\<lparr>p_readiness_gates := g\<rparr>) = GetPodAppNameAndOrdinal q"
  by (simp_all add: GetPodAppNameAndOrdinal_def)

lemma match_cong:
  assumes "a_name a = a_name app" and "a_namespace a = a_namespace app"
    and "sp_claim_templates (a_spec a) = sp_claim_templates (a_spec app)"
  shows "matchAppAndPod a p = matchAppAndPod app p" and "matchAppPVC a p = matchAppPVC app p"
proof -
  have "getPVCOutName a t n = getPVCOutName app t n" "getPodOutName a n = getPodOutName app n" for t n
    using assms(1) by (simp_all add: getPVCOutName_def getPodOutName_def)
  with assms show "matchAppAndPod a p = matchAppAndPod app p" and "matchAppPVC a p = matchAppPVC app p"
    by (simp_all add: matchAppAndPod_def matchAppPVC_def cong: option.case_cong)
qed

lemma match_relabelled:
  "matchAppAndPod app (p\<lparr>p_labels := map_set (p_labels p) revision_label r\<rparr>) = matchAppAndPod app p"
  "matchAppPVC app (p\<lparr>p_labels := map_set (p_labels p) revision_label r\<rparr>) = matchAppPVC app p"
proof -
  have "label_pod_owner_app \<noteq> revision_label" by (simp add: label_pod_owner_app_def revision_label_def)
  then show "matchAppAndPod app (p\<lparr>p_labels := map_set (p_labels p) revision_label r\<rparr>) = matchAppAndPod app p"
    by (simp add: matchAppAndPod_def)
qed (simp add: matchAppPVC_def)

lemma made_member:
  assumes "made ft ord ca ua cur upd i q" and "visits_all ord" and "int i \<le> max_int64"
    and "\<And>a. a \<in> {ca, ua} \<Longrightarrow> a_name a = a_name app \<and> a_namespace a = a_namespace app \<and>
        sp_claim_templates (a_spec a) = sp_claim_templates (a_spec app)"
  shows "matchAppAndPod app q \<and> matchAppPVC app q"
proof -
  from assms(1) obtain a q0 r where q: "newAppPod ft ord a (int i) = Some q0" "a \<in> {ca, ua}"
    "q = q0\<lparr>p_labels := map_set (p_labels q0) revision_label r\<rparr>"
    by (auto simp: made_def newVersionedPodForApp_def bind_eq_Some_conv split: if_splits)
  from newAppPod_is_member [where n = "int i" and ord = ord and ft = ft and app = a] q(1) assms(2,3)
  have "matchAppAndPod a q0" "matchAppPVC a q0" by simp_all
  with match_cong [of a app] assms(4) [OF q(2)] show ?thesis by (simp add: q(3) match_relabelled)
qed

lemma can_come_up:
  assumes "matchAppAndPod app q" and "matchAppPVC app q"
  shows "\<exists>p. brings_up app (q\<lparr>p_readiness_gates := g\<rparr>) p"
proof (intro exI)
  let ?p = "started (q\<lparr>p_readiness_gates := g\<rparr>)"
  have "matchAppAndPod app ?p = matchAppAndPod app q" "matchAppPVC app ?p = matchAppPVC app q"
    by (simp_all add: matchAppAndPod_def matchAppPVC_def)
  with assms show "brings_up app (q\<lparr>p_readiness_gates := g\<rparr>) ?p"
    by (simp add: brings_up_def steady_def settled_def in_place_pending_def started_def getPodReady_def getPodRevision_def
        pod_ready_def in_place_update_ready_def)
qed

section \<open>There is always a next round\<close>

lemma effect_exists:
  "(\<And>q. CallPodCreate q \<in> set cs \<Longrightarrow> \<exists>p. brings_up app q p) \<Longrightarrow> \<exists>P'. effect app cs P P'"
proof (induction cs arbitrary: P)
  case (Cons c cs)
  have later: "\<exists>P'. effect app cs Q P'" for Q by (rule Cons.IH) (use Cons.prems in simp)
  show ?case
  proof (cases c)
    case (CallPodCreate q)
    with Cons.prems obtain p where "brings_up app q p" by auto
    with later [of "insert p P"] show ?thesis unfolding CallPodCreate by auto
  next
    case (CallPodDelete ns name)
    then show ?thesis using later by simp
  qed (use later in auto)
qed auto

text \<open>The setting: a spec the code can handle, and an outside that grants what is asked for.\<close>

definition granted :: "env \<Rightarrow> app \<Rightarrow> bool" where
  "granted env app \<longleftrightarrow> willing env \<and> range_visits_all env \<and> recreating_spec app \<and> keeps_object env app"

lemma made_comes_up:
  assumes "granted env app" and "applies env app cur upd umin ca ua" and "int i \<le> max_int64"
    and "made (e_from_template env) (e_range env (trace s)) ca ua (rev_name cur) (rev_name upd) i q"
  shows "\<exists>p. brings_up app (q\<lparr>p_readiness_gates := g\<rparr>) p"
proof -
  have ord: "visits_all (e_range env (trace s))" using assms(1) by (simp add: granted_def range_visits_all_def)
  have "a_name a = a_name app \<and> a_namespace a = a_namespace app \<and>
      sp_claim_templates (a_spec a) = sp_claim_templates (a_spec app)" if "a \<in> {ca, ua}" for a
    using that assms(1,2) by (auto simp: granted_def keeps_object_def restores_template_only_def applies_def)
  from made_member [OF assms(4) ord assms(3) this] show ?thesis by (blast intro: can_come_up)
qed

lemma rolls_out_set:
  assumes "rolls_out env app cur upd n umin"
  shows "\<not> burstable app" and "getMinReadySeconds app = 0" and "updates_on app umin" and "0 \<le> umin"
    and "\<not> in_place_allowed app"
  using assms by (simp_all add: rolls_out_def)

lemma granted_willing: "granted env app \<Longrightarrow> willing env"
  by (simp add: granted_def)

lemma creating_pass:
  assumes "rolls_out env app cur upd n umin" and "cluster app P" and "set pods = P" and "granted env app"
    and "applies env app cur upd umin ca ua" and "arrange_pods env app ca ua cur upd pods s = Some (replicas, bad)"
    and "manage_pods env (PodController env) app cur upd revs replicas bad status s = Some ((st, err), s')"
    and "missing n P \<noteq> {}"
  shows "err = None \<and> (\<forall>q. CallPodCreate q \<in> set (lifecycle (calls_between s s')) \<longrightarrow> (\<exists>p. brings_up app q p))"
proof -
  note set = rolls_out_set [OF assms(1)] and willing = granted_willing [OF assms(4)]
  from first_missing [OF assms(1-3,8,5,6)] obtain ps q rest
    where split: "replicas = map Some ps @ Some q # rest" and steady: "\<forall>p \<in> set ps. steady app p"
      and q: "p_phase q = PhaseUnset" "ordinal q = int (Min (missing n P))"
        "made (e_from_template env) (e_range env (trace s)) ca ua (rev_name cur) (rev_name upd) (Min (missing n P)) q" by metis
  note run = assms(7) [unfolded split]
  from manage_create [OF run set(1,2) steady q(1)] have err: "err = None" using create_granted [OF willing] by blast
  with progress_create [OF run set(1,2) steady q(1)]
  obtain c where c: "lifecycle (calls_between s s') = [c]" "creates q c" by auto
  then obtain g where "c = CallPodCreate (q\<lparr>p_readiness_gates := g\<rparr>)" by (auto simp: creates_def)
  moreover have "int (Min (missing n P)) \<le> max_int64" using q(2) ordinal_le_max [of q] by simp
  ultimately show ?thesis using err c(1) made_comes_up [OF assms(4,5) _ q(3)] by auto
qed

lemma removing_pass:
  assumes "rolls_out env app cur upd n umin" and "cluster app P" and "set pods = P" and "granted env app"
    and "applies env app cur upd umin ca ua" and "arrange_pods env app ca ua cur upd pods s = Some (replicas, bad)"
    and "manage_pods env (PodController env) app cur upd revs replicas bad status s = Some ((st, err), s')"
    and "missing n P = {}"
  shows "err = None \<and> (\<forall>q. CallPodCreate q \<in> set (lifecycle (calls_between s s')) \<longrightarrow> (\<exists>p. brings_up app q p))"
proof -
  note set = rolls_out_set [OF assms(1)] and willing = granted_willing [OF assms(4)]
  from full_slots [OF assms(1-3,8,5,6)] obtain ps where ps: "replicas = map Some ps" "set ps \<subseteq> P" .
  have steady: "\<forall>p \<in> set ps. steady app p" using ps(2) assms(2) by (auto simp: cluster_def)
  show ?thesis
  proof (cases bad)
    case Nil
    note run = assms(7) [unfolded ps(1) Nil]
    note rolled = manage_roll [OF run set(1,2) steady set(3-5)]
    have "err = None"
    proof (cases "outdated upd umin ps (length ps)")
      case (Cons t ts)
      obtain u where "po_delete (PodController env) app (ps ! t) s = (None, u)"
        using delete_granted [OF willing, of app "ps ! t" s] by (metis prod.collapse)
      with Cons rolled show ?thesis by (auto simp: recreate_pod_def)
    qed (use rolled in simp)
    with progress_roll [OF run set(1,2) steady set(3-5)] show ?thesis by (auto split: list.splits)
  next
    case (Cons b bs)
    note run = assms(7) [unfolded ps(1) Cons]
    have "b \<in> surplus_pods n P" using cluster_slots(4) [OF assms(1-3,5,6)] Cons by auto
    then have b: "getPodReady (Some b)" "p_deletion b = None"
      using assms(2) by (auto simp: surplus_pods_def cluster_def steady_def settled_def)
    from manage_scale_down [OF run set(1,2) steady b] delete_granted [OF willing, of app b s] have "err = None" by auto
    with progress_scale_down [OF run set(1,2) steady b] show ?thesis by auto
  qed
qed

lemma next_round:
  assumes "rolls_out env app cur upd n umin" and "cluster app P" and "granted env app"
  shows "\<exists>P'. round env app cur upd P P'"
proof -
  from assms(2) obtain pods where pods: "set pods = P" "distinct pods"
    using finite_distinct_list by (auto simp: cluster_def)
  fix collision revs s
  have "\<forall>p \<in> set pods. 0 \<le> ordinal p" using steady_name assms(2) pods(1) by (auto simp: cluster_def)
  moreover from assms(1) have "e_encode_app env app \<noteq> None"
    using ApplyRevision_panics [of env app cur] by (auto simp: rolls_out_def applies_def)
  ultimately have "applyUpdate env (PodController env) app cur upd collision pods revs s \<noteq> None"
    using assms(3) by (intro applyUpdate_never_panics) (simp_all add: granted_def keeps_object_def del: not_None_eq)
  then obtain st err s' where pass: "applyUpdate env (PodController env) app cur upd collision pods revs s = Some ((st, err), s')"
    by auto
  from applyUpdate_manages [OF assms(1) pass] obtain ca ua replicas bad status
    where run: "applies env app cur upd umin ca ua" "arrange_pods env app ca ua cur upd pods s = Some (replicas, bad)"
      "manage_pods env (PodController env) app cur upd revs replicas bad status s = Some ((st, err), s')" .
  have err: "err = None" and created: "CallPodCreate q \<in> set (lifecycle (calls_between s s')) \<Longrightarrow> \<exists>p. brings_up app q p" for q
    using creating_pass [OF assms(1,2) pods(1) assms(3) run] removing_pass [OF assms(1,2) pods(1) assms(3) run] by blast+
  from effect_exists [OF created] obtain P' where "effect app (lifecycle (calls_between s s')) P P'" by blast
  with pass err pods show ?thesis unfolding round_def by blast
qed

lemma next_rounds:
  assumes "rolls_out env app cur upd n umin" and "cluster app P" and "granted env app"
  shows "\<exists>P'. (round env app cur upd ^^ m) P P'"
proof (induction m)
  case (Suc m)
  then obtain Q where Q: "(round env app cur upd ^^ m) P Q" ..
  with rounds_progress [OF assms(1,2) Q] next_round [OF assms(1) _ assms(3), of Q] show ?case by auto
qed auto

section \<open>Properties\<close>

text \<open>
  C4.  Liveness of a roll-out: when the API server grants what is asked for, the rounds go on
  from every cluster of steady pods, whatever was created or deleted so far, and the round with the
  number \<open>remaining\<close> ends in a cluster that has exactly the specified ordinals, with the
  replicas at or above the partition at the update revision.
\<close>

theorem rollout_completes:
  assumes "rolls_out env app cur upd n umin" and "cluster app P" and "granted env app"
  shows "(\<forall>m Q. (round env app cur upd ^^ m) P Q \<longrightarrow> (\<exists>P'. round env app cur upd Q P')) \<and>
    (\<exists>P'. (round env app cur upd ^^ remaining upd n umin P) P P' \<and>
       ordinal ` P' = int ` {0..<n} \<and> (\<forall>p \<in> P'. umin \<le> ordinal p \<longrightarrow> getPodRevision p = rev_name upd))"
proof (intro conjI allI impI)
  fix m Q assume "(round env app cur upd ^^ m) P Q"
  from rounds_progress [OF assms(1,2) this] show "\<exists>P'. round env app cur upd Q P'"
    using next_round [OF assms(1) _ assms(3)] by blast
next
  from next_rounds [OF assms] obtain P' where P': "(round env app cur upd ^^ remaining upd n umin P) P P'" ..
  from rounds_progress [OF assms(1,2) P'] have "cluster app P'" "remaining upd n umin P' = 0" by simp_all
  with P' nothing_remains [of app P' upd n umin]
  show "\<exists>P'. (round env app cur upd ^^ remaining upd n umin P) P P' \<and>
       ordinal ` P' = int ` {0..<n} \<and> (\<forall>p \<in> P'. umin \<le> ordinal p \<longrightarrow> getPodRevision p = rev_name upd)" by blast
qed

definition ordered_env :: env where
  "ordered_env = sample_env\<lparr>e_unmarshal_app := (\<lambda>_. Inr ordered_app)\<rparr>"

lemma ordered_applies: "ApplyRevision ordered_env a r = Some (Inr ordered_app)"
  by (simp add: ApplyRevision_def ordered_env_def sample_env_def)

lemma ordered_env_rolls_out:
  "rolls_out ordered_env ordered_app (sample_revision ''r1'' 1) (sample_revision ''r2'' 2) 1 0"
proof -
  have "partition_at_most 0 ordered_app"
    by (simp add: partition_at_most_def ordered_app_def sample_app_def sample_rolling_def)
  moreover have "e_selector ordered_env l = Inr ''app=nginx''" "e_from_template ordered_env = e_from_template sample_env" for l
    by (simp_all add: ordered_env_def sample_env_def)
  ultimately show ?thesis using ordered_app_rolls_out by (simp add: rolls_out_def applies_def ordered_applies)
qed

lemma ordered_env_granted: "granted ordered_env ordered_app"
proof -
  have "recreating_spec ordered_app"
    by (simp add: recreating_spec_def claims_ready_def in_place_allowed_def ordered_app_def sample_app_def sample_rolling_def)
  moreover have "keeps_object ordered_env ordered_app"
    by (simp add: keeps_object_def restores_template_only_def ordered_applies)
  moreover have "willing ordered_env" by (simp add: willing_def grants_claim_def ordered_env_def sample_env_def)
  moreover have "range_visits_all ordered_env"
    by (simp add: range_visits_all_def visits_all_def ordered_env_def sample_env_def)
  ultimately show ?thesis by (simp add: granted_def)
qed

theorem rollout_completes_witness:
  "\<exists>P'. (round ordered_env ordered_app (sample_revision ''r1'' 1) (sample_revision ''r2'' 2) ^^ 2) {old_replica} P' \<and>
     ordinal ` P' = {0} \<and> (\<forall>p \<in> P'. 0 \<le> ordinal p \<longrightarrow> getPodRevision p = ''r2'')"
proof -
  have "cluster ordered_app {old_replica}" using old_replica_steady by (simp add: cluster_def)
  from rollout_completes [OF ordered_env_rolls_out this ordered_env_granted]
  obtain P' where "(round ordered_env ordered_app (sample_revision ''r1'' 1) (sample_revision ''r2'' 2) ^^ 2) {old_replica} P'"
    "ordinal ` P' = int ` {0..<1}" "\<forall>p \<in> P'. 0 \<le> ordinal p \<longrightarrow> getPodRevision p = rev_name (sample_revision ''r2'' 2)"
    unfolding remaining_old_replica by blast
  moreover have "rev_name (sample_revision ''r2'' 2) = ''r2''" by (simp add: sample_revision_def)
  ultimately show ?thesis by (intro exI [of _ P']) simp
qed

end
