(* ===== verification/Teardown.thy ===== *)
theory Teardown
  imports App_Reconciler Rollout_Liveness
begin

text \<open>
  How an App ends: the reconciler scales an App with a deletion timestamp to zero, the passes delete
  its pods one by one, and the finalizer goes when none is left.  A turn is one run of
  \<open>reconcile\_pods\<close> (the part of \<open>Reconcile\<close> after the pods were claimed) together with what the
  cluster makes of its calls: the pods, as in \<open>Rollout\<close>, and the App itself.
\<close>

section \<open>Writes of the App\<close>

fun app_writes :: "calls \<Rightarrow> app list" where
  "app_writes [] = []"
| "app_writes (CallAppUpdate a # cs) = a # app_writes cs"
| "app_writes (c # cs) = app_writes cs"

lemma app_writes_append [simp]: "app_writes (cs @ ds) = app_writes cs @ app_writes ds"
  by (induction cs rule: app_writes.induct) simp_all

lemma no_app_writes: "\<forall>c \<in> set cs. \<not> is_app_update c \<Longrightarrow> app_writes cs = []"
  by (induction cs rule: app_writes.induct) simp_all

text \<open>Calls that touch neither the life of a pod nor the App, its status apart.\<close>

definition minor :: "api_call \<Rightarrow> bool" where
  "minor c \<longleftrightarrow> \<not> is_lifecycle c \<and> \<not> is_app_update c"

lemma minor_simps [simp]:
  "minor (CallRevUpdate r n)" "minor (CallRevCreate r)" "minor (CallRevDelete r)" "minor (CallEvent e)"
  by (simp_all add: minor_def)

lemma minor_calls: "only minor s s' \<Longrightarrow> \<exists>cs. adds s s' cs \<and> lifecycle cs = [] \<and> app_writes cs = []"
  unfolding only_def minor_def lifecycle_def filter_empty_conv using no_app_writes by blast

lemma choose_revision_minor:
  assumes "choose_revision env app revisions s = Some (res, s')"
  shows "only minor s s'"
proof -
  have settle: "only minor s t" if "settle_revision env app revisions cr n s = (r, t)" for cr n r t
    using that by (auto simp: settle_revision_def Let_def split: if_splits intro!: only_log)
  from assms obtain n cand where "(case cand of Inl err \<Rightarrow> Some ((Inl err, n), s)
      | Inr cr \<Rightarrow> Some (settle_revision env app revisions cr n s)) = Some (res, s')"
    by (auto simp: choose_revision_def Let_def bind_eq_Some_conv)
  then show ?thesis by (cases cand) (auto dest: settle)
qed

lemma updateAppStatus_minor: "updateAppStatus env app status s = Some (err, s') \<Longrightarrow> only minor s s'"
proof -
  have "minor c" if "is_status_call st c" for st c using that by (cases c) (simp_all add: minor_def)
  then show "only minor s s'" if "updateAppStatus env app status s = Some (err, s')"
    using updateAppStatus_calls [OF that] only_mono by blast
qed

lemma delete_revisions_minor: "delete_revisions env rs s = Some (err, s') \<Longrightarrow> only minor s s'"
proof (induction env rs s rule: delete_revisions.induct)
  case (3 env r rs s)
  have "only minor s (log_call (CallRevDelete r) s)" by (rule only_log) simp_all
  with 3 show ?case by (auto simp: Let_def split: option.splits intro: only_trans)
qed auto

lemma truncateHistory_minor: "truncateHistory env app pods rs cur upd s = Some (err, s') \<Longrightarrow> only minor s s'"
  by (auto simp: truncateHistory_def Let_def bind_eq_Some_conv split: if_splits dest: delete_revisions_minor)

text \<open>A synchronisation without an error is one pass without an error, with minor calls around it.\<close>

lemma UpdateApp_succeeds:
  assumes "UpdateApp env pc (Some app) pods s = Some (None, s')"
  obtains cur upd n revs st t u where "only minor s t"
    and "applyUpdate env pc app cur upd n pods revs t = Some ((st, None), u)" and "only minor u s'"
proof -
  from assms obtain selector listed where sel: "e_selector env (sp_selector (a_spec app)) = Inr selector"
    and list: "e_rev_list env (trace s) app selector = Inr listed"
    by (auto simp: UpdateApp_def split: sum.splits)
  let ?revs = "e_rev_sort env listed"
  from assms sel list obtain chosen n t where "choose_revision env app ?revs s = Some ((chosen, n), t)"
    by (auto simp: UpdateApp_def Let_def bind_eq_Some_conv)
  with assms sel list obtain upd where choose: "choose_revision env app ?revs s = Some ((Inr upd, n), t)"
    and sync: "sync_revisions env pc app pods ?revs upd n t = Some (None, s')"
    by (cases chosen) (auto simp: UpdateApp_def Let_def)
  let ?cur = "current_revision app ?revs upd"
  from sync obtain st e1 u e2 v e3 where
    pass: "applyUpdate env pc app ?cur upd n pods ?revs t = Some ((st, e1), u)"
    and "updateAppStatus env app st u = Some (e2, v)"
    and "truncateHistory env app pods ?revs (Some ?cur) (Some upd) v = Some (e3, s')"
    and "e1 = None"
    by (auto simp: sync_revisions_def Let_def bind_eq_Some_conv split: option.splits)
  then have "only minor u s'" using updateAppStatus_minor truncateHistory_minor only_trans by blast
  with that choose_revision_minor [OF choose] pass \<open>e1 = None\<close> show ?thesis by blast
qed


section \<open>The pass over an App with no replicas\<close>

lemma delete_writes_no_app:
  assumes "po_delete (PodController env) app p s = (err, s')"
  shows "only (\<lambda>c. \<not> is_app_update c) s s'"
  using assms
  by (auto simp: PodController_def DeleteStatefulPod_def recordPodEvent_def Let_def
      split: if_splits option.splits intro!: only_log)

text \<open>The setting: an ordered App on its way out, whose strategy has all its fields.\<close>

definition deleted_app :: "app \<Rightarrow> bool" where
  "deleted_app app \<longleftrightarrow>
     a_deletion app \<noteq> None \<and> \<not> burstable app \<and> getMinReadySeconds app = 0 \<and> a_name app \<noteq> '''' \<and>
     \<not> (strategy app = RollingUpdateType \<and> fst (setDefaultRollingUpdateStrategy app))"

lemma pass_manages:
  assumes "applyUpdate env pc app cur upd n pods revs s = Some ((st, None), s')" and "deleted_app app"
  obtains ca ua replicas bad status where "arrange_pods env app ca ua cur upd pods s = Some (replicas, bad)"
    and "manage_pods env pc app cur upd revs replicas bad status s = Some ((st, None), s')"
proof -
  obtain x y where "setDefaultRollingUpdateStrategy app = (x, y)" by fastforce
  with assms that show ?thesis
    by (auto simp: applyUpdate_def deleted_app_def Let_def bind_eq_Some_conv split: option.splits sum.splits)
qed

text \<open>Without pods the pass does nothing; otherwise it deletes the pod with the highest ordinal.\<close>

lemma pass_deletes_top:
  assumes "applyUpdate env (PodController env) app cur upd n pods revs s = Some ((st, None), s')"
    and "deleted_app app" and "sp_replicas (a_spec app) = Some 0" and "cluster app P" and "set pods = P"
  shows "if P = {} then s' = s
    else \<exists>b \<in> P. (\<forall>p \<in> P. ordinal p \<le> ordinal b) \<and>
           lifecycle (calls_between s s') = [CallPodDelete (p_namespace b) (p_name b)] \<and>
           only (\<lambda>c. \<not> is_app_update c) s s'"
proof -
  from pass_manages [OF assms(1,2)] obtain ca ua replicas bad status
    where arrange: "arrange_pods env app ca ua cur upd pods s = Some (replicas, bad)"
      and run: "manage_pods env (PodController env) app cur upd revs replicas bad status s = Some ((st, None), s')" .
  from arrange_pods_made [OF arrange] assms(3) have len: "int (length replicas) = sint (0 :: int32)"
    and pos: "\<forall>p \<in> set pods. 0 \<le> ordinal p"
    and mset: "mset bad = mset (filter (\<lambda>p. sint (0 :: int32) \<le> ordinal p) pods)"
    and sorted: "sorted_wrt (\<lambda>p q. ordinal p \<ge> ordinal q) bad" by (metis option.inject)+
  from len have none: "replicas = map Some []" by simp
  from pos have "filter (\<lambda>p. sint (0 :: int32) \<le> ordinal p) pods = pods" by (simp add: filter_id_conv)
  with mset assms(5) have bad: "set bad = P" by (metis set_mset_mset)
  show ?thesis
  proof (cases bad)
    case Nil
    with run none assms(2) bad show ?thesis
      by (auto simp: manage_pods_def deleted_app_def Let_def simp del: not_None_eq split: if_splits)
  next
    case (Cons b bs)
    with bad have "b \<in> P" by auto
    with assms(4) have b: "getPodReady (Some b)" "p_deletion b = None" by (auto simp: cluster_def steady_def settled_def)
    note scaled = manage_scale_down [OF run [unfolded none Cons]] and life = progress_scale_down [OF run [unfolded none Cons]]
    from scaled b assms(2) obtain u where "po_delete (PodController env) app b s = (None, s')"
      by (auto simp: deleted_app_def)
    then have "only (\<lambda>c. \<not> is_app_update c) s s'" by (rule delete_writes_no_app)
    moreover have "lifecycle (calls_between s s') = [CallPodDelete (p_namespace b) (p_name b)]"
      using life b assms(2) by (simp add: deleted_app_def)
    moreover have "\<forall>p \<in> P. ordinal p \<le> ordinal b" using sorted bad Cons by auto
    ultimately show ?thesis using \<open>b \<in> P\<close> by auto
  qed
qed

section \<open>Turns\<close>

definition app_after :: "app \<Rightarrow> calls \<Rightarrow> app" where
  "app_after app cs = (case app_writes cs of [] \<Rightarrow> app | a # as \<Rightarrow> last (a # as))"

text \<open>The status of the App may have changed meanwhile; it is what the passes write.\<close>

definition turn :: "env \<Rightarrow> app \<times> pod set \<Rightarrow> app \<times> pod set \<Rightarrow> bool" where
  "turn env = (\<lambda>(app, P) (app', P').
     \<exists>pods s res s' st.
       distinct pods \<and> set pods = P \<and>
       reconcile_pods env (PodController env) app pods s = Some ((res, None), s') \<and>
       effect app (lifecycle (calls_between s s')) P P' \<and>
       app' = (app_after app (calls_between s s'))\<lparr>a_status := st\<rparr>)"

text \<open>The server accepts what is written to the App.\<close>

definition accepts_updates :: "env \<Rightarrow> bool" where
  "accepts_updates env \<longleftrightarrow> (\<forall>cs a. \<exists>b. e_app_put env cs a = Inr b)"

text \<open>The turns that are left: one to scale to zero, one for each pod, one for the finalizer.\<close>

definition turns_left :: "app \<Rightarrow> pod set \<Rightarrow> nat" where
  "turns_left app P =
     (if sp_replicas (a_spec app) = Some 0 then 0 else 1) + card P +
     (if app_finalizer \<in> set (a_finalizers app) then 1 else 0)"

definition leaving :: "app \<Rightarrow> pod set \<Rightarrow> bool" where
  "leaving app P \<longleftrightarrow> deleted_app app \<and> cluster app P \<and>
     (P \<noteq> {} \<or> sp_replicas (a_spec app) \<noteq> Some 0 \<longrightarrow> app_finalizer \<in> set (a_finalizers app))"

lemma accepted_write:
  assumes "write_app env a s = Some (err, s')" and "accepts_updates env"
  shows "adds s s' [CallAppUpdate a] \<and> err = None"
proof -
  from write_app_calls [OF assms(1)] obtain cs where cs: "adds s s' cs" by (auto simp: only_def)
  moreover obtain b where "e_app_put env (trace s) a = Inr b" using assms(2) unfolding accepts_updates_def by blast
  with write_app_first [OF assms(1)] have "calls_between s s' = [CallAppUpdate a]" "err = None" by auto
  ultimately show ?thesis by (simp add: adds_calls_between)
qed

text \<open>The first turn.\<close>

lemma turn_scales:
  assumes "reconcile_pods env pc app pods s = Some ((res, None), s')" and "accepts_updates env"
    and "a_deletion app \<noteq> None" and "sp_replicas (a_spec app) \<noteq> Some 0"
  shows "calls_between s s' = [CallAppUpdate (app\<lparr>a_spec := (a_spec app)\<lparr>sp_replicas := Some 0\<rparr>\<rparr>)]"
proof -
  from assms have "write_app env (app\<lparr>a_spec := (a_spec app)\<lparr>sp_replicas := Some 0\<rparr>\<rparr>) s = Some (None, s')"
    by (auto simp: reconcile_pods_def bind_eq_Some_conv)
  from accepted_write [OF this assms(2)] show ?thesis by (simp add: adds_calls_between)
qed

text \<open>The turns after it: a synchronisation, then the finalizer.\<close>

lemma turn_syncs:
  assumes "reconcile_pods env pc app pods s = Some ((res, None), s')"
    and "a_deletion app \<noteq> None" and "sp_replicas (a_spec app) = Some 0"
  obtains u where "sync_and_requeue env pc app pods s = Some ((res, None), u)"
    and "remove_finalizer env app pods u = Some s'"
  using assms by (auto simp: reconcile_pods_def bind_eq_Some_conv split: if_splits)

lemma sync_pass:
  assumes "sync_and_requeue env (PodController env) app pods s = Some ((res, None), u)"
    and "deleted_app app" and "sp_replicas (a_spec app) = Some 0" and "cluster app P" and "set pods = P"
  shows "\<exists>cs. adds s u cs \<and> app_writes cs = [] \<and>
    (if P = {} then lifecycle cs = []
     else \<exists>b \<in> P. (\<forall>p \<in> P. ordinal p \<le> ordinal b) \<and> lifecycle cs = [CallPodDelete (p_namespace b) (p_name b)])"
proof -
  from assms(1) obtain v q where v: "UpdateApp env (PodController env) (Some app) pods s = Some (None, v)"
    and u: "u = v\<lparr>requeue_store := q\<rparr>"
    by (auto simp: sync_and_requeue_def bind_eq_Some_conv split: option.splits prod.splits if_splits)
  from UpdateApp_succeeds [OF v] obtain cur upd n revs st t w where steps: "only minor s t"
    "applyUpdate env (PodController env) app cur upd n pods revs t = Some ((st, None), w)" "only minor w v" .
  from minor_calls [OF steps(1)] obtain c1 where c1: "adds s t c1" "lifecycle c1 = []" "app_writes c1 = []" by blast
  from minor_calls [OF steps(3)] obtain c3 where c3: "adds w v c3" "lifecycle c3 = []" "app_writes c3 = []" by blast
  note pass = pass_deletes_top [OF steps(2) assms(2-5)]
  have "\<exists>c2. adds t w c2 \<and> app_writes c2 = [] \<and> (if P = {} then lifecycle c2 = []
      else \<exists>b \<in> P. (\<forall>p \<in> P. ordinal p \<le> ordinal b) \<and> lifecycle c2 = [CallPodDelete (p_namespace b) (p_name b)])"
  proof (cases "P = {}")
    case True
    with pass show ?thesis by (intro exI [of _ "[]"]) (simp add: adds_refl)
  next
    case False
    with pass obtain c2 where "adds t w c2" "app_writes c2 = []" by (auto simp: only_def dest: no_app_writes)
    with False pass show ?thesis by (intro exI [of _ c2]) (auto dest: adds_calls_between)
  qed
  then obtain c2 where c2: "adds t w c2" "app_writes c2 = []" "if P = {} then lifecycle c2 = []
      else \<exists>b \<in> P. (\<forall>p \<in> P. ordinal p \<le> ordinal b) \<and> lifecycle c2 = [CallPodDelete (p_namespace b) (p_name b)]" by blast
  have "adds s u (c1 @ c2 @ c3)"
    using adds_trans [OF c1(1) adds_trans [OF c2(1) c3(1)]] by (simp add: u adds_def)
  with c1 c2 c3 show ?thesis by (intro exI [of _ "c1 @ c2 @ c3"]) (simp split: if_splits)
qed

text \<open>Neither the replicas nor the finalizers nor the status decide which pods are steady.\<close>

lemma cluster_cong:
  assumes "a_name a = a_name app" and "a_namespace a = a_namespace app"
    and "sp_claim_templates (a_spec a) = sp_claim_templates (a_spec app)"
  shows "cluster a P = cluster app P"
  using match_cong [OF assms] by (simp add: cluster_def steady_def)

lemma deleted_app_cong:
  assumes "a_spec a = (a_spec app)\<lparr>sp_replicas := n\<rparr>" and "a_deletion a = a_deletion app" and "a_name a = a_name app"
  shows "deleted_app a = deleted_app app"
proof -
  have "setDefaultRollingUpdateStrategy a = setDefaultRollingUpdateStrategy app"
    by (simp add: setDefaultRollingUpdateStrategy_def assms(1))
  with assms show ?thesis
    by (simp add: deleted_app_def burstable_def getMinReadySeconds_def)
qed

lemma remove_finalizer_accepted:
  assumes "remove_finalizer env app pods u = Some s'" and "accepts_updates env" and "a_name app \<noteq> ''''"
  shows "adds u s' (if pods = [] \<and> app_finalizer \<in> set (a_finalizers app)
    then [CallAppUpdate (app\<lparr>a_finalizers := filter (\<lambda>v. v \<noteq> app_finalizer) (a_finalizers app)\<rparr>)] else [])"
  using assms accepted_write [OF _ assms(2)]
  by (auto simp: remove_finalizer_def Let_def bind_eq_Some_conv list_ex_iff adds_refl split: if_splits)

text \<open>A turn over an App that is scaled to zero: its calls, and what they make of the cluster.\<close>

lemma turn_calls:
  assumes "reconcile_pods env (PodController env) app pods s = Some ((res, None), s')" and "accepts_updates env"
    and "leaving app P" and "sp_replicas (a_spec app) = Some 0" and "set pods = P"
  shows "\<exists>cs. calls_between s s' = cs @ (if P = {} \<and> app_finalizer \<in> set (a_finalizers app)
        then [CallAppUpdate (app\<lparr>a_finalizers := filter (\<lambda>v. v \<noteq> app_finalizer) (a_finalizers app)\<rparr>)] else []) \<and>
      app_writes cs = [] \<and> (if P = {} then lifecycle cs = []
        else \<exists>b \<in> P. (\<forall>p \<in> P. ordinal p \<le> ordinal b) \<and> lifecycle cs = [CallPodDelete (p_namespace b) (p_name b)])"
proof -
  from assms(3) have app: "deleted_app app" "cluster app P" by (simp_all add: leaving_def)
  then have "a_deletion app \<noteq> None" "a_name app \<noteq> ''''" by (auto simp: deleted_app_def)
  with turn_syncs [OF assms(1) _ assms(4)] obtain u where u: "sync_and_requeue env (PodController env) app pods s = Some ((res, None), u)"
    "remove_finalizer env app pods u = Some s'" by metis
  from sync_pass [OF u(1) app(1) assms(4) app(2) assms(5)] obtain cs where cs: "adds s u cs" "app_writes cs = []"
    "if P = {} then lifecycle cs = []
     else \<exists>b \<in> P. (\<forall>p \<in> P. ordinal p \<le> ordinal b) \<and> lifecycle cs = [CallPodDelete (p_namespace b) (p_name b)]" by blast
  have none: "pods = [] \<longleftrightarrow> P = {}" using assms(5) by auto
  note last = remove_finalizer_accepted [OF u(2) assms(2) \<open>a_name app \<noteq> ''''\<close>, unfolded none]
  show ?thesis using adds_calls_between [OF adds_trans [OF cs(1) last]] cs(2,3) by blast
qed

lemma turn_removes:
  assumes "reconcile_pods env (PodController env) app pods s = Some ((res, None), s')" and "accepts_updates env"
    and "leaving app P" and "sp_replicas (a_spec app) = Some 0" and "set pods = P"
    and "effect app (lifecycle (calls_between s s')) P P'"
  shows "if P = {} then P' = P \<and> app_after app (calls_between s s') =
        app\<lparr>a_finalizers := filter (\<lambda>v. v \<noteq> app_finalizer) (a_finalizers app)\<rparr>
    else app_after app (calls_between s s') = app \<and> (\<exists>b \<in> P. (\<forall>p \<in> P. ordinal p \<le> ordinal b) \<and> P' = P - {b})"
proof -
  from turn_calls [OF assms(1-5)] obtain cs where calls: "calls_between s s' = cs @ (if P = {} \<and> app_finalizer \<in> set (a_finalizers app)
      then [CallAppUpdate (app\<lparr>a_finalizers := filter (\<lambda>v. v \<noteq> app_finalizer) (a_finalizers app)\<rparr>)] else [])"
    and cs: "app_writes cs = []" "if P = {} then lifecycle cs = []
      else \<exists>b \<in> P. (\<forall>p \<in> P. ordinal p \<le> ordinal b) \<and> lifecycle cs = [CallPodDelete (p_namespace b) (p_name b)]" by blast
  have app: "cluster app P" using assms(3) by (simp add: leaving_def)
  show ?thesis
  proof (cases "P = {}")
    case True
    have "filter (\<lambda>v. v \<noteq> app_finalizer) (a_finalizers app) = a_finalizers app"
      if "app_finalizer \<notin> set (a_finalizers app)" using that by (auto simp: filter_id_conv)
    with True cs assms(6) show ?thesis by (simp add: calls app_after_def split: if_splits)
  next
    case False
    with cs(2) obtain b where b: "b \<in> P" "\<forall>p \<in> P. ordinal p \<le> ordinal b"
      "lifecycle cs = [CallPodDelete (p_namespace b) (p_name b)]" by auto
    with False assms(6) have "P' = P - {b}" by (simp add: calls delete_by_name [OF app, simplified])
    with False b cs(1) show ?thesis by (auto simp: calls app_after_def)
  qed
qed

text \<open>An App as it may be in later turns: another number of replicas, other finalizers, another status.\<close>

definition same_app :: "app \<Rightarrow> app \<Rightarrow> bool" where
  "same_app app a \<longleftrightarrow>
     (\<exists>n. a_spec a = (a_spec app)\<lparr>sp_replicas := n\<rparr>) \<and> a_deletion a = a_deletion app \<and>
     a_name a = a_name app \<and> a_namespace a = a_namespace app"

lemma leaving_cong:
  assumes "a_spec a = (a_spec app)\<lparr>sp_replicas := n\<rparr>" and "a_deletion a = a_deletion app"
    and "a_name a = a_name app" and "a_namespace a = a_namespace app"
  shows "deleted_app a = deleted_app app" and "cluster a P = cluster app P"
  using deleted_app_cong [OF assms(1-3)] cluster_cong [OF assms(3,4)] assms(1) by simp_all

text \<open>Every turn is progress, and only the pod at the top goes.\<close>

definition others :: "app \<Rightarrow> string list" where
  "others app = filter (\<lambda>v. v \<noteq> app_finalizer) (a_finalizers app)"

lemma turn_progress:
  assumes "turn env (app, P) (app', P')" and "leaving app P" and "accepts_updates env"
  shows "leaving app' P' \<and> turns_left app' P' = turns_left app P - 1 \<and> others app' = others app \<and> same_app app app' \<and>
    (P' = P \<or> (\<exists>b \<in> P. (\<forall>p \<in> P. ordinal p \<le> ordinal b) \<and> P' = P - {b}))"
proof -
  from assms(1) obtain pods s res s' st where t: "set pods = P"
    "reconcile_pods env (PodController env) app pods s = Some ((res, None), s')"
    "effect app (lifecycle (calls_between s s')) P P'" "app' = (app_after app (calls_between s s'))\<lparr>a_status := st\<rparr>"
    by (auto simp: turn_def)
  from assms(2) have app: "deleted_app app" "cluster app P" by (simp_all add: leaving_def)
  show ?thesis
  proof (cases "sp_replicas (a_spec app) = Some 0")
    case False
    from app(1) have "a_deletion app \<noteq> None" by (simp add: deleted_app_def)
    from turn_scales [OF t(2) assms(3) this False] t(3,4)
    have "P' = P" and app': "app' = app\<lparr>a_spec := (a_spec app)\<lparr>sp_replicas := Some 0\<rparr>, a_status := st\<rparr>"
      by (simp_all add: app_after_def)
    moreover have "deleted_app app'" "cluster app' P"
      using leaving_cong [of app' "Some 0" app] app by (simp_all add: app')
    moreover have "same_app app app'" by (auto simp: same_app_def app')
    ultimately show ?thesis using assms(2) False by (simp add: leaving_def turns_left_def others_def)
  next
    case zero: True
    note gone = turn_removes [OF t(2) assms(3,2) zero t(1,3)]
    show ?thesis
    proof (cases "P = {}")
      case True
      with gone t(4) have "P' = {}" and app': "app' = app\<lparr>a_finalizers := others app, a_status := st\<rparr>"
        by (simp_all add: others_def)
      moreover have "deleted_app app'" "cluster app' P"
        using leaving_cong [of app' "Some 0" app] app zero by (simp_all add: app')
      moreover have "same_app app app'" using zero by (auto simp: same_app_def app' intro: exI [of _ "Some 0"])
      ultimately show ?thesis using True zero by (simp add: leaving_def turns_left_def others_def)
    next
      case False
      with gone t(4) obtain b where b: "b \<in> P" "\<forall>p \<in> P. ordinal p \<le> ordinal b" "P' = P - {b}"
        and app': "app' = app\<lparr>a_status := st\<rparr>" by auto
      have "finite P" using app(2) by (simp add: cluster_def)
      from card_Suc_Diff1 [OF this b(1)] have "Suc (card (P - {b})) = card P" .
      moreover have "deleted_app app'" "cluster app' P"
        using leaving_cong [of app' "Some 0" app] app zero by (simp_all add: app')
      moreover from this(2) have "cluster app' (P - {b})" by (auto simp: cluster_def inj_on_def)
      moreover have "same_app app app'" using zero by (auto simp: same_app_def app' intro: exI [of _ "Some 0"])
      ultimately show ?thesis using b False zero assms(2) app' by (auto simp: leaving_def turns_left_def others_def)
    qed
  qed
qed

lemma same_app_trans: "same_app app a \<Longrightarrow> same_app a b \<Longrightarrow> same_app app b"
  by (auto simp: same_app_def)

lemma turns_progress:
  assumes "(turn env ^^ m) (app, P) (app', P')" and "leaving app P" and "accepts_updates env"
  shows "leaving app' P' \<and> turns_left app' P' = turns_left app P - m \<and> others app' = others app \<and> same_app app app' \<and>
    P' \<subseteq> P \<and> (\<forall>p \<in> P - P'. \<forall>q \<in> P'. ordinal q \<le> ordinal p)"
  using assms(1)
proof (induction m arbitrary: app' P')
  case 0
  have "same_app app app" by (auto simp: same_app_def intro: exI [of _ "sp_replicas (a_spec app)"])
  with 0 assms(2) show ?case by simp
next
  case (Suc m)
  then obtain a Q where Q: "(turn env ^^ m) (app, P) (a, Q)" "turn env (a, Q) (app', P')" by auto
  note before = Suc.IH [OF Q(1)]
  note new = turn_progress [OF Q(2) conjunct1 [OF before] assms(3)]
  from new have sub: "P' \<subseteq> Q" and top: "\<forall>p \<in> Q - P'. \<forall>q \<in> P'. ordinal q \<le> ordinal p" by auto
  with before have "P' \<subseteq> P" "\<forall>p \<in> P - P'. \<forall>q \<in> P'. ordinal q \<le> ordinal p" by blast+
  moreover have "same_app app app'" using before new same_app_trans by blast
  ultimately show ?case using before new by simp
qed

section \<open>There is always a next turn\<close>

text \<open>
  The outside grants what is asked for: pods are deleted, the App and its status are stored, and the
  revisions of the App can be listed, made, stored, applied and deleted.
\<close>

definition grants_history :: "env \<Rightarrow> bool" where
  "grants_history env \<longleftrightarrow>
     (\<forall>cs a sel. \<exists>rs. e_rev_list env cs a sel = Inr rs) \<and> (\<forall>cs r. e_rev_delete env cs r = None) \<and>
     (\<forall>cs r n. \<exists>r'. e_rev_update env cs r n = Inr r') \<and> (\<forall>cs a r n. \<exists>r'. fst (e_rev_create env cs a r n) = Inr r')"

definition grants_revision :: "env \<Rightarrow> app \<Rightarrow> bool" where
  "grants_revision env a \<longleftrightarrow>
     (\<exists>data. getAppPatch env a = Some (Inr data)) \<and> (\<forall>labels data id n. \<exists>r. e_rev_new env a labels data id n = Inr r) \<and>
     (\<forall>r. \<exists>b. ApplyRevision env a r = Some (Inr b)) \<and> (\<exists>sel. e_selector env (sp_selector (a_spec a)) = Inr sel)"

definition grants_deletion :: "env \<Rightarrow> app \<Rightarrow> bool" where
  "grants_deletion env app \<longleftrightarrow>
     willing env \<and> accepts_updates env \<and> (\<forall>cs a. \<exists>b. e_app_put_status env cs a = Inr b) \<and> grants_history env \<and>
     (\<forall>a. same_app app a \<and> sp_replicas (a_spec a) = Some 0 \<longrightarrow> reconcilable env a \<and> grants_revision env a)"

lemma status_accepted:
  assumes "\<forall>cs a. \<exists>b. e_app_put_status env cs a = Inr b" and "updateAppStatus env app st s = Some (err, s')"
  shows "err = None"
proof -
  have "retry_loop again n (put_status env st') (app, s) = Some (e, x) \<Longrightarrow> e = None" for again n st' e x
  proof -
    obtain b where "e_app_put_status env (trace s) (app\<lparr>a_status := st'\<rparr>) = Inr b" using assms(1) by blast
    then show "retry_loop again n (put_status env st') (app, s) = Some (e, x) \<Longrightarrow> e = None"
      by (cases n) (auto simp: put_status_def app_UpdateStatus_def Let_def)
  qed
  with assms(2) show ?thesis
    by (auto simp: updateAppStatus_def retry_on_conflict_def Let_def bind_eq_Some_conv split: if_splits)
qed

lemma history_deleted:
  assumes "grants_history env" and "delete_revisions env rs s = Some (err, s')"
  shows "err = None"
  using assms
proof (induction env rs s rule: delete_revisions.induct)
  case (3 env r rs s)
  then have "e_rev_delete env (trace s) r = None" by (simp add: grants_history_def)
  with 3 show ?case by simp
qed auto


lemma revision_chosen:
  assumes "grants_history env" and "grants_revision env a" and "choose_revision env a revs s = Some ((chosen, n), t)"
  shows "\<exists>upd. chosen = Inr upd"
proof -
  have new: "\<exists>cr. new_candidate env a revs k = Some (Inr cr)" for k
  proof -
    obtain data where "getAppPatch env a = Some (Inr data)" using assms(2) by (auto simp: grants_revision_def)
    moreover obtain r where "e_rev_new env a (tm_labels (sp_template (a_spec a))) data (next_revision_id revs) k = Inr r"
      using assms(2) unfolding grants_revision_def by blast
    ultimately show ?thesis by (simp add: new_candidate_def)
  qed
  have settled: "\<exists>upd k' u. settle_revision env a revs cr k s = ((Inr upd, k'), u)" for cr k
  proof -
    obtain r1 where "e_rev_update env (trace s) (last (e_rev_find env revs cr)) (rev_revision cr) = Inr r1"
      using assms(1) unfolding grants_history_def by blast
    moreover obtain r2 k' where "e_rev_create env (trace s) a cr k = (Inr r2, k')"
      using assms(1) unfolding grants_history_def by (metis prod.collapse)
    ultimately show ?thesis by (auto simp: settle_revision_def Let_def)
  qed
  let ?k = "case st_collision_count (a_status a) of None \<Rightarrow> 0 | Some n \<Rightarrow> n"
  obtain cr upd k' u where "new_candidate env a revs ?k = Some (Inr cr)" "settle_revision env a revs cr ?k s = ((Inr upd, k'), u)"
    using new settled by metis
  with assms(3) show ?thesis by (auto simp: choose_revision_def Let_def)
qed

lemma pass_granted:
  assumes "applyUpdate env (PodController env) a cur upd n pods revs s = Some ((st, err), s')"
    and "leaving a P" and "sp_replicas (a_spec a) = Some 0" and "set pods = P"
    and "willing env" and "grants_revision env a"
  shows "err = None"
proof -
  from assms(2) have a: "deleted_app a" "cluster a P" by (simp_all add: leaving_def)
  obtain sel ca ua where "e_selector env (sp_selector (a_spec a)) = Inr sel" "ApplyRevision env a cur = Some (Inr ca)"
    "ApplyRevision env a upd = Some (Inr ua)" using assms(6) unfolding grants_revision_def by metis
  moreover obtain x y where "setDefaultRollingUpdateStrategy a = (x, y)" by fastforce
  ultimately obtain replicas bad status where arrange: "arrange_pods env a ca ua cur upd pods s = Some (replicas, bad)"
    and run: "manage_pods env (PodController env) a cur upd revs replicas bad status s = Some ((st, err), s')"
    using assms(1) a(1) by (auto simp: applyUpdate_def deleted_app_def Let_def bind_eq_Some_conv)
  from arrange_pods_made [OF arrange] assms(3) have len: "int (length replicas) = sint (0 :: int32)"
    and mset: "mset bad = mset (filter (\<lambda>p. sint (0 :: int32) \<le> ordinal p) pods)" by (metis option.inject)+
  from len have none: "replicas = map Some []" by simp
  from mset assms(4) have bad: "set bad \<subseteq> P" by (metis filter_is_subset set_mset_mset)
  show ?thesis
  proof (cases bad)
    case Nil
    with run none a(1) show ?thesis
      by (auto simp: manage_pods_def deleted_app_def Let_def simp del: not_None_eq split: if_splits)
  next
    case (Cons b bs)
    with bad a(2) have "getPodReady (Some b)" "p_deletion b = None" by (auto simp: cluster_def steady_def settled_def)
    with manage_scale_down [OF run [unfolded none Cons]] a(1) delete_granted [OF assms(5), of a b s]
    show ?thesis by (auto simp: deleted_app_def)
  qed
qed

lemma sync_granted:
  assumes "grants_deletion env app" and "same_app app a" and "leaving a P" and "sp_replicas (a_spec a) = Some 0"
    and "set pods = P"
  shows "\<exists>s'. UpdateApp env (PodController env) (Some a) pods s = Some (None, s')"
proof -
  from assms(1,2,4) have grants: "willing env" "grants_history env" "reconcilable env a" "grants_revision env a"
    "\<forall>cs b. \<exists>c. e_app_put_status env cs b = Inr c" by (simp_all add: grants_deletion_def)
  have "\<forall>p \<in> set pods. 0 \<le> ordinal p" using assms(3,5) steady_name by (auto simp: leaving_def cluster_def)
  from UpdateApp_total [OF grants(3) this] obtain err s' where
    run: "UpdateApp env (PodController env) (Some a) pods s = Some (err, s')" by fastforce
  obtain sel listed where sel: "e_selector env (sp_selector (a_spec a)) = Inr sel" "e_rev_list env (trace s) a sel = Inr listed"
    using grants(2,4) unfolding grants_revision_def grants_history_def by metis
  let ?revs = "e_rev_sort env listed"
  from run sel obtain chosen n t where choose: "choose_revision env a ?revs s = Some ((chosen, n), t)"
    by (auto simp: UpdateApp_def Let_def bind_eq_Some_conv)
  from revision_chosen [OF grants(2,4) this] obtain upd where "chosen = Inr upd" by blast
  with run sel choose have "sync_revisions env (PodController env) a pods ?revs upd n t = Some (err, s')"
    by (simp add: UpdateApp_def Let_def)
  then obtain st e1 u e2 v e3 where
    "applyUpdate env (PodController env) a (current_revision a ?revs upd) upd n pods ?revs t = Some ((st, e1), u)"
    "updateAppStatus env a st u = Some (e2, v)"
    "truncateHistory env a pods ?revs (Some (current_revision a ?revs upd)) (Some upd) v = Some (e3, s')"
    "err = (case (case e1 of Some e \<Rightarrow> Some e | None \<Rightarrow> e2) of Some e \<Rightarrow> Some e | None \<Rightarrow> e3)"
    by (auto simp: sync_revisions_def Let_def bind_eq_Some_conv)
  moreover from this have "e1 = None" "e2 = None" "e3 = None"
    using pass_granted [OF _ assms(3-5) grants(1,4)] status_accepted [OF grants(5)] history_deleted [OF grants(2)]
    by (auto simp: truncateHistory_def Let_def bind_eq_Some_conv split: if_splits)
  ultimately show ?thesis using run by simp
qed

lemma turn_made:
  assumes "cluster a P"
    and "\<And>pods s. set pods = P \<Longrightarrow> \<exists>res s' Q. reconcile_pods env (PodController env) a pods s = Some ((res, None), s') \<and>
        effect a (lifecycle (calls_between s s')) P Q"
  shows "\<exists>next. turn env (a, P) next"
proof -
  from assms(1) obtain pods where pods: "set pods = P" "distinct pods"
    using finite_distinct_list by (auto simp: cluster_def)
  fix s st
  from assms(2) [OF pods(1), of s] obtain res s' Q
    where "reconcile_pods env (PodController env) a pods s = Some ((res, None), s')"
      "effect a (lifecycle (calls_between s s')) P Q" by blast
  with pods have "turn env (a, P) ((app_after a (calls_between s s'))\<lparr>a_status := st\<rparr>, Q)"
    unfolding turn_def by blast
  then show ?thesis by blast
qed

lemma next_turn:
  assumes "grants_deletion env app" and "same_app app a" and "leaving a P"
  shows "\<exists>next. turn env (a, P) next"
proof (rule turn_made)
  show cluster: "cluster a P" using assms(3) by (simp add: leaving_def)
  fix pods :: "pod list" and s
  assume pods: "set pods = P"
  have accepts: "accepts_updates env" using assms(1) by (simp add: grants_deletion_def)
  have del: "a_deletion a \<noteq> None" using assms(3) by (simp add: leaving_def deleted_app_def)
  show "\<exists>res s' Q. reconcile_pods env (PodController env) a pods s = Some ((res, None), s') \<and>
      effect a (lifecycle (calls_between s s')) P Q"
  proof (cases "sp_replicas (a_spec a) = Some 0")
    case False
    obtain e u where w: "write_app env (a\<lparr>a_spec := (a_spec a)\<lparr>sp_replicas := Some 0\<rparr>\<rparr>) s = Some (e, u)"
      using write_app_total by fastforce
    with accepted_write [OF w accepts] False del
    have "reconcile_pods env (PodController env) a pods s = Some ((no_requeue, None), u)"
      by (auto simp: reconcile_pods_def simp del: not_None_eq)
    moreover from turn_scales [OF this accepts del False] have "effect a (lifecycle (calls_between s u)) P P" by simp
    ultimately show ?thesis by blast
  next
    case True
    from sync_granted [OF assms True pods] obtain v where "UpdateApp env (PodController env) (Some a) pods s = Some (None, v)"
      by blast
    then have "\<exists>res u. sync_and_requeue env (PodController env) a pods s = Some ((res, None), u)"
      by (simp add: sync_and_requeue_def split: prod.split)
    then obtain res u where "sync_and_requeue env (PodController env) a pods s = Some ((res, None), u)" by blast
    moreover obtain s' where "remove_finalizer env a pods u = Some s'"
    proof -
      obtain e x where "write_app env (a\<lparr>a_finalizers := filter (\<lambda>v. v \<noteq> app_finalizer) (a_finalizers a)\<rparr>) u = Some (e, x)"
        using write_app_total by fastforce
      then have "remove_finalizer env a pods u \<noteq> None" by (simp add: remove_finalizer_def Let_def del: not_None_eq)
      with that show ?thesis by blast
    qed
    ultimately have run: "reconcile_pods env (PodController env) a pods s = Some ((res, None), s')"
      using True del by (simp add: reconcile_pods_def del: not_None_eq)
    from turn_calls [OF run accepts assms(3) True pods]
    have "\<not> (\<exists>q. CallPodCreate q \<in> set (lifecycle (calls_between s s')))" by (auto split: if_splits)
    with effect_exists [of "lifecycle (calls_between s s')" a P] run show ?thesis by blast
  qed
qed

lemma next_turns:
  assumes "grants_deletion env app" and "leaving app P"
  shows "\<exists>a Q. (turn env ^^ m) (app, P) (a, Q)"
proof (induction m)
  case (Suc m)
  then obtain a Q where Q: "(turn env ^^ m) (app, P) (a, Q)" by blast
  have "accepts_updates env" using assms(1) by (simp add: grants_deletion_def)
  from turns_progress [OF Q assms(2) this] next_turn [OF assms(1), of a Q] Q show ?case by fastforce
qed auto

section \<open>Properties\<close>

text \<open>
  C6.  The end of an App: from any cluster of steady pods, every turn without an error takes one of the
  steps that are left (one to scale to zero, one for each pod, one for the finalizer), so that after
  their number there is no pod, and the finalizer is gone; before that the finalizer protects every pod that
  is left, pods go from the highest ordinal down, and the other finalizers stay.
\<close>

theorem deletion_completes:
  assumes "(turn env ^^ m) (app, P) (app', P')" and "leaving app P" and "accepts_updates env"
  shows "turns_left app' P' = turns_left app P - m \<and>
    (turns_left app P \<le> m \<longrightarrow> P' = {} \<and> app_finalizer \<notin> set (a_finalizers app')) \<and>
    (P' \<noteq> {} \<longrightarrow> app_finalizer \<in> set (a_finalizers app')) \<and>
    P' \<subseteq> P \<and> (\<forall>p \<in> P - P'. \<forall>q \<in> P'. ordinal q \<le> ordinal p) \<and>
    filter (\<lambda>v. v \<noteq> app_finalizer) (a_finalizers app') = filter (\<lambda>v. v \<noteq> app_finalizer) (a_finalizers app)"
proof -
  note turned = turns_progress [OF assms]
  have "P' = {} \<and> app_finalizer \<notin> set (a_finalizers app')" if "turns_left app' P' = 0"
    using that turned by (auto simp: turns_left_def leaving_def cluster_def split: if_splits)
  with turned show ?thesis by (auto simp: leaving_def others_def)
qed

text \<open>An App with one pod, of which the first turn scales the replicas.\<close>

definition leaving_app :: app where
  "leaving_app = ordered_app\<lparr>a_deletion := Some 5, a_finalizers := [app_finalizer, ''other'']\<rparr>"

lemma leaving_app_simps [simp]:
  "a_spec leaving_app = a_spec ordered_app" "a_name leaving_app = a_name ordered_app"
  "a_namespace leaving_app = a_namespace ordered_app" "a_deletion leaving_app = Some 5"
  "a_finalizers leaving_app = [app_finalizer, ''other'']"
  by (simp_all add: leaving_app_def)

lemma leaving_app_leaves: "leaving leaving_app {old_replica}"
proof -
  have "setDefaultRollingUpdateStrategy leaving_app = setDefaultRollingUpdateStrategy ordered_app"
    "getMinReadySeconds leaving_app = getMinReadySeconds ordered_app" "burstable leaving_app = burstable ordered_app"
    by (simp_all add: setDefaultRollingUpdateStrategy_def getMinReadySeconds_def burstable_def)
  moreover have "a_name ordered_app \<noteq> ''''" by (simp add: ordered_app_def sample_app_def)
  ultimately have "deleted_app leaving_app" by (simp add: deleted_app_def ordered_app_simps)
  moreover have "cluster leaving_app {old_replica} = cluster ordered_app {old_replica}" by (rule cluster_cong) simp_all
  ultimately show ?thesis using old_replica_steady by (simp add: leaving_def cluster_def)
qed

lemma leaving_app_turn: "\<exists>app'. turn sample_env (leaving_app, {old_replica}) (app', {old_replica})"
proof -
  let ?a = "leaving_app\<lparr>a_spec := (a_spec leaving_app)\<lparr>sp_replicas := Some 0\<rparr>\<rparr>"
  obtain e u where w: "write_app sample_env ?a sample_sys = Some (e, u)" using write_app_total by fastforce
  with accepted_write [OF w] have "e = None" "calls_between sample_sys u = [CallAppUpdate ?a]"
    by (auto simp: accepts_updates_def sample_env_def dest: adds_calls_between)
  moreover from this w have "reconcile_pods sample_env (PodController sample_env) leaving_app [old_replica] sample_sys =
      Some ((no_requeue, None), u)" by (simp add: reconcile_pods_def ordered_app_simps)
  ultimately have "turn sample_env (leaving_app, {old_replica}) (?a\<lparr>a_status := a_status ?a\<rparr>, {old_replica})"
    unfolding turn_def prod.case
    by (intro exI [of _ "[old_replica]"] exI [of _ sample_sys] exI [of _ no_requeue] exI [of _ u] exI [of _ "a_status ?a"])
      (simp add: app_after_def)
  then show ?thesis by blast
qed

theorem deletion_completes_witness:
  "\<exists>app'. turn sample_env (leaving_app, {old_replica}) (app', {old_replica}) \<and>
     turns_left app' {old_replica} = 2 \<and> app_finalizer \<in> set (a_finalizers app')"
proof -
  from leaving_app_turn obtain app' where turn: "turn sample_env (leaving_app, {old_replica}) (app', {old_replica})" ..
  then have "(turn sample_env ^^ 1) (leaving_app, {old_replica}) (app', {old_replica})" by (simp add: eq_OO)
  moreover have "accepts_updates sample_env" by (simp add: accepts_updates_def sample_env_def)
  ultimately have "turns_left app' {old_replica} = turns_left leaving_app {old_replica} - 1 \<and>
      app_finalizer \<in> set (a_finalizers app')"
    using deletion_completes [OF _ leaving_app_leaves] by blast
  moreover have "turns_left leaving_app {old_replica} = 3" by (simp add: turns_left_def ordered_app_simps)
  ultimately show ?thesis using turn by auto
qed

text \<open>
  C7.  Liveness of a deletion: when the API server grants what is asked for, there is a next turn after every turn,
  and the turn with the number \<open>turns\_left\<close> leaves no pod and no finalizer of the operator.
\<close>

theorem deletion_goes_on:
  assumes "grants_deletion env app" and "leaving app P"
  shows "(\<forall>m a Q. (turn env ^^ m) (app, P) (a, Q) \<longrightarrow> (\<exists>next. turn env (a, Q) next)) \<and>
    (\<exists>app'. (turn env ^^ turns_left app P) (app, P) (app', {}) \<and> app_finalizer \<notin> set (a_finalizers app'))"
proof (intro conjI allI impI)
  have accepts: "accepts_updates env" using assms(1) by (simp add: grants_deletion_def)
  show "\<exists>next. turn env (a, Q) next" if "(turn env ^^ m) (app, P) (a, Q)" for m a Q
    using turns_progress [OF that assms(2) accepts] next_turn [OF assms(1), of a Q] by blast
  obtain a Q where Q: "(turn env ^^ turns_left app P) (app, P) (a, Q)" using next_turns [OF assms] by blast
  with turns_progress [OF Q assms(2) accepts]
  show "\<exists>app'. (turn env ^^ turns_left app P) (app, P) (app', {}) \<and> app_finalizer \<notin> set (a_finalizers app')"
    by (auto simp: turns_left_def leaving_def cluster_def split: if_splits)
qed

lemma ordered_env_grants: "grants_deletion ordered_env leaving_app"
proof -
  have "reconcilable ordered_env a \<and> grants_revision ordered_env a"
    if "same_app leaving_app a" "sp_replicas (a_spec a) = Some 0" for a
  proof -
    have "ApplyRevision ordered_env a r = Some (Inr ordered_app)" for r
      by (simp add: ApplyRevision_def ordered_env_def sample_env_def)
    moreover from that(1) have "a_name a = a_name sample_app"
      by (simp_all add: same_app_def ordered_app_simps)
    moreover from that obtain n where "a_spec a = (a_spec ordered_app)\<lparr>sp_replicas := n\<rparr>" "n = Some 0"
      by (auto simp: same_app_def)
    ultimately show ?thesis
      by (auto simp: reconcilable_def grants_revision_def recreating_spec_def claims_ready_def in_place_allowed_def
          history_limit_def restores_template_only_def getAppPatch_def json_field_def ordered_app_def sample_app_def
          sample_rolling_def ordered_env_def sample_env_def)
  qed
  moreover have "willing ordered_env" using ordered_env_granted by (simp add: granted_def)
  moreover have "accepts_updates ordered_env" "grants_history ordered_env"
    "\<forall>cs a. \<exists>b. e_app_put_status ordered_env cs a = Inr b"
    by (simp_all add: accepts_updates_def grants_history_def ordered_env_def sample_env_def)
  ultimately show ?thesis by (simp add: grants_deletion_def)
qed

theorem deletion_goes_on_witness:
  "\<exists>app'. (turn ordered_env ^^ 3) (leaving_app, {old_replica}) (app', {}) \<and> app_finalizer \<notin> set (a_finalizers app')"
proof -
  have "turns_left leaving_app {old_replica} = 3" by (simp add: turns_left_def ordered_app_simps)
  with deletion_goes_on [OF ordered_env_grants leaving_app_leaves] show ?thesis by metis
qed

end
