(* ===== verification/Type_Registry.thy ===== *)
theory Type_Registry
  imports Fake_Client Informer_Factory Program_Start
begin

text \<open>
  The registration of the types of the API group with schemes, and the fake client set:
  \<open>api/deployer/v1/groupversion\_info.go\<close> and the \<open>init\<close> functions of its types,
  \<open>pkg/generated/clientset/versioned/scheme/register.go\<close>, \<open>fake/register.go\<close>,
  \<open>fake/clientset\_generated.go\<close>, \<open>typed/deployer/v1/fake/fake\_deployer\_client.go\<close>, and the \<open>init\<close>
  of \<open>cmd/main.go\<close>.  Schemes, object trackers and the chain of reactors are library objects:
  what adding types to a scheme does, and how a tracker answers, are parameters.

  The packages \<open>fake\<close> are modelled as they are written and no theorem claims that they work:
  \<open>fake\_deployer\_client.go\<close> uses the type \<open>FakeImageLists\<close>, which is declared nowhere, so that it
  and the fake client set over it do not compile.  What is shown of \<open>fake/register.go\<close> holds of its
  text, and of a build once the missing type is there.
\<close>

section \<open>The group and its types\<close>

type_synonym group_version = "string \<times> string"

definition GroupVersion :: group_version where
  "GroupVersion = (''unicore.mcyou.cn'', ''v1'')"

definition SchemeGroupVersion :: group_version where
  "SchemeGroupVersion = GroupVersion"

definition Resource :: "string \<Rightarrow> string \<times> string" where
  "Resource resource = (fst SchemeGroupVersion, resource)"

text \<open>\<open>SchemeBuilder\<close>: its group version and the lists of types it was given.\<close>

record scheme_builder =
  sb_group_version :: group_version
  sb_registered :: "string list list"

definition builder_Register :: "string list \<Rightarrow> scheme_builder \<Rightarrow> scheme_builder" where
  "builder_Register types b = b\<lparr>sb_registered := sb_registered b @ [types]\<rparr>"

definition app_types_init :: "scheme_builder \<Rightarrow> scheme_builder" where
  "app_types_init = builder_Register [''App'', ''AppList'']"

definition deployer_types_init :: "scheme_builder \<Rightarrow> scheme_builder" where
  "deployer_types_init = builder_Register [''Deployer'', ''DeployerList'']"

definition imagelist_types_init :: "scheme_builder \<Rightarrow> scheme_builder" where
  "imagelist_types_init = builder_Register [''ImageList'', ''ImageListList'']"

text \<open>The builder of the package: its variable, then the \<open>init\<close> functions in the order of the files.\<close>

definition SchemeBuilder :: scheme_builder where
  "SchemeBuilder =
     imagelist_types_init (deployer_types_init (app_types_init \<lparr>sb_group_version = GroupVersion, sb_registered = []\<rparr>))"

section \<open>Schemes\<close>

text \<open>
  What the program uses of schemes: \<open>AddToScheme\<close> of a builder, \<open>AddToGroupVersion\<close>, the
  \<open>AddToScheme\<close> of the Kubernetes types, \<open>AddUnversionedTypes\<close>, and the group version of the
  package of common types.
\<close>

record 's scheme_library =
  sl_new :: 's
  sl_add :: "scheme_builder \<Rightarrow> 's \<Rightarrow> go_error + 's"
  sl_add_group_version :: "group_version \<Rightarrow> 's \<Rightarrow> 's"
  sl_add_kubernetes :: "'s \<Rightarrow> go_error + 's"
  sl_add_unversioned :: "group_version \<Rightarrow> string list \<Rightarrow> 's \<Rightarrow> 's"
  sl_meta_group_version :: group_version

text \<open>\<open>AddToScheme\<close> of the API package.\<close>

definition unicore_AddToScheme :: "'s scheme_library \<Rightarrow> 's \<Rightarrow> go_error + 's" where
  "unicore_AddToScheme lib s = sl_add lib SchemeBuilder s"

text \<open>
  A \<open>runtime.SchemeBuilder\<close> is a list of functions; its \<open>AddToScheme\<close> applies them one after the
  other and stops at the first error.
\<close>

fun apply_all :: "('s \<Rightarrow> go_error + 's) list \<Rightarrow> 's \<Rightarrow> go_error + 's" where
  "apply_all [] s = Inr s"
| "apply_all (f # fs) s = (case f s of Inl e \<Rightarrow> Inl e | Inr s \<Rightarrow> apply_all fs s)"

definition localSchemeBuilder :: "'s scheme_library \<Rightarrow> ('s \<Rightarrow> go_error + 's) list" where
  "localSchemeBuilder lib = [unicore_AddToScheme lib]"

definition clientset_AddToScheme :: "'s scheme_library \<Rightarrow> 's \<Rightarrow> go_error + 's" where
  "clientset_AddToScheme lib = apply_all (localSchemeBuilder lib)"

text \<open>\<open>utilruntime.Must\<close> panics.\<close>

definition Must :: "go_error + 's \<Rightarrow> 's option" where
  "Must r = (case r of Inl e \<Rightarrow> None | Inr s \<Rightarrow> Some s)"

text \<open>The \<open>init\<close> of the package scheme of the client set.\<close>

definition versioned_scheme_init :: "'s scheme_library \<Rightarrow> 's option" where
  "versioned_scheme_init lib =
     (let Scheme = sl_add_group_version lib ('''', ''v1'') (sl_new lib) in Must (clientset_AddToScheme lib Scheme))"

text \<open>The \<open>init\<close> of the fake client set.\<close>

definition fake_localSchemeBuilder :: "'s scheme_library \<Rightarrow> ('s \<Rightarrow> go_error + 's) list" where
  "fake_localSchemeBuilder lib = [unicore_AddToScheme lib]"

definition fake_AddToScheme :: "'s scheme_library \<Rightarrow> 's \<Rightarrow> go_error + 's" where
  "fake_AddToScheme lib = apply_all (fake_localSchemeBuilder lib)"

definition fake_scheme_init :: "'s scheme_library \<Rightarrow> 's option" where
  "fake_scheme_init lib =
     (let scheme = sl_add_group_version lib ('''', ''v1'') (sl_new lib) in Must (fake_AddToScheme lib scheme))"

text \<open>
  The \<open>init\<close> of \<open>cmd/main.go\<close>: the scheme of the manager, and that of the Kubernetes client, which
  exists already.
\<close>

definition main_init :: "'s scheme_library \<Rightarrow> 's \<Rightarrow> ('s \<times> 's) option" where
  "main_init lib clientgo =
     do {
       scheme \<leftarrow> Must (sl_add_kubernetes lib (sl_new lib));
       scheme \<leftarrow> Must (unicore_AddToScheme lib scheme);
       clientgo \<leftarrow> Must (unicore_AddToScheme lib clientgo);
       Some (sl_add_unversioned lib (sl_meta_group_version lib) [''UpdateOptions'', ''DeleteOptions'', ''CreateOptions''] scheme, clientgo)
     }"

section \<open>The fake client set\<close>

text \<open>
  What the client set uses of \<open>client-go/testing\<close>: an object tracker with \<open>Add\<close> and \<open>Watch\<close>, and the
  reaction \<open>ObjectReaction\<close> of a tracker to an action, which says whether it handled it.
\<close>

record ('w, 't) testing_library =
  tl_new :: 't
  tl_add :: "object \<Rightarrow> 't \<Rightarrow> go_error + 't"
  tl_watch :: "(string \<times> string \<times> string) \<Rightarrow> string \<Rightarrow> 't \<Rightarrow> (go_error + 'w) \<times> 't"
  tl_reaction :: "action \<Rightarrow> 't \<Rightarrow> (bool \<times> object option \<times> go_error option) \<times> 't"

fun action_resource :: "action \<Rightarrow> string \<times> string \<times> string" where
  "action_resource (GetAction r ns name) = r"
| "action_resource (ListAction r k ns opts) = r"
| "action_resource (WatchAction r ns opts) = r"
| "action_resource (CreateAction r ns a) = r"
| "action_resource (UpdateAction r ns a) = r"
| "action_resource (UpdateSubresourceAction r sub ns a) = r"
| "action_resource (DeleteAction r ns name opts) = r"
| "action_resource (DeleteCollectionAction r ns opts) = r"
| "action_resource (PatchSubresourceAction r ns name pt data subs) = r"

fun action_namespace :: "action \<Rightarrow> string" where
  "action_namespace (GetAction r ns name) = ns"
| "action_namespace (ListAction r k ns opts) = ns"
| "action_namespace (WatchAction r ns opts) = ns"
| "action_namespace (CreateAction r ns a) = ns"
| "action_namespace (UpdateAction r ns a) = ns"
| "action_namespace (UpdateSubresourceAction r sub ns a) = ns"
| "action_namespace (DeleteAction r ns name opts) = ns"
| "action_namespace (DeleteCollectionAction r ns opts) = ns"
| "action_namespace (PatchSubresourceAction r ns name pt data subs) = ns"

type_synonym 't reactor = "action \<Rightarrow> 't \<Rightarrow> (bool \<times> object option \<times> go_error option) \<times> 't"
type_synonym ('w, 't) watch_reactor = "action \<Rightarrow> 't \<Rightarrow> (bool \<times> 'w option \<times> go_error option) \<times> 't"

text \<open>\<open>Clientset\<close>: the chains of reactors of its \<open>Fake\<close>, and the tracker.\<close>

record ('w, 't) clientset =
  cs_reactors :: "(string \<times> string \<times> 't reactor) list"
  cs_watch_reactors :: "(string \<times> ('w, 't) watch_reactor) list"
  cs_tracker :: 't

fun add_objects :: "('w, 't) testing_library \<Rightarrow> object list \<Rightarrow> 't \<Rightarrow> 't option" where
  "add_objects lib [] o0 = Some o0"
| "add_objects lib (obj # objs) o0 = (case tl_add lib obj o0 of Inl e \<Rightarrow> None | Inr o1 \<Rightarrow> add_objects lib objs o1)"

definition watch_reaction :: "('w, 't) testing_library \<Rightarrow> ('w, 't) watch_reactor" where
  "watch_reaction lib act o0 =
     (let gvr = action_resource act; ns = action_namespace act in
      case tl_watch lib gvr ns o0 of
        (Inl err, o1) \<Rightarrow> ((False, None, Some err), o1)
      | (Inr w, o1) \<Rightarrow> ((True, Some w, None), o1))"

definition AddReactor :: "string \<Rightarrow> string \<Rightarrow> 't reactor \<Rightarrow> ('w, 't) clientset \<Rightarrow> ('w, 't) clientset" where
  "AddReactor verb resource r cs = cs\<lparr>cs_reactors := cs_reactors cs @ [(verb, resource, r)]\<rparr>"

definition AddWatchReactor :: "string \<Rightarrow> ('w, 't) watch_reactor \<Rightarrow> ('w, 't) clientset \<Rightarrow> ('w, 't) clientset" where
  "AddWatchReactor resource r cs = cs\<lparr>cs_watch_reactors := cs_watch_reactors cs @ [(resource, r)]\<rparr>"

definition NewSimpleClientset :: "('w, 't) testing_library \<Rightarrow> object list \<Rightarrow> ('w, 't) clientset option" where
  "NewSimpleClientset lib objects =
     do {
       o0 \<leftarrow> add_objects lib objects (tl_new lib);
       let cs = \<lparr>cs_reactors = [], cs_watch_reactors = [], cs_tracker = o0\<rparr>;
       let cs = AddReactor ''*'' ''*'' (tl_reaction lib) cs;
       let cs = AddWatchReactor ''*'' (watch_reaction lib) cs;
       Some cs
     }"

definition Tracker :: "('w, 't) clientset \<Rightarrow> 't" where
  "Tracker cs = cs_tracker cs"

text \<open>
  \<open>FakeUnicoreV1\<close> is the \<open>Fake\<close> of the client set; its REST client is an interface that is not nil
  itself and holds a nil pointer.
\<close>

definition FakeUnicoreV1_Apps :: "('w, 't) fake \<Rightarrow> string \<Rightarrow> ('w, 't) fake_apps" where
  "FakeUnicoreV1_Apps c ns = (c, ns)"

definition FakeUnicoreV1_RESTClient :: "('w, 't) fake \<Rightarrow> 'r option option" where
  "FakeUnicoreV1_RESTClient c = Some None"

section \<open>Registration\<close>

definition kinds_of :: "scheme_builder \<Rightarrow> string set" where
  "kinds_of b = set (concat (sb_registered b))"

text \<open>
  What the libraries promise: after adding a builder its kinds are known under its group version,
  and adding never forgets.
\<close>

definition registers :: "'s scheme_library \<Rightarrow> ('s \<Rightarrow> group_version \<Rightarrow> string \<Rightarrow> bool) \<Rightarrow> bool" where
  "registers lib knows \<longleftrightarrow>
     (\<forall>b s s'. sl_add lib b s = Inr s' \<longrightarrow>
        (\<forall>k \<in> kinds_of b. knows s' (sb_group_version b) k) \<and> (\<forall>gv k. knows s gv k \<longrightarrow> knows s' gv k)) \<and>
     (\<forall>gv ks s gv' k. knows s gv' k \<longrightarrow> knows (sl_add_unversioned lib gv ks s) gv' k)"

lemma SchemeBuilder_kinds:
  "kinds_of SchemeBuilder = {''App'', ''AppList'', ''Deployer'', ''DeployerList'', ''ImageList'', ''ImageListList''}"
  "sb_group_version SchemeBuilder = SchemeGroupVersion"
  by (auto simp: kinds_of_def SchemeBuilder_def app_types_init_def deployer_types_init_def imagelist_types_init_def
      builder_Register_def SchemeGroupVersion_def)

lemma unicore_types_known:
  assumes "registers lib knows" and "unicore_AddToScheme lib s = Inr s'" and "k \<in> kinds_of SchemeBuilder"
  shows "knows s' SchemeGroupVersion k"
proof -
  from assms(2) have "sl_add lib SchemeBuilder s = Inr s'" by (simp add: unicore_AddToScheme_def)
  with assms(1,3) have "knows s' (sb_group_version SchemeBuilder) k" unfolding registers_def by blast
  then show ?thesis by (simp add: SchemeBuilder_kinds)
qed

lemma unversioned_keeps:
  "registers lib knows \<Longrightarrow> knows s gv k \<Longrightarrow> knows (sl_add_unversioned lib gv' ks s) gv k"
  unfolding registers_def by blast

section \<open>Properties\<close>

text \<open>
  C36.  Registration: when the initialisation of a package does not panic, the scheme of the client set,
  that of the fake client set and both schemes of the manager know all six types of the API, under the group
  version to which the clients, the lists of the informers and \<open>Resource\<close> refer.
\<close>

theorem api_types_registered:
  assumes "registers lib knows" and "k \<in> {''App'', ''AppList'', ''Deployer'', ''DeployerList'', ''ImageList'', ''ImageListList''}"
  shows "(case versioned_scheme_init lib of None \<Rightarrow> True | Some s \<Rightarrow> knows s SchemeGroupVersion k) \<and>
    (case fake_scheme_init lib of None \<Rightarrow> True | Some s \<Rightarrow> knows s SchemeGroupVersion k) \<and>
    (case main_init lib clientgo of
       None \<Rightarrow> True | Some (s, s') \<Rightarrow> knows s SchemeGroupVersion k \<and> knows s' SchemeGroupVersion k) \<and>
    appsKind = (fst SchemeGroupVersion, snd SchemeGroupVersion, ''App'') \<and>
    appsResource = (fst (Resource ''apps''), snd SchemeGroupVersion, ''apps'') \<and>
    cf_group_version (setConfigDefaults rlib cf) = Some SchemeGroupVersion"
proof -
  from assms(2) have k: "k \<in> kinds_of SchemeBuilder" by (simp add: SchemeBuilder_kinds)
  note known = unicore_types_known [OF assms(1) _ k]
  show ?thesis
  proof (intro conjI)
    show "case versioned_scheme_init lib of None \<Rightarrow> True | Some s \<Rightarrow> knows s SchemeGroupVersion k"
      by (auto simp: versioned_scheme_init_def clientset_AddToScheme_def localSchemeBuilder_def Must_def Let_def
          split: sum.splits option.split intro: known)
    show "case fake_scheme_init lib of None \<Rightarrow> True | Some s \<Rightarrow> knows s SchemeGroupVersion k"
      by (auto simp: fake_scheme_init_def fake_AddToScheme_def fake_localSchemeBuilder_def Must_def Let_def
          split: sum.splits option.split intro: known)
    show "case main_init lib clientgo of
        None \<Rightarrow> True | Some (s, s') \<Rightarrow> knows s SchemeGroupVersion k \<and> knows s' SchemeGroupVersion k"
    proof (cases "main_init lib clientgo")
      case (Some r)
      then obtain s1 s2 s3 where "unicore_AddToScheme lib s1 = Inr s2" "unicore_AddToScheme lib clientgo = Inr s3"
        "r = (sl_add_unversioned lib (sl_meta_group_version lib) [''UpdateOptions'', ''DeleteOptions'', ''CreateOptions''] s2, s3)"
        by (auto simp: main_init_def Must_def bind_eq_Some_conv split: sum.splits)
      with known unversioned_keeps [OF assms(1)] Some show ?thesis by simp
    qed simp
  qed (simp_all add: appsKind_def appsResource_def Resource_def SchemeGroupVersion_def GroupVersion_def
      setConfigDefaults_def Let_def)
qed

text \<open>A scheme as the set of what it knows.\<close>

definition sample_schemes :: "(group_version \<times> string) set scheme_library" where
  "sample_schemes =
     \<lparr>sl_new = {}, sl_add = (\<lambda>b s. Inr (s \<union> Pair (sb_group_version b) ` kinds_of b)),
      sl_add_group_version = (\<lambda>gv s. s), sl_add_kubernetes = (\<lambda>s. Inr (insert (('''', ''v1''), ''Pod'') s)),
      sl_add_unversioned = (\<lambda>gv ks s. s \<union> Pair gv ` set ks),
      sl_meta_group_version = (''meta.k8s.io'', ''v1'')\<rparr>"

theorem api_types_registered_witness:
  "(\<exists>s s'. main_init sample_schemes {} = Some (s, s') \<and> (SchemeGroupVersion, ''ImageList'') \<in> s \<inter> s')"
proof -
  have "registers sample_schemes (\<lambda>s gv k. (gv, k) \<in> s)"
    by (auto simp: registers_def sample_schemes_def)
  moreover have "''ImageList'' \<in> {''App'', ''AppList'', ''Deployer'', ''DeployerList'', ''ImageList'', ''ImageListList''}" by simp
  ultimately have "case main_init sample_schemes {} of
      None \<Rightarrow> True | Some (s, s') \<Rightarrow> (SchemeGroupVersion, ''ImageList'') \<in> s \<and> (SchemeGroupVersion, ''ImageList'') \<in> s'"
    by (rule conjunct1 [OF conjunct2 [OF conjunct2 [OF api_types_registered]]])
  moreover have "main_init sample_schemes {} \<noteq> None"
    by (simp add: main_init_def Must_def unicore_AddToScheme_def sample_schemes_def)
  then obtain s s' where "main_init sample_schemes {} = Some (s, s')" by fast
  ultimately show ?thesis by (intro exI [of _ s] exI [of _ s']) simp
qed

end
