(* ===== verification/Plugin_Start.thy ===== *)
theory Plugin_Start
  imports Program_Start Gang_Scheduler Reserve_Scheduler
begin

text \<open>
  The constructors of the scheduler plugins: \<open>New\<close> of \<open>schedule\_plugin/pkg/plugin/gang/gang.go\<close>
  and of \<open>reserve/reserve.go\<close>.  The second registers handlers with an informer of config maps, which
  then feeds the table of reservations from its own goroutine, while the scheduler calls
  \<open>Reserve\<close> and the plugin cleans the table; the plugin is a transition system here.
\<close>

section \<open>The constructors\<close>

text \<open>\<open>New\<close> of the gang plugin cannot fail; it starts the goroutine of \<open>CleanUp\<close>.\<close>

datatype gang_call = GoCleanUp

definition gang_New :: "gang_call list \<times> gang_state" where
  "gang_New = ([GoCleanUp], new_gang_state)"

text \<open>
  \<open>New\<close> of the reservation plugin: a handler that cannot be registered is an error, an informer that
  does not synchronise a panic.
\<close>

datatype reserve_call = AddEventHandler | GoRunInformer | WaitForInformerSync | GoCleanExpired

definition reserve_New :: "(go_error option) \<Rightarrow> bool \<Rightarrow> reserve_call list \<times> (go_error + reservations) option" where
  "reserve_New registered synced =
     (case run_calls (\<lambda>c. case c of
               AddEventHandler \<Rightarrow> (case registered of None \<Rightarrow> Succeeds | Some e \<Rightarrow> Fails e)
             | WaitForInformerSync \<Rightarrow> if synced then Succeeds else Panics
             | _ \<Rightarrow> Succeeds)
           [AddEventHandler, GoRunInformer, WaitForInformerSync, GoCleanExpired] of
        (t, Completed) \<Rightarrow> (t, Some (Inr []))
      | (t, Failed e) \<Rightarrow> (t, Some (Inl e))
      | (t, Ended n) \<Rightarrow> (t, None)
      | (t, Panicked) \<Rightarrow> (t, None))"

lemma reserve_New_cleans_after_sync:
  "GoCleanExpired \<in> set (fst (reserve_New registered synced)) \<longleftrightarrow> registered = None \<and> synced"
  by (auto simp: reserve_New_def split: option.split)

section \<open>The plugin as a transition system\<close>

text \<open>
  The informer calls the handlers one after the other with what it sees; it is a parameter: the
  events, their order and their objects are arbitrary.  A panic of a handler ends the process.
\<close>

datatype cm_event = Added informer_object | Updated informer_object | Deleted informer_object

fun deliver :: "cm_env \<Rightarrow> cm_event \<Rightarrow> reservations \<Rightarrow> reservations option" where
  "deliver env (Added obj) rs = on_added env obj rs"
| "deliver env (Updated obj) rs = on_updated env obj rs"
| "deliver env (Deleted obj) rs = on_deleted obj rs"

text \<open>
  \<open>Reserve\<close> and \<open>cleanExpired\<close> read the table under the lock and write the config map without it:
  a table that is computed waits in \<open>pl_writes\<close>, with the attempts left, while other methods and
  the handlers run.  \<open>pl_cm\<close> holds the object of the lister's cache and the config maps sent;
  \<open>pl_delivered\<close> is the history of the events.
\<close>

record plugin =
  pl_table :: reservations
  pl_delivered :: "cm_event list"
  pl_writes :: "(reservations \<times> nat) list"
  pl_cm :: cm_state
  pl_crashed :: bool

definition plugin_initially :: plugin where
  "plugin_initially = \<lparr>pl_table = [], pl_delivered = [], pl_writes = [],
     pl_cm = \<lparr>cs_cached = None, cs_sent = []\<rparr>, pl_crashed = False\<rparr>"

text \<open>What is left to try after an attempt of \<open>updateCM\<close>.\<close>

definition still_to_try :: "cm_env \<Rightarrow> reservations \<Rightarrow> nat \<Rightarrow> go_error option \<Rightarrow> (reservations \<times> nat) list" where
  "still_to_try env new n err =
     (case (err, n) of (Some e, Suc m) \<Rightarrow> if ce_retry_again env m e then [(new, m)] else [] | _ \<Rightarrow> [])"

text \<open>
  The steps: an event is handled, or panics; the informer replaces the object in the cache; a pod is
  reserved, or a round of cleaning begins, and something is to be written; an attempt is made,
  which writes into the object of the cache.
\<close>

inductive plugin_step :: "cm_env \<Rightarrow> plugin \<Rightarrow> plugin \<Rightarrow> bool" for env where
  handled: "\<not> pl_crashed pl \<Longrightarrow> deliver env ev (pl_table pl) = Some rs \<Longrightarrow>
    plugin_step env pl (pl\<lparr>pl_table := rs, pl_delivered := pl_delivered pl @ [ev]\<rparr>)"
| panicked: "\<not> pl_crashed pl \<Longrightarrow> deliver env ev (pl_table pl) = None \<Longrightarrow>
    plugin_step env pl (pl\<lparr>pl_crashed := True, pl_delivered := pl_delivered pl @ [ev]\<rparr>)"
| refreshed: "\<not> pl_crashed pl \<Longrightarrow> plugin_step env pl (pl\<lparr>pl_cm := (pl_cm pl)\<lparr>cs_cached := cached\<rparr>\<rparr>)"
| reserved: "\<not> pl_crashed pl \<Longrightarrow> release p (pl_table pl) = (new, True) \<Longrightarrow>
    plugin_step env pl (pl\<lparr>pl_writes := pl_writes pl @ [(new, ce_retry_steps env)]\<rparr>)"
| expired: "\<not> pl_crashed pl \<Longrightarrow> clean_nodes clock 0 (pl_table pl) = (new, True) \<Longrightarrow>
    plugin_step env pl (pl\<lparr>pl_writes := pl_writes pl @ [(new, ce_retry_steps env)]\<rparr>)"
| attempted: "\<not> pl_crashed pl \<Longrightarrow> pl_writes pl = before @ (new, n) # later \<Longrightarrow>
    update_attempt env new (pl_cm pl) = (err, cm) \<Longrightarrow>
    plugin_step env pl (pl\<lparr>pl_cm := cm, pl_writes := before @ still_to_try env new n err @ later\<rparr>)"

inductive plugin_reaches :: "cm_env \<Rightarrow> plugin \<Rightarrow> bool" for env where
  start: "plugin_reaches env plugin_initially"
| step: "plugin_reaches env pl \<Longrightarrow> plugin_step env pl pl' \<Longrightarrow> plugin_reaches env pl'"

text \<open>Without an interruption, the attempts are \<open>updateCM\<close>, and so the steps are those of \<open>Reserve\<close> and of a round.\<close>

lemma attempts_are_retries:
  "retry_loop (ce_retry_again env) n (\<lambda>s. Some (update_attempt env new s)) st = Some (err, st') \<Longrightarrow>
     \<not> pl_crashed pl \<Longrightarrow> pl_writes pl = before @ (new, n) # later \<Longrightarrow> pl_cm pl = st \<Longrightarrow>
     (plugin_step env)\<^sup>*\<^sup>* pl (pl\<lparr>pl_cm := st', pl_writes := before @ later\<rparr>)"
proof (induction n arbitrary: st pl)
  case 0
  then have "plugin_step env pl (pl\<lparr>pl_cm := st', pl_writes := before @ still_to_try env new 0 err @ later\<rparr>)"
    by (intro attempted [of pl before new 0 later env err st']) auto
  then show ?case by (cases err) (auto simp: still_to_try_def)
next
  case (Suc n)
  obtain e st1 where first: "update_attempt env new st = (e, st1)" by (cases "update_attempt env new st")
  let ?pl = "pl\<lparr>pl_cm := st1, pl_writes := before @ still_to_try env new (Suc n) e @ later\<rparr>"
  have step: "plugin_step env pl ?pl" using Suc.prems first by (intro attempted) auto
  show ?case
  proof (cases "\<exists>x. e = Some x \<and> ce_retry_again env n x")
    case True
    then have "(plugin_step env)\<^sup>*\<^sup>* ?pl (?pl\<lparr>pl_cm := st', pl_writes := before @ later\<rparr>)"
      using Suc.prems first by (intro Suc.IH) (auto simp: still_to_try_def)
    with step show ?thesis by (auto intro: converse_rtranclp_into_rtranclp)
  next
    case False
    then have "st1 = st'" "still_to_try env new (Suc n) e = []"
      using Suc.prems(1) first by (auto simp: still_to_try_def split: option.splits if_splits)
    with step show ?thesis by auto
  qed
qed

lemma Reserve_is_steps:
  assumes "Reserve env (pl_table pl) p (pl_cm pl) = Some (code, st')" and "\<not> pl_crashed pl"
  shows "(plugin_step env)\<^sup>*\<^sup>* pl (pl\<lparr>pl_cm := st'\<rparr>)"
proof -
  obtain new updated where new: "release p (pl_table pl) = (new, updated)" by (cases "release p (pl_table pl)")
  show ?thesis
  proof (cases updated)
    case True
    then obtain err where "updateCM env new (pl_cm pl) = Some (err, st')"
      using assms(1) new by (auto simp: Reserve_def split: option.splits if_splits)
    then have "(plugin_step env)\<^sup>*\<^sup>* (pl\<lparr>pl_writes := pl_writes pl @ [(new, ce_retry_steps env)]\<rparr>)
        (pl\<lparr>pl_writes := pl_writes pl @ [(new, ce_retry_steps env)], pl_cm := st', pl_writes := pl_writes pl @ []\<rparr>)"
      using assms(2) unfolding updateCM_def by (intro attempts_are_retries) auto
    moreover have "plugin_step env pl (pl\<lparr>pl_writes := pl_writes pl @ [(new, ce_retry_steps env)]\<rparr>)"
      using new True assms(2) by (intro reserved) auto
    ultimately show ?thesis by (auto intro: converse_rtranclp_into_rtranclp)
  next
    case False
    then have "st' = pl_cm pl" using assms(1) new by (simp add: Reserve_def)
    then show ?thesis by simp
  qed
qed

section \<open>What the table and the writes are made of\<close>

text \<open>The specification: the table that the last event about the config map of the plugin says.\<close>

fun about_reservations :: "cm_event \<Rightarrow> bool" where
  "about_reservations (Added (ObjConfigMap cm)) = is_reserve_cm cm"
| "about_reservations (Updated (ObjConfigMap cm)) = is_reserve_cm cm"
| "about_reservations (Deleted (ObjConfigMap cm)) = is_reserve_cm cm"
| "about_reservations _ = False"

fun says :: "cm_env \<Rightarrow> cm_event \<Rightarrow> reservations" where
  "says env (Added (ObjConfigMap cm)) = snd (loadFromConfigMap (ce_unmarshal env) (cm_data cm))"
| "says env (Updated (ObjConfigMap cm)) = snd (loadFromConfigMap (ce_unmarshal env) (cm_data cm))"
| "says env _ = []"

definition last_said :: "cm_env \<Rightarrow> cm_event list \<Rightarrow> reservations" where
  "last_said env evs =
     (if filter about_reservations evs = [] then [] else says env (last (filter about_reservations evs)))"

fun is_tombstone :: "cm_event \<Rightarrow> bool" where
  "is_tombstone (Added obj) = (obj = ObjTombstone)"
| "is_tombstone (Updated obj) = (obj = ObjTombstone)"
| "is_tombstone (Deleted obj) = (obj = ObjTombstone)"

lemma deliver_spec:
  "deliver env ev rs = (if is_tombstone ev then None else if about_reservations ev then Some (says env ev) else Some rs)"
  by (cases ev; rename_tac obj; case_tac obj) auto

lemma last_said_snoc:
  "last_said env (evs @ [ev]) = (if about_reservations ev then says env ev else last_said env evs)"
  by (simp add: last_said_def)

lemma tombstone_silent: "is_tombstone ev \<Longrightarrow> \<not> about_reservations ev"
  by (cases ev) auto

text \<open>A table that is to be written: every list is part of what was held, and something is gone.\<close>

definition thinned :: "reservations \<Rightarrow> reservations \<Rightarrow> bool" where
  "thinned old new \<longleftrightarrow> list_all2 (\<lambda>a b. fst b = fst a \<and> subseq (snd b) (snd a)) old new \<and> new \<noteq> old"

lemma release_thinned:
  assumes "release p rs = (new, True)"
  shows "thinned rs new"
proof -
  from assms obtain l r where lr: "new = map (\<lambda>(node, l). (node, filter (\<lambda>r. \<not> reserved_for p r) l)) rs"
      "l \<in> snd ` set rs" "r \<in> set l" "reserved_for p r"
    by (auto simp: release_eq)
  then obtain i where i: "i < length rs" "l = snd (rs ! i)" by (auto simp: in_set_conv_nth)
  have "r \<notin> set (snd (new ! i))" using i lr(1,4) by (simp add: case_prod_beta)
  with i lr(3) have "new \<noteq> rs" by auto
  moreover have "list_all2 (\<lambda>a b. fst b = fst a \<and> subseq (snd b) (snd a)) rs new"
    unfolding lr(1) by (simp add: list_all2_conv_all_nth case_prod_beta)
  ultimately show ?thesis by (simp add: thinned_def)
qed

lemma clean_thinned:
  assumes "clean_nodes clock 0 rs = (new, True)"
  shows "thinned rs new"
proof -
  note spec = clean_nodes_spec [OF assms]
  have "list_all2 (\<lambda>a b. fst b = fst a \<and> subseq (snd b) (snd a)) rs new"
    using conjunct1 [OF spec] by (rule list_all2_mono) (simp add: cleaned_def)
  moreover have "new \<noteq> rs" using clean_nodes_shrinks [OF assms] by blast
  ultimately show ?thesis by (simp add: thinned_def)
qed

text \<open>The invariant: what waits and what was sent is a thinned table of an earlier moment.\<close>

definition from_the_past :: "cm_env \<Rightarrow> cm_event list \<Rightarrow> reservations \<Rightarrow> bool" where
  "from_the_past env evs new \<longleftrightarrow> (\<exists>k \<le> length evs. thinned (last_said env (take k evs)) new)"

definition plugin_inv :: "cm_env \<Rightarrow> plugin \<Rightarrow> bool" where
  "plugin_inv env pl \<longleftrightarrow>
     pl_table pl = last_said env (pl_delivered pl) \<and>
     (pl_crashed pl \<longleftrightarrow> (\<exists>ev \<in> set (pl_delivered pl). is_tombstone ev)) \<and>
     (\<forall>w \<in> set (pl_writes pl). from_the_past env (pl_delivered pl) (fst w)) \<and>
     (\<forall>cm \<in> set (cs_sent (pl_cm pl)). \<exists>new. dumpToConfigMap (ce_marshal env) new = Inr (cm_data cm) \<and>
        from_the_past env (pl_delivered pl) new)"

lemma from_the_past_now: "thinned (last_said env evs) new \<Longrightarrow> from_the_past env evs new"
  by (auto simp: from_the_past_def intro!: exI [of _ "length evs"])

lemma from_the_past_later: "from_the_past env evs new \<Longrightarrow> from_the_past env (evs @ [ev]) new"
proof -
  assume "from_the_past env evs new"
  then obtain k where k: "k \<le> length evs" "thinned (last_said env (take k evs)) new" by (auto simp: from_the_past_def)
  then have "k \<le> length (evs @ [ev])" "thinned (last_said env (take k (evs @ [ev]))) new" by simp_all
  then show ?thesis unfolding from_the_past_def by blast
qed

lemma attempt_sends:
  "update_attempt env new st = (err, st') \<Longrightarrow> cm \<in> set (cs_sent st') \<Longrightarrow>
     cm \<in> set (cs_sent st) \<or> dumpToConfigMap (ce_marshal env) new = Inr (cm_data cm)"
  by (auto simp: update_attempt_def Let_def split: sum.splits)

lemma still_to_try_same: "w \<in> set (still_to_try env new n err) \<Longrightarrow> fst w = new"
  by (auto simp: still_to_try_def split: option.splits nat.splits if_splits)

lemma past_kept:
  assumes "plugin_inv env pl"
  shows "\<forall>w \<in> set (pl_writes pl). from_the_past env (pl_delivered pl @ [ev]) (fst w)"
    and "\<forall>cm \<in> set (cs_sent (pl_cm pl)). \<exists>new. dumpToConfigMap (ce_marshal env) new = Inr (cm_data cm) \<and>
        from_the_past env (pl_delivered pl @ [ev]) new"
  using assms from_the_past_later unfolding plugin_inv_def by blast+

lemma plugin_inv_step: "plugin_step env pl pl' \<Longrightarrow> plugin_inv env pl \<Longrightarrow> plugin_inv env pl'"
proof (induction rule: plugin_step.induct)
  case (handled pl ev rs)
  from handled past_kept [OF handled(3)] show ?case
    by (auto simp: plugin_inv_def deliver_spec last_said_snoc split: if_splits)
next
  case (panicked pl ev)
  from panicked past_kept [OF panicked(3)] show ?case
    by (auto simp: plugin_inv_def deliver_spec last_said_snoc tombstone_silent split: if_splits)
next
  case (refreshed pl cached)
  then show ?case by (simp add: plugin_inv_def)
next
  case (reserved pl p new)
  then show ?case by (auto simp: plugin_inv_def intro: from_the_past_now release_thinned)
next
  case (expired pl clock new)
  then show ?case by (auto simp: plugin_inv_def intro: from_the_past_now clean_thinned)
next
  case (attempted pl before new n later err cm)
  then have new: "from_the_past env (pl_delivered pl) new" by (simp add: plugin_inv_def)
  have "\<forall>c \<in> set (cs_sent cm). \<exists>new. dumpToConfigMap (ce_marshal env) new = Inr (cm_data c) \<and>
        from_the_past env (pl_delivered pl) new"
    using attempt_sends [OF attempted(3)] attempted(4) new unfolding plugin_inv_def by blast
  moreover have "\<forall>w \<in> set (before @ still_to_try env new n err @ later). from_the_past env (pl_delivered pl) (fst w)"
  proof
    fix w assume "w \<in> set (before @ still_to_try env new n err @ later)"
    then have "w \<in> set (pl_writes pl) \<or> fst w = new" using attempted(2) still_to_try_same [of w env new n err] by auto
    then show "from_the_past env (pl_delivered pl) (fst w)" using attempted(4) new by (auto simp: plugin_inv_def)
  qed
  ultimately show ?case using attempted(4) by (simp add: plugin_inv_def)
qed

lemma plugin_inv_reached: "plugin_reaches env pl \<Longrightarrow> plugin_inv env pl"
proof (induction rule: plugin_reaches.induct)
  case start
  show ?case by (simp add: plugin_inv_def plugin_initially_def last_said_def)
qed (rule plugin_inv_step)

text \<open>
  C20.  What the plugin holds and what it writes comes from what was delivered, whatever the informer
  delivers and however handlers, \<open>Reserve\<close>, \<open>cleanExpired\<close>, attempts to write and changes of the
  cache interleave.  The table is what the last event about its config map says, empty before
  the first and after a deletion: no write of its own changes it, accepted or failed, although
  it is made into the object of the cache.  The process is gone exactly when a tombstone was
  delivered.  And each config map that is sent is, on the nodes and in the order of a table that
  was held at some earlier moment, that table without some reservations: none is ever added.
\<close>

theorem table_is_last_delivered:
  assumes "plugin_reaches env pl"
  shows "pl_table pl = last_said env (pl_delivered pl) \<and>
    (pl_crashed pl \<longleftrightarrow> (\<exists>ev \<in> set (pl_delivered pl). is_tombstone ev)) \<and>
    (\<forall>cm \<in> set (cs_sent (pl_cm pl)). \<exists>k \<le> length (pl_delivered pl). \<exists>new.
       dumpToConfigMap (ce_marshal env) new = Inr (cm_data cm) \<and>
       list_all2 (\<lambda>(node, l) (node', l'). node' = node \<and> subseq l' l) (last_said env (take k (pl_delivered pl))) new \<and>
       new \<noteq> last_said env (take k (pl_delivered pl)))"
  using plugin_inv_reached [OF assms] unfolding plugin_inv_def from_the_past_def thinned_def case_prod_beta by blast

section \<open>A retry brings a released reservation back\<close>

text \<open>
  Two pods of two nodes are reserved at about the same time.  The config map has a version, and
  the API server refuses an update of an old one.
\<close>

definition retry_env :: cm_env where
  "retry_env =
     \<lparr>ce_lister = (\<lambda>_ c. case c of None \<Rightarrow> Inl ErrNotFound | Some cm \<Rightarrow> Inr cm),
      ce_update = (\<lambda>sent cm. if cm_version cm = (if sent = [] then ''1'' else ''2'') then None else Some ErrConflict),
      ce_marshal = (\<lambda>l. if l = [] then Inr ''[]'' else if l = [reservation_for ''p'' 7] then Inr ''[p]''
        else if l = [reservation_for ''b'' 7] then Inr ''[b]'' else Inl (ErrOther ''marshal'')),
      ce_unmarshal = (\<lambda>s. if s = ''[]'' then Inr [] else if s = ''[p]'' then Inr [reservation_for ''p'' 7]
        else if s = ''[b]'' then Inr [reservation_for ''b'' 7] else Inl (ErrOther ''unmarshal'')),
      ce_retry_again = (\<lambda>_ e. e = ErrConflict), ce_retry_steps = 4\<rparr>"

definition versioned_cm :: "string \<Rightarrow> string \<Rightarrow> string \<Rightarrow> config_map" where
  "versioned_cm v raw1 raw2 = \<lparr>cm_name = reserve_cm_name, cm_namespace = reserve_cm_namespace,
     cm_data = [(''n1'', raw1), (''n2'', raw2)], cm_version = v\<rparr>"

definition two_nodes :: "reservation list \<Rightarrow> reservation list \<Rightarrow> reservations" where
  "two_nodes l1 l2 = [(''n1'', l1), (''n2'', l2)]"

definition attempt_state :: "reservations \<Rightarrow> cm_event list \<Rightarrow> (reservations \<times> nat) list \<Rightarrow> config_map option \<Rightarrow>
    config_map list \<Rightarrow> plugin" where
  "attempt_state table evs writes cached sent = \<lparr>pl_table = table, pl_delivered = evs, pl_writes = writes,
     pl_cm = \<lparr>cs_cached = cached, cs_sent = sent\<rparr>, pl_crashed = False\<rparr>"

abbreviation "of_p \<equiv> [reservation_for ''p'' 7]"
abbreviation "of_b \<equiv> [reservation_for ''b'' 7]"

lemma versioned_simps [simp]:
  "is_reserve_cm (versioned_cm v x y)" "cm_data (versioned_cm v x y) = [(''n1'', x), (''n2'', y)]"
  "(versioned_cm v x y)\<lparr>cm_data := [(''n1'', x'), (''n2'', y')]\<rparr> = versioned_cm v x' y'"
  "cm_version (versioned_cm v x y) = v"
  by (simp_all add: versioned_cm_def is_reserve_cm_def)

lemma attempt_state_simps [simp]:
  "pl_table (attempt_state t evs ws c sent) = t" "pl_delivered (attempt_state t evs ws c sent) = evs"
  "pl_writes (attempt_state t evs ws c sent) = ws" "pl_cm (attempt_state t evs ws c sent) = \<lparr>cs_cached = c, cs_sent = sent\<rparr>"
  "\<not> pl_crashed (attempt_state t evs ws c sent)"
  "(attempt_state t evs ws c sent)\<lparr>pl_table := t', pl_delivered := evs'\<rparr> = attempt_state t' evs' ws c sent"
  "(attempt_state t evs ws c sent)\<lparr>pl_cm := \<lparr>cs_cached = c', cs_sent = sent\<rparr>\<rparr> = attempt_state t evs ws c' sent"
  "(attempt_state t evs ws c sent)\<lparr>pl_writes := ws'\<rparr> = attempt_state t evs ws' c sent"
  "(attempt_state t evs ws c sent)\<lparr>pl_cm := \<lparr>cs_cached = c', cs_sent = sent'\<rparr>, pl_writes := ws'\<rparr> = attempt_state t evs ws' c' sent'"
  by (simp_all add: attempt_state_def)

lemma retry_codec:
  "loadFromConfigMap (ce_unmarshal retry_env) [(''n1'', ''[p]''), (''n2'', ''[b]'')] = (None, two_nodes of_p of_b)"
  "loadFromConfigMap (ce_unmarshal retry_env) [(''n1'', ''[]''), (''n2'', ''[b]'')] = (None, two_nodes [] of_b)"
  "loadFromConfigMap (ce_unmarshal retry_env) [(''n1'', ''[p]''), (''n2'', ''[]'')] = (None, two_nodes of_p [])"
  "dumpToConfigMap (ce_marshal retry_env) (two_nodes [] of_b) = Inr [(''n1'', ''[]''), (''n2'', ''[b]'')]"
  "dumpToConfigMap (ce_marshal retry_env) (two_nodes of_p []) = Inr [(''n1'', ''[p]''), (''n2'', ''[]'')]"
  by (simp_all add: loadFromConfigMap_def dumpToConfigMap_def retry_env_def two_nodes_def reservation_for_def)

lemma retry_release:
  "release (needing_pod ''p'') (two_nodes of_p of_b) = (two_nodes [] of_b, True)"
  "release (needing_pod ''b'') (two_nodes of_p of_b) = (two_nodes of_p [], True)"
  by (simp_all add: release_eq two_nodes_def)

lemma retry_attempt:
  "update_attempt retry_env new \<lparr>cs_cached = Some cm, cs_sent = sent\<rparr> =
     (case dumpToConfigMap (ce_marshal retry_env) new of
        Inl err \<Rightarrow> (Some err, \<lparr>cs_cached = Some cm, cs_sent = sent\<rparr>)
      | Inr data \<Rightarrow> (if cm_version cm = (if sent = [] then ''1'' else ''2'') then None else Some ErrConflict,
          \<lparr>cs_cached = Some (cm\<lparr>cm_data := data\<rparr>), cs_sent = sent @ [cm\<lparr>cm_data := data\<rparr>]\<rparr>))"
  by (auto simp: update_attempt_def retry_env_def Let_def split: sum.split)

lemma retry_again:
  "still_to_try env new n None = []" "still_to_try retry_env new 4 (Some ErrConflict) = [(new, 3)]"
  by (simp_all add: still_to_try_def retry_env_def eval_nat_numeral)

definition two_events :: "cm_event list" where
  "two_events = [Added (ObjConfigMap (versioned_cm ''1'' ''[p]'' ''[b]'')), Updated (ObjConfigMap (versioned_cm ''2'' ''[]'' ''[b]''))]"

definition three_writes :: "config_map list" where
  "three_writes = [versioned_cm ''1'' ''[]'' ''[b]'', versioned_cm ''1'' ''[p]'' ''[]'', versioned_cm ''2'' ''[p]'' ''[]'']"

definition after_retry :: plugin where
  "after_retry = attempt_state (two_nodes [] of_b) two_events [] (Some (versioned_cm ''2'' ''[p]'' ''[]'')) three_writes"

lemma after_retry_reached: "plugin_reaches retry_env after_retry"
proof -
  let ?added = "[Added (ObjConfigMap (versioned_cm ''1'' ''[p]'' ''[b]''))]"
  let ?w1 = "(two_nodes [] of_b, 4)" and ?w2 = "(two_nodes of_p [], 4)"
  let ?old = "versioned_cm ''1'' ''[p]'' ''[b]''" and ?first = "versioned_cm ''1'' ''[]'' ''[b]''"
    and ?stale = "versioned_cm ''1'' ''[p]'' ''[]''" and ?second = "versioned_cm ''2'' ''[]'' ''[b]''"
  have steps: "ce_retry_steps retry_env = 4" by (simp add: retry_env_def)
  have go: "plugin_reaches retry_env pl \<Longrightarrow> plugin_step retry_env pl pl' \<Longrightarrow> plugin_reaches retry_env pl'" for pl pl'
    by (rule step)
  have "plugin_reaches retry_env (attempt_state [] [] [] None [])"
    using start [of retry_env] by (simp add: plugin_initially_def attempt_state_def)
  from go [OF this handled [of _ _ "Added (ObjConfigMap ?old)" "two_nodes of_p of_b"]]
  have "plugin_reaches retry_env (attempt_state (two_nodes of_p of_b) ?added [] None [])" by (simp add: retry_codec)
  from go [OF this refreshed [where cached = "Some ?old"]]
  have "plugin_reaches retry_env (attempt_state (two_nodes of_p of_b) ?added [] (Some ?old) [])" by simp
  from go [OF this reserved [where p = "needing_pod ''p''" and new = "two_nodes [] of_b"]]
  have "plugin_reaches retry_env (attempt_state (two_nodes of_p of_b) ?added [?w1] (Some ?old) [])"
    by (simp add: retry_release steps)
  from go [OF this reserved [where p = "needing_pod ''b''" and new = "two_nodes of_p []"]]
  have "plugin_reaches retry_env (attempt_state (two_nodes of_p of_b) ?added [?w1, ?w2] (Some ?old) [])"
    by (simp add: retry_release steps)
  from go [OF this attempted [where before = "[]" and new = "two_nodes [] of_b" and n = 4 and later = "[?w2]" and
      err = None and cm = "\<lparr>cs_cached = Some ?first, cs_sent = [?first]\<rparr>"]]
  have "plugin_reaches retry_env (attempt_state (two_nodes of_p of_b) ?added [?w2] (Some ?first) [?first])"
    by (simp add: retry_attempt retry_codec retry_again)
  from go [OF this attempted [where before = "[]" and new = "two_nodes of_p []" and n = 4 and later = "[]" and
      err = "Some ErrConflict" and cm = "\<lparr>cs_cached = Some ?stale, cs_sent = [?first, ?stale]\<rparr>"]]
  have "plugin_reaches retry_env (attempt_state (two_nodes of_p of_b) ?added [(two_nodes of_p [], 3)] (Some ?stale) [?first, ?stale])"
    by (simp add: retry_attempt retry_codec retry_again)
  from go [OF this refreshed [where cached = "Some ?second"]]
  have "plugin_reaches retry_env (attempt_state (two_nodes of_p of_b) ?added [(two_nodes of_p [], 3)] (Some ?second) [?first, ?stale])"
    by simp
  from go [OF this handled [of _ _ "Updated (ObjConfigMap ?second)" "two_nodes [] of_b"]]
  have "plugin_reaches retry_env (attempt_state (two_nodes [] of_b) two_events [(two_nodes of_p [], 3)] (Some ?second) [?first, ?stale])"
    by (simp add: retry_codec two_events_def)
  from go [OF this attempted [where before = "[]" and new = "two_nodes of_p []" and n = 3 and later = "[]" and
      err = None and cm = "\<lparr>cs_cached = Some (versioned_cm ''2'' ''[p]'' ''[]''), cs_sent = three_writes\<rparr>"]]
  show ?thesis
    by (simp add: retry_attempt retry_codec retry_again after_retry_def three_writes_def)
qed

text \<open>
  The first write releases the reservation of \<open>p\<close> and is accepted; the second is refused, because it
  is based on the old config map.  Its retry sends the same table with the new version: it is
  accepted, and the reservation of \<open>p\<close> is back, although the plugin had already been told that it
  is gone.
\<close>

lemma released_reservation_returns:
  "plugin_reaches retry_env after_retry \<and>
   ce_update retry_env [] (three_writes ! 0) = None \<and> ce_update retry_env (take 1 three_writes) (three_writes ! 1) = Some ErrConflict \<and>
   ce_update retry_env (take 2 three_writes) (three_writes ! 2) = None \<and> cs_sent (pl_cm after_retry) = three_writes \<and>
   reservations_of (pl_table after_retry) ''n1'' = [] \<and>
   map_of (snd (loadFromConfigMap (ce_unmarshal retry_env) (cm_data (three_writes ! 0)))) ''n1'' = Some [] \<and>
   map_of (snd (loadFromConfigMap (ce_unmarshal retry_env) (cm_data (three_writes ! 2)))) ''n1'' = Some of_p"
proof -
  have "ce_update retry_env [] (three_writes ! 0) = None \<and> ce_update retry_env (take 1 three_writes) (three_writes ! 1) = Some ErrConflict \<and>
      ce_update retry_env (take 2 three_writes) (three_writes ! 2) = None"
    by (simp add: retry_env_def three_writes_def numeral_2_eq_2)
  moreover have "cs_sent (pl_cm after_retry) = three_writes" "reservations_of (pl_table after_retry) ''n1'' = []"
    by (simp_all add: after_retry_def reservations_of_def two_nodes_def)
  moreover have "map_of (snd (loadFromConfigMap (ce_unmarshal retry_env) (cm_data (three_writes ! 0)))) ''n1'' = Some []"
    "map_of (snd (loadFromConfigMap (ce_unmarshal retry_env) (cm_data (three_writes ! 2)))) ''n1'' = Some of_p"
    by (simp_all add: three_writes_def retry_codec) (simp_all add: two_nodes_def)
  ultimately show ?thesis using after_retry_reached by blast
qed

theorem table_is_last_delivered_witness:
  "pl_table after_retry = two_nodes [] of_b \<and> \<not> pl_crashed after_retry \<and>
   (\<exists>new. dumpToConfigMap (ce_marshal retry_env) new = Inr (cm_data (versioned_cm ''2'' ''[p]'' ''[]'')))"
proof -
  note spec = table_is_last_delivered [OF after_retry_reached]
  have "pl_table after_retry = two_nodes [] of_b"
    using conjunct1 [OF spec] by (simp add: after_retry_def two_events_def last_said_def retry_codec)
  moreover have "\<not> pl_crashed after_retry"
    using conjunct1 [OF conjunct2 [OF spec]] by (simp add: after_retry_def two_events_def)
  moreover have "versioned_cm ''2'' ''[p]'' ''[]'' \<in> set (cs_sent (pl_cm after_retry))"
    by (simp add: after_retry_def three_writes_def)
  ultimately show ?thesis using conjunct2 [OF conjunct2 [OF spec]] by blast
qed

section \<open>Pods that come before the first event\<close>

text \<open>
  \<open>New\<close> waits until the informer has synchronised, not until the handlers have seen the first list,
  and until an event is handled the table is empty: every node passes every pod.
\<close>

lemma filter_before_first_load:
  "(\<exists>calls. reserve_New None True = (calls, Some (Inr (pl_table plugin_initially)))) \<and> plugin_reaches env plugin_initially \<and>
   Filter (pl_table plugin_initially) p ni clock = Success"
proof -
  have "Filter [] p ni clock = Success"
    by (cases "free_of ni"; cases "need_loop (p_containers p) (0, 0)") (simp add: Filter_def reservations_of_def)
  then show ?thesis by (auto simp: reserve_New_def plugin_initially_def intro: start [unfolded plugin_initially_def])
qed

text \<open>A write that the API server refuses stays in the object of the cache.\<close>

lemma refused_write_stays_in_cache:
  assumes "update_attempt env new st = (Some e, st')" and "ce_lister env (cs_sent st) (cs_cached st) = Inr cm"
    and "dumpToConfigMap (ce_marshal env) new = Inr data"
  shows "cs_cached st' = Some (cm\<lparr>cm_data := data\<rparr>)"
  using assms by (auto simp: update_attempt_def Let_def)

end
