(* ===== verification/Proto_Messages.thy ===== *)
theory Proto_Messages
  imports Prelude
begin

text \<open>
  The messages of \<open>model/biz/biz.pb.go\<close>, \<open>model/api\_service/api\_service.pb.go\<close> and
  \<open>model/auth/auth.pb.go\<close>, which protoc generated: the structs with the tags of their fields,
  \<open>Reset\<close>, \<open>ProtoReflect\<close>, the getters, the tables that describe a file to the runtime of protocol
  buffers, and the variables and the initialisation of a file.  The runtime itself (\<open>protoimpl\<close>)
  is a library: what it builds and how it compresses are parameters.

  A pointer to a message is an option, as is a slice, whose zero value is nil.
\<close>

type_synonym byte = "8 word"
type_synonym bytes = "byte list"

section \<open>What all messages have\<close>

text \<open>
  The first three fields of every struct; of the state only the message info that is stored in it
  matters, by its index in the table of the file.
\<close>

record proto_message =
  pm_state :: "nat option"
  pm_sizeCache :: int32
  pm_unknownFields :: bytes

text \<open>
  \<open>ProtoReflect\<close> of the message with index \<open>i\<close>: the state of the message with its info, which is
  stored when there is none yet, or what the info makes of the pointer.
\<close>

datatype reflected = StateInfo nat | MessageOf nat

definition proto_reflect ::
  "nat \<Rightarrow> bool \<Rightarrow> 'a proto_message_scheme option \<Rightarrow> reflected \<times> 'a proto_message_scheme option" where
  "proto_reflect i unsafeEnabled x =
     (case x of
        Some m \<Rightarrow>
          if unsafeEnabled then
            (case pm_state m of
               None \<Rightarrow> (StateInfo i, Some (m\<lparr>pm_state := Some i\<rparr>))
             | Some j \<Rightarrow> (StateInfo j, Some m))
          else (MessageOf i, Some m)
      | None \<Rightarrow> (MessageOf i, None))"

text \<open>What \<open>protoimpl.TypeBuilder\<close> is given.\<close>

record type_builder =
  GoPackagePath :: string
  RawDescriptor :: "bytes option"
  NumEnums :: nat
  NumMessages :: nat
  NumExtensions :: nat
  NumServices :: nat
  GoTypes :: "(string \<times> string) list option"
  DependencyIndexes :: "nat list option"
  MessageInfos :: nat

section \<open>The variables of a generated file\<close>

text \<open>
  Without unsafe pointers the runtime reaches the unexported fields through an exporter for each
  message: by the index of the field in the struct, and with a panic for another type.
\<close>

datatype unexported = PartState | PartSizeCache | PartUnknownFields

definition exporter :: "string \<Rightarrow> string \<Rightarrow> int \<Rightarrow> unexported option option" where
  "exporter name v i =
     (if v \<noteq> name then None
      else Some (if i = 0 then Some PartState else if i = 1 then Some PartSizeCache
                 else if i = 2 then Some PartUnknownFields else None))"

record 'f file_vars =
  fv_File :: "'f option"
  fv_rawDesc :: "bytes option"
  fv_goTypes :: "(string \<times> string) list option"
  fv_depIdxs :: "nat list option"
  fv_rawDescOnce :: bool
  fv_rawDescData :: "bytes option"
  fv_Exporters :: "(string \<Rightarrow> int \<Rightarrow> unexported option option) option list"

text \<open>\<open>rawDescData\<close> is initialised with the slice of \<open>rawDesc\<close>, before any \<open>init\<close> runs.\<close>

definition file_vars_initially :: "nat \<Rightarrow> bytes \<Rightarrow> (string \<times> string) list \<Rightarrow> nat list \<Rightarrow> 'f file_vars" where
  "file_vars_initially infos raw types deps =
     \<lparr>fv_File = None, fv_rawDesc = Some raw, fv_goTypes = Some types, fv_depIdxs = Some deps,
      fv_rawDescOnce = False, fv_rawDescData = Some raw, fv_Exporters = replicate infos None\<rparr>"

definition rawDescGZIP :: "(bytes option \<Rightarrow> bytes option) \<Rightarrow> 'f file_vars \<Rightarrow> bytes option \<times> 'f file_vars" where
  "rawDescGZIP compress v =
     (let v = (if fv_rawDescOnce v then v
               else v\<lparr>fv_rawDescOnce := True, fv_rawDescData := compress (fv_rawDescData v)\<rparr>)
      in (fv_rawDescData v, v))"

text \<open>\<open>Descriptor\<close> of the message with index \<open>i\<close>.\<close>

definition Descriptor :: "(bytes option \<Rightarrow> bytes option) \<Rightarrow> nat \<Rightarrow> 'f file_vars \<Rightarrow> (bytes option \<times> nat list) \<times> 'f file_vars" where
  "Descriptor compress i v = (case rawDescGZIP compress v of (d, v) \<Rightarrow> ((d, [i]), v))"

definition file_init ::
  "bool \<Rightarrow> string list \<Rightarrow> (bytes option \<Rightarrow> (string \<times> string) list option \<Rightarrow> nat list option \<Rightarrow> type_builder) \<Rightarrow>
   (type_builder \<Rightarrow> 'f) \<Rightarrow> 'f file_vars \<Rightarrow> 'f file_vars" where
  "file_init unsafeEnabled messages builder build v =
     (if fv_File v \<noteq> None then v
      else v\<lparr>fv_Exporters := (if \<not> unsafeEnabled then map (\<lambda>m. Some (exporter m)) messages else fv_Exporters v),
             fv_File := Some (build (builder (fv_rawDesc v) (fv_goTypes v) (fv_depIdxs v))),
             fv_rawDesc := None, fv_goTypes := None, fv_depIdxs := None\<rparr>)"

section \<open>The file biz.pb.go\<close>

record ResourceOption = proto_message +
  ResourceOption_Cpus :: int32
  ResourceOption_MemInMb :: int32
  ResourceOption_StorageMb :: int32
  ResourceOption_FilesystemMb :: int32

definition ResourceOption_tags :: "(string \<times> string) list" where
  "ResourceOption_tags =
     [(''Cpus'', ''varint,1,opt,name=cpus,proto3''),
      (''MemInMb'', ''varint,2,opt,name=memInMb,proto3''),
      (''StorageMb'', ''varint,3,opt,name=storageMb,proto3''),
      (''FilesystemMb'', ''varint,4,opt,name=filesystemMb,proto3'')]"

definition new_ResourceOption :: ResourceOption where
  "new_ResourceOption = \<lparr>pm_state = None, pm_sizeCache = 0, pm_unknownFields = [],
     ResourceOption_Cpus = 0, ResourceOption_MemInMb = 0, ResourceOption_StorageMb = 0, ResourceOption_FilesystemMb = 0\<rparr>"

definition ResourceOption_Reset :: "bool \<Rightarrow> ResourceOption" where
  "ResourceOption_Reset unsafeEnabled =
     (let x = new_ResourceOption in if unsafeEnabled then x\<lparr>pm_state := Some 2\<rparr> else x)"

definition ResourceOption_ProtoReflect :: "bool \<Rightarrow> ResourceOption option \<Rightarrow> reflected \<times> ResourceOption option" where
  "ResourceOption_ProtoReflect unsafeEnabled x = proto_reflect 2 unsafeEnabled x"

definition ResourceOption_GetCpus :: "ResourceOption option \<Rightarrow> int32" where
  "ResourceOption_GetCpus x = (case x of Some x \<Rightarrow> ResourceOption_Cpus x | None \<Rightarrow> 0)"

definition ResourceOption_GetMemInMb :: "ResourceOption option \<Rightarrow> int32" where
  "ResourceOption_GetMemInMb x = (case x of Some x \<Rightarrow> ResourceOption_MemInMb x | None \<Rightarrow> 0)"

definition ResourceOption_GetStorageMb :: "ResourceOption option \<Rightarrow> int32" where
  "ResourceOption_GetStorageMb x = (case x of Some x \<Rightarrow> ResourceOption_StorageMb x | None \<Rightarrow> 0)"

definition ResourceOption_GetFilesystemMb :: "ResourceOption option \<Rightarrow> int32" where
  "ResourceOption_GetFilesystemMb x = (case x of Some x \<Rightarrow> ResourceOption_FilesystemMb x | None \<Rightarrow> 0)"

record ServiceOption = proto_message +
  ServiceOption_Stateful :: bool
  ServiceOption_Replicas :: int32
  ServiceOption_WithStagingEnv :: bool
  ServiceOption_Resource :: "ResourceOption option"

definition ServiceOption_tags :: "(string \<times> string) list" where
  "ServiceOption_tags =
     [(''Stateful'', ''varint,1,opt,name=stateful,proto3''),
      (''Replicas'', ''varint,2,opt,name=replicas,proto3''),
      (''WithStagingEnv'', ''varint,3,opt,name=withStagingEnv,proto3''),
      (''Resource'', ''bytes,4,opt,name=resource,proto3'')]"

definition new_ServiceOption :: ServiceOption where
  "new_ServiceOption = \<lparr>pm_state = None, pm_sizeCache = 0, pm_unknownFields = [],
     ServiceOption_Stateful = False, ServiceOption_Replicas = 0, ServiceOption_WithStagingEnv = False, ServiceOption_Resource = None\<rparr>"

definition ServiceOption_Reset :: "bool \<Rightarrow> ServiceOption" where
  "ServiceOption_Reset unsafeEnabled =
     (let x = new_ServiceOption in if unsafeEnabled then x\<lparr>pm_state := Some 1\<rparr> else x)"

definition ServiceOption_ProtoReflect :: "bool \<Rightarrow> ServiceOption option \<Rightarrow> reflected \<times> ServiceOption option" where
  "ServiceOption_ProtoReflect unsafeEnabled x = proto_reflect 1 unsafeEnabled x"

definition ServiceOption_GetStateful :: "ServiceOption option \<Rightarrow> bool" where
  "ServiceOption_GetStateful x = (case x of Some x \<Rightarrow> ServiceOption_Stateful x | None \<Rightarrow> False)"

definition ServiceOption_GetReplicas :: "ServiceOption option \<Rightarrow> int32" where
  "ServiceOption_GetReplicas x = (case x of Some x \<Rightarrow> ServiceOption_Replicas x | None \<Rightarrow> 0)"

definition ServiceOption_GetWithStagingEnv :: "ServiceOption option \<Rightarrow> bool" where
  "ServiceOption_GetWithStagingEnv x = (case x of Some x \<Rightarrow> ServiceOption_WithStagingEnv x | None \<Rightarrow> False)"

definition ServiceOption_GetResource :: "ServiceOption option \<Rightarrow> ResourceOption option" where
  "ServiceOption_GetResource x = (case x of Some x \<Rightarrow> ServiceOption_Resource x | None \<Rightarrow> None)"

record Service = proto_message +
  Service_Id :: string
  Service_OwnerId :: string
  Service_Admins :: "string list option"
  Service_Name :: string
  Service_Option :: "ServiceOption option"

definition Service_tags :: "(string \<times> string) list" where
  "Service_tags =
     [(''Id'', ''bytes,1,opt,name=id,proto3''),
      (''OwnerId'', ''bytes,2,opt,name=ownerId,proto3''),
      (''Admins'', ''bytes,3,rep,name=admins,proto3''),
      (''Name'', ''bytes,4,opt,name=name,proto3''),
      (''Option'', ''bytes,5,opt,name=option,proto3'')]"

definition new_Service :: Service where
  "new_Service = \<lparr>pm_state = None, pm_sizeCache = 0, pm_unknownFields = [],
     Service_Id = '''', Service_OwnerId = '''', Service_Admins = None, Service_Name = '''', Service_Option = None\<rparr>"

definition Service_Reset :: "bool \<Rightarrow> Service" where
  "Service_Reset unsafeEnabled =
     (let x = new_Service in if unsafeEnabled then x\<lparr>pm_state := Some 0\<rparr> else x)"

definition Service_ProtoReflect :: "bool \<Rightarrow> Service option \<Rightarrow> reflected \<times> Service option" where
  "Service_ProtoReflect unsafeEnabled x = proto_reflect 0 unsafeEnabled x"

definition Service_GetId :: "Service option \<Rightarrow> string" where
  "Service_GetId x = (case x of Some x \<Rightarrow> Service_Id x | None \<Rightarrow> '''')"

definition Service_GetOwnerId :: "Service option \<Rightarrow> string" where
  "Service_GetOwnerId x = (case x of Some x \<Rightarrow> Service_OwnerId x | None \<Rightarrow> '''')"

definition Service_GetAdmins :: "Service option \<Rightarrow> string list option" where
  "Service_GetAdmins x = (case x of Some x \<Rightarrow> Service_Admins x | None \<Rightarrow> None)"

definition Service_GetName :: "Service option \<Rightarrow> string" where
  "Service_GetName x = (case x of Some x \<Rightarrow> Service_Name x | None \<Rightarrow> '''')"

definition Service_GetOption :: "Service option \<Rightarrow> ServiceOption option" where
  "Service_GetOption x = (case x of Some x \<Rightarrow> Service_Option x | None \<Rightarrow> None)"

definition file_biz_proto_rawDesc :: bytes where
  "file_biz_proto_rawDesc =
     [0x0a, 0x09, 0x62, 0x69, 0x7a, 0x2e, 0x70, 0x72, 0x6f, 0x74, 0x6f, 0x12, 0x03, 0x62, 0x69, 0x7a,
      0x22, 0x8b, 0x01, 0x0a, 0x07, 0x53, 0x65, 0x72, 0x76, 0x69, 0x63, 0x65, 0x12, 0x0e, 0x0a, 0x02,
      0x69, 0x64, 0x18, 0x01, 0x20, 0x01, 0x28, 0x09, 0x52, 0x02, 0x69, 0x64, 0x12, 0x18, 0x0a, 0x07,
      0x6f, 0x77, 0x6e, 0x65, 0x72, 0x49, 0x64, 0x18, 0x02, 0x20, 0x01, 0x28, 0x09, 0x52, 0x07, 0x6f,
      0x77, 0x6e, 0x65, 0x72, 0x49, 0x64, 0x12, 0x16, 0x0a, 0x06, 0x61, 0x64, 0x6d, 0x69, 0x6e, 0x73,
      0x18, 0x03, 0x20, 0x03, 0x28, 0x09, 0x52, 0x06, 0x61, 0x64, 0x6d, 0x69, 0x6e, 0x73, 0x12, 0x12,
      0x0a, 0x04, 0x6e, 0x61, 0x6d, 0x65, 0x18, 0x04, 0x20, 0x01, 0x28, 0x09, 0x52, 0x04, 0x6e, 0x61,
      0x6d, 0x65, 0x12, 0x2a, 0x0a, 0x06, 0x6f, 0x70, 0x74, 0x69, 0x6f, 0x6e, 0x18, 0x05, 0x20, 0x01,
      0x28, 0x0b, 0x32, 0x12, 0x2e, 0x62, 0x69, 0x7a, 0x2e, 0x53, 0x65, 0x72, 0x76, 0x69, 0x63, 0x65,
      0x4f, 0x70, 0x74, 0x69, 0x6f, 0x6e, 0x52, 0x06, 0x6f, 0x70, 0x74, 0x69, 0x6f, 0x6e, 0x22, 0xa0,
      0x01, 0x0a, 0x0d, 0x53, 0x65, 0x72, 0x76, 0x69, 0x63, 0x65, 0x4f, 0x70, 0x74, 0x69, 0x6f, 0x6e,
      0x12, 0x1a, 0x0a, 0x08, 0x73, 0x74, 0x61, 0x74, 0x65, 0x66, 0x75, 0x6c, 0x18, 0x01, 0x20, 0x01,
      0x28, 0x08, 0x52, 0x08, 0x73, 0x74, 0x61, 0x74, 0x65, 0x66, 0x75, 0x6c, 0x12, 0x1a, 0x0a, 0x08,
      0x72, 0x65, 0x70, 0x6c, 0x69, 0x63, 0x61, 0x73, 0x18, 0x02, 0x20, 0x01, 0x28, 0x05, 0x52, 0x08,
      0x72, 0x65, 0x70, 0x6c, 0x69, 0x63, 0x61, 0x73, 0x12, 0x26, 0x0a, 0x0e, 0x77, 0x69, 0x74, 0x68,
      0x53, 0x74, 0x61, 0x67, 0x69, 0x6e, 0x67, 0x45, 0x6e, 0x76, 0x18, 0x03, 0x20, 0x01, 0x28, 0x08,
      0x52, 0x0e, 0x77, 0x69, 0x74, 0x68, 0x53, 0x74, 0x61, 0x67, 0x69, 0x6e, 0x67, 0x45, 0x6e, 0x76,
      0x12, 0x2f, 0x0a, 0x08, 0x72, 0x65, 0x73, 0x6f, 0x75, 0x72, 0x63, 0x65, 0x18, 0x04, 0x20, 0x01,
      0x28, 0x0b, 0x32, 0x13, 0x2e, 0x62, 0x69, 0x7a, 0x2e, 0x52, 0x65, 0x73, 0x6f, 0x75, 0x72, 0x63,
      0x65, 0x4f, 0x70, 0x74, 0x69, 0x6f, 0x6e, 0x52, 0x08, 0x72, 0x65, 0x73, 0x6f, 0x75, 0x72, 0x63,
      0x65, 0x22, 0x80, 0x01, 0x0a, 0x0e, 0x52, 0x65, 0x73, 0x6f, 0x75, 0x72, 0x63, 0x65, 0x4f, 0x70,
      0x74, 0x69, 0x6f, 0x6e, 0x12, 0x12, 0x0a, 0x04, 0x63, 0x70, 0x75, 0x73, 0x18, 0x01, 0x20, 0x01,
      0x28, 0x05, 0x52, 0x04, 0x63, 0x70, 0x75, 0x73, 0x12, 0x18, 0x0a, 0x07, 0x6d, 0x65, 0x6d, 0x49,
      0x6e, 0x4d, 0x62, 0x18, 0x02, 0x20, 0x01, 0x28, 0x05, 0x52, 0x07, 0x6d, 0x65, 0x6d, 0x49, 0x6e,
      0x4d, 0x62, 0x12, 0x1c, 0x0a, 0x09, 0x73, 0x74, 0x6f, 0x72, 0x61, 0x67, 0x65, 0x4d, 0x62, 0x18,
      0x03, 0x20, 0x01, 0x28, 0x05, 0x52, 0x09, 0x73, 0x74, 0x6f, 0x72, 0x61, 0x67, 0x65, 0x4d, 0x62,
      0x12, 0x22, 0x0a, 0x0c, 0x66, 0x69, 0x6c, 0x65, 0x73, 0x79, 0x73, 0x74, 0x65, 0x6d, 0x4d, 0x62,
      0x18, 0x04, 0x20, 0x01, 0x28, 0x05, 0x52, 0x0c, 0x66, 0x69, 0x6c, 0x65, 0x73, 0x79, 0x73, 0x74,
      0x65, 0x6d, 0x4d, 0x62, 0x42, 0x13, 0x5a, 0x11, 0x75, 0x6e, 0x69, 0x63, 0x6f, 0x72, 0x65, 0x2f,
      0x6d, 0x6f, 0x64, 0x65, 0x6c, 0x2f, 0x62, 0x69, 0x7a, 0x62, 0x06, 0x70, 0x72, 0x6f, 0x74, 0x6f,
      0x33]"

definition file_biz_proto_goTypes :: "(string \<times> string) list" where
  "file_biz_proto_goTypes =
     [(''biz'', ''Service''), (''biz'', ''ServiceOption''), (''biz'', ''ResourceOption'')]"

definition file_biz_proto_depIdxs :: "nat list" where
  "file_biz_proto_depIdxs = [1, 2, 2, 2, 2, 2, 0]"

definition file_biz_proto_builder :: "nat \<Rightarrow> string \<Rightarrow> bytes option \<Rightarrow> (string \<times> string) list option \<Rightarrow> nat list option \<Rightarrow> type_builder" where
  "file_biz_proto_builder infos pkgPath rawDesc goTypes depIdxs =
     \<lparr>GoPackagePath = pkgPath, RawDescriptor = rawDesc, NumEnums = 0, NumMessages = 3,
      NumExtensions = 0, NumServices = 0, GoTypes = goTypes, DependencyIndexes = depIdxs, MessageInfos = infos\<rparr>"

definition file_biz_proto_msgTypes :: nat where
  "file_biz_proto_msgTypes = 3"

definition file_biz_proto_exported :: "string list" where
  "file_biz_proto_exported = [''Service'', ''ServiceOption'', ''ResourceOption'']"

section \<open>The file api\_service.pb.go\<close>

record CreateServiceReq = proto_message +
  CreateServiceReq_OwnerId :: string
  CreateServiceReq_Admins :: "string list option"
  CreateServiceReq_Name :: string
  CreateServiceReq_Option :: "ServiceOption option"

definition CreateServiceReq_tags :: "(string \<times> string) list" where
  "CreateServiceReq_tags =
     [(''OwnerId'', ''bytes,2,opt,name=ownerId,proto3''),
      (''Admins'', ''bytes,3,rep,name=admins,proto3''),
      (''Name'', ''bytes,4,opt,name=name,proto3''),
      (''Option'', ''bytes,5,opt,name=option,proto3'')]"

definition new_CreateServiceReq :: CreateServiceReq where
  "new_CreateServiceReq = \<lparr>pm_state = None, pm_sizeCache = 0, pm_unknownFields = [],
     CreateServiceReq_OwnerId = '''', CreateServiceReq_Admins = None, CreateServiceReq_Name = '''', CreateServiceReq_Option = None\<rparr>"

definition CreateServiceReq_Reset :: "bool \<Rightarrow> CreateServiceReq" where
  "CreateServiceReq_Reset unsafeEnabled =
     (let x = new_CreateServiceReq in if unsafeEnabled then x\<lparr>pm_state := Some 0\<rparr> else x)"

definition CreateServiceReq_ProtoReflect :: "bool \<Rightarrow> CreateServiceReq option \<Rightarrow> reflected \<times> CreateServiceReq option" where
  "CreateServiceReq_ProtoReflect unsafeEnabled x = proto_reflect 0 unsafeEnabled x"

definition CreateServiceReq_GetOwnerId :: "CreateServiceReq option \<Rightarrow> string" where
  "CreateServiceReq_GetOwnerId x = (case x of Some x \<Rightarrow> CreateServiceReq_OwnerId x | None \<Rightarrow> '''')"

definition CreateServiceReq_GetAdmins :: "CreateServiceReq option \<Rightarrow> string list option" where
  "CreateServiceReq_GetAdmins x = (case x of Some x \<Rightarrow> CreateServiceReq_Admins x | None \<Rightarrow> None)"

definition CreateServiceReq_GetName :: "CreateServiceReq option \<Rightarrow> string" where
  "CreateServiceReq_GetName x = (case x of Some x \<Rightarrow> CreateServiceReq_Name x | None \<Rightarrow> '''')"

definition CreateServiceReq_GetOption :: "CreateServiceReq option \<Rightarrow> ServiceOption option" where
  "CreateServiceReq_GetOption x = (case x of Some x \<Rightarrow> CreateServiceReq_Option x | None \<Rightarrow> None)"

record CreateServiceResp = proto_message +
  CreateServiceResp_Success :: bool
  CreateServiceResp_Id :: int32

definition CreateServiceResp_tags :: "(string \<times> string) list" where
  "CreateServiceResp_tags =
     [(''Success'', ''varint,1,opt,name=success,proto3''),
      (''Id'', ''varint,2,opt,name=id,proto3'')]"

definition new_CreateServiceResp :: CreateServiceResp where
  "new_CreateServiceResp = \<lparr>pm_state = None, pm_sizeCache = 0, pm_unknownFields = [],
     CreateServiceResp_Success = False, CreateServiceResp_Id = 0\<rparr>"

definition CreateServiceResp_Reset :: "bool \<Rightarrow> CreateServiceResp" where
  "CreateServiceResp_Reset unsafeEnabled =
     (let x = new_CreateServiceResp in if unsafeEnabled then x\<lparr>pm_state := Some 1\<rparr> else x)"

definition CreateServiceResp_ProtoReflect :: "bool \<Rightarrow> CreateServiceResp option \<Rightarrow> reflected \<times> CreateServiceResp option" where
  "CreateServiceResp_ProtoReflect unsafeEnabled x = proto_reflect 1 unsafeEnabled x"

definition CreateServiceResp_GetSuccess :: "CreateServiceResp option \<Rightarrow> bool" where
  "CreateServiceResp_GetSuccess x = (case x of Some x \<Rightarrow> CreateServiceResp_Success x | None \<Rightarrow> False)"

definition CreateServiceResp_GetId :: "CreateServiceResp option \<Rightarrow> int32" where
  "CreateServiceResp_GetId x = (case x of Some x \<Rightarrow> CreateServiceResp_Id x | None \<Rightarrow> 0)"

definition file_api_service_proto_rawDesc :: bytes where
  "file_api_service_proto_rawDesc =
     [0x0a, 0x11, 0x61, 0x70, 0x69, 0x5f, 0x73, 0x65, 0x72, 0x76, 0x69, 0x63, 0x65, 0x2e, 0x70, 0x72,
      0x6f, 0x74, 0x6f, 0x12, 0x0b, 0x61, 0x70, 0x69, 0x5f, 0x73, 0x65, 0x72, 0x76, 0x69, 0x63, 0x65,
      0x1a, 0x09, 0x62, 0x69, 0x7a, 0x2e, 0x70, 0x72, 0x6f, 0x74, 0x6f, 0x22, 0x84, 0x01, 0x0a, 0x10,
      0x43, 0x72, 0x65, 0x61, 0x74, 0x65, 0x53, 0x65, 0x72, 0x76, 0x69, 0x63, 0x65, 0x52, 0x65, 0x71,
      0x12, 0x18, 0x0a, 0x07, 0x6f, 0x77, 0x6e, 0x65, 0x72, 0x49, 0x64, 0x18, 0x02, 0x20, 0x01, 0x28,
      0x09, 0x52, 0x07, 0x6f, 0x77, 0x6e, 0x65, 0x72, 0x49, 0x64, 0x12, 0x16, 0x0a, 0x06, 0x61, 0x64,
      0x6d, 0x69, 0x6e, 0x73, 0x18, 0x03, 0x20, 0x03, 0x28, 0x09, 0x52, 0x06, 0x61, 0x64, 0x6d, 0x69,
      0x6e, 0x73, 0x12, 0x12, 0x0a, 0x04, 0x6e, 0x61, 0x6d, 0x65, 0x18, 0x04, 0x20, 0x01, 0x28, 0x09,
      0x52, 0x04, 0x6e, 0x61, 0x6d, 0x65, 0x12, 0x2a, 0x0a, 0x06, 0x6f, 0x70, 0x74, 0x69, 0x6f, 0x6e,
      0x18, 0x05, 0x20, 0x01, 0x28, 0x0b, 0x32, 0x12, 0x2e, 0x62, 0x69, 0x7a, 0x2e, 0x53, 0x65, 0x72,
      0x76, 0x69, 0x63, 0x65, 0x4f, 0x70, 0x74, 0x69, 0x6f, 0x6e, 0x52, 0x06, 0x6f, 0x70, 0x74, 0x69,
      0x6f, 0x6e, 0x22, 0x3d, 0x0a, 0x11, 0x43, 0x72, 0x65, 0x61, 0x74, 0x65, 0x53, 0x65, 0x72, 0x76,
      0x69, 0x63, 0x65, 0x52, 0x65, 0x73, 0x70, 0x12, 0x18, 0x0a, 0x07, 0x73, 0x75, 0x63, 0x63, 0x65,
      0x73, 0x73, 0x18, 0x01, 0x20, 0x01, 0x28, 0x08, 0x52, 0x07, 0x73, 0x75, 0x63, 0x63, 0x65, 0x73,
      0x73, 0x12, 0x0e, 0x0a, 0x02, 0x69, 0x64, 0x18, 0x02, 0x20, 0x01, 0x28, 0x05, 0x52, 0x02, 0x69,
      0x64, 0x42, 0x1b, 0x5a, 0x19, 0x75, 0x6e, 0x69, 0x63, 0x6f, 0x72, 0x65, 0x2f, 0x6d, 0x6f, 0x64,
      0x65, 0x6c, 0x2f, 0x61, 0x70, 0x69, 0x5f, 0x73, 0x65, 0x72, 0x76, 0x69, 0x63, 0x65, 0x62, 0x06,
      0x70, 0x72, 0x6f, 0x74, 0x6f, 0x33]"

definition file_api_service_proto_goTypes :: "(string \<times> string) list" where
  "file_api_service_proto_goTypes =
     [(''api_service'', ''CreateServiceReq''), (''api_service'', ''CreateServiceResp''), (''biz'', ''ServiceOption'')]"

definition file_api_service_proto_depIdxs :: "nat list" where
  "file_api_service_proto_depIdxs = [2, 1, 1, 1, 1, 0]"

definition file_api_service_proto_builder :: "nat \<Rightarrow> string \<Rightarrow> bytes option \<Rightarrow> (string \<times> string) list option \<Rightarrow> nat list option \<Rightarrow> type_builder" where
  "file_api_service_proto_builder infos pkgPath rawDesc goTypes depIdxs =
     \<lparr>GoPackagePath = pkgPath, RawDescriptor = rawDesc, NumEnums = 0, NumMessages = 2,
      NumExtensions = 0, NumServices = 0, GoTypes = goTypes, DependencyIndexes = depIdxs, MessageInfos = infos\<rparr>"

definition file_api_service_proto_msgTypes :: nat where
  "file_api_service_proto_msgTypes = 2"

definition file_api_service_proto_exported :: "string list" where
  "file_api_service_proto_exported = [''CreateServiceReq'', ''CreateServiceResp'']"

section \<open>The file auth.pb.go\<close>

record RegisterReq = proto_message +
  RegisterReq_Username :: string
  RegisterReq_Password :: "bytes option"

definition RegisterReq_tags :: "(string \<times> string) list" where
  "RegisterReq_tags =
     [(''Username'', ''bytes,1,opt,name=username,proto3''),
      (''Password'', ''bytes,2,opt,name=password,proto3'')]"

definition new_RegisterReq :: RegisterReq where
  "new_RegisterReq = \<lparr>pm_state = None, pm_sizeCache = 0, pm_unknownFields = [],
     RegisterReq_Username = '''', RegisterReq_Password = None\<rparr>"

definition RegisterReq_Reset :: "bool \<Rightarrow> RegisterReq" where
  "RegisterReq_Reset unsafeEnabled =
     (let x = new_RegisterReq in if unsafeEnabled then x\<lparr>pm_state := Some 0\<rparr> else x)"

definition RegisterReq_ProtoReflect :: "bool \<Rightarrow> RegisterReq option \<Rightarrow> reflected \<times> RegisterReq option" where
  "RegisterReq_ProtoReflect unsafeEnabled x = proto_reflect 0 unsafeEnabled x"

definition RegisterReq_GetUsername :: "RegisterReq option \<Rightarrow> string" where
  "RegisterReq_GetUsername x = (case x of Some x \<Rightarrow> RegisterReq_Username x | None \<Rightarrow> '''')"

definition RegisterReq_GetPassword :: "RegisterReq option \<Rightarrow> bytes option" where
  "RegisterReq_GetPassword x = (case x of Some x \<Rightarrow> RegisterReq_Password x | None \<Rightarrow> None)"

record RegisterResp = proto_message +
  RegisterResp_Ok :: bool

definition RegisterResp_tags :: "(string \<times> string) list" where
  "RegisterResp_tags =
     [(''Ok'', ''varint,1,opt,name=ok,proto3'')]"

definition new_RegisterResp :: RegisterResp where
  "new_RegisterResp = \<lparr>pm_state = None, pm_sizeCache = 0, pm_unknownFields = [],
     RegisterResp_Ok = False\<rparr>"

definition RegisterResp_Reset :: "bool \<Rightarrow> RegisterResp" where
  "RegisterResp_Reset unsafeEnabled =
     (let x = new_RegisterResp in if unsafeEnabled then x\<lparr>pm_state := Some 1\<rparr> else x)"

definition RegisterResp_ProtoReflect :: "bool \<Rightarrow> RegisterResp option \<Rightarrow> reflected \<times> RegisterResp option" where
  "RegisterResp_ProtoReflect unsafeEnabled x = proto_reflect 1 unsafeEnabled x"

definition RegisterResp_GetOk :: "RegisterResp option \<Rightarrow> bool" where
  "RegisterResp_GetOk x = (case x of Some x \<Rightarrow> RegisterResp_Ok x | None \<Rightarrow> False)"

record LoginReq = proto_message +
  LoginReq_Username :: string
  LoginReq_Password :: "bytes option"

definition LoginReq_tags :: "(string \<times> string) list" where
  "LoginReq_tags =
     [(''Username'', ''bytes,1,opt,name=username,proto3''),
      (''Password'', ''bytes,2,opt,name=password,proto3'')]"

definition new_LoginReq :: LoginReq where
  "new_LoginReq = \<lparr>pm_state = None, pm_sizeCache = 0, pm_unknownFields = [],
     LoginReq_Username = '''', LoginReq_Password = None\<rparr>"

definition LoginReq_Reset :: "bool \<Rightarrow> LoginReq" where
  "LoginReq_Reset unsafeEnabled =
     (let x = new_LoginReq in if unsafeEnabled then x\<lparr>pm_state := Some 2\<rparr> else x)"

definition LoginReq_ProtoReflect :: "bool \<Rightarrow> LoginReq option \<Rightarrow> reflected \<times> LoginReq option" where
  "LoginReq_ProtoReflect unsafeEnabled x = proto_reflect 2 unsafeEnabled x"

definition LoginReq_GetUsername :: "LoginReq option \<Rightarrow> string" where
  "LoginReq_GetUsername x = (case x of Some x \<Rightarrow> LoginReq_Username x | None \<Rightarrow> '''')"

definition LoginReq_GetPassword :: "LoginReq option \<Rightarrow> bytes option" where
  "LoginReq_GetPassword x = (case x of Some x \<Rightarrow> LoginReq_Password x | None \<Rightarrow> None)"

record LoginResp = proto_message +
  LoginResp_Succ :: bool
  LoginResp_Token :: string

definition LoginResp_tags :: "(string \<times> string) list" where
  "LoginResp_tags =
     [(''Succ'', ''varint,1,opt,name=succ,proto3''),
      (''Token'', ''bytes,2,opt,name=token,proto3'')]"

definition new_LoginResp :: LoginResp where
  "new_LoginResp = \<lparr>pm_state = None, pm_sizeCache = 0, pm_unknownFields = [],
     LoginResp_Succ = False, LoginResp_Token = ''''\<rparr>"

definition LoginResp_Reset :: "bool \<Rightarrow> LoginResp" where
  "LoginResp_Reset unsafeEnabled =
     (let x = new_LoginResp in if unsafeEnabled then x\<lparr>pm_state := Some 3\<rparr> else x)"

definition LoginResp_ProtoReflect :: "bool \<Rightarrow> LoginResp option \<Rightarrow> reflected \<times> LoginResp option" where
  "LoginResp_ProtoReflect unsafeEnabled x = proto_reflect 3 unsafeEnabled x"

definition LoginResp_GetSucc :: "LoginResp option \<Rightarrow> bool" where
  "LoginResp_GetSucc x = (case x of Some x \<Rightarrow> LoginResp_Succ x | None \<Rightarrow> False)"

definition LoginResp_GetToken :: "LoginResp option \<Rightarrow> string" where
  "LoginResp_GetToken x = (case x of Some x \<Rightarrow> LoginResp_Token x | None \<Rightarrow> '''')"

record VerifyTokenReq = proto_message +
  VerifyTokenReq_Token :: string

definition VerifyTokenReq_tags :: "(string \<times> string) list" where
  "VerifyTokenReq_tags =
     [(''Token'', ''bytes,1,opt,name=token,proto3'')]"

definition new_VerifyTokenReq :: VerifyTokenReq where
  "new_VerifyTokenReq = \<lparr>pm_state = None, pm_sizeCache = 0, pm_unknownFields = [],
     VerifyTokenReq_Token = ''''\<rparr>"

definition VerifyTokenReq_Reset :: "bool \<Rightarrow> VerifyTokenReq" where
  "VerifyTokenReq_Reset unsafeEnabled =
     (let x = new_VerifyTokenReq in if unsafeEnabled then x\<lparr>pm_state := Some 4\<rparr> else x)"

definition VerifyTokenReq_ProtoReflect :: "bool \<Rightarrow> VerifyTokenReq option \<Rightarrow> reflected \<times> VerifyTokenReq option" where
  "VerifyTokenReq_ProtoReflect unsafeEnabled x = proto_reflect 4 unsafeEnabled x"

definition VerifyTokenReq_GetToken :: "VerifyTokenReq option \<Rightarrow> string" where
  "VerifyTokenReq_GetToken x = (case x of Some x \<Rightarrow> VerifyTokenReq_Token x | None \<Rightarrow> '''')"

record VerifyTokenResp = proto_message +
  VerifyTokenResp_Valid :: bool

definition VerifyTokenResp_tags :: "(string \<times> string) list" where
  "VerifyTokenResp_tags =
     [(''Valid'', ''varint,1,opt,name=valid,proto3'')]"

definition new_VerifyTokenResp :: VerifyTokenResp where
  "new_VerifyTokenResp = \<lparr>pm_state = None, pm_sizeCache = 0, pm_unknownFields = [],
     VerifyTokenResp_Valid = False\<rparr>"

definition VerifyTokenResp_Reset :: "bool \<Rightarrow> VerifyTokenResp" where
  "VerifyTokenResp_Reset unsafeEnabled =
     (let x = new_VerifyTokenResp in if unsafeEnabled then x\<lparr>pm_state := Some 5\<rparr> else x)"

definition VerifyTokenResp_ProtoReflect :: "bool \<Rightarrow> VerifyTokenResp option \<Rightarrow> reflected \<times> VerifyTokenResp option" where
  "VerifyTokenResp_ProtoReflect unsafeEnabled x = proto_reflect 5 unsafeEnabled x"

definition VerifyTokenResp_GetValid :: "VerifyTokenResp option \<Rightarrow> bool" where
  "VerifyTokenResp_GetValid x = (case x of Some x \<Rightarrow> VerifyTokenResp_Valid x | None \<Rightarrow> False)"

definition file_auth_proto_rawDesc :: bytes where
  "file_auth_proto_rawDesc =
     [0x0a, 0x0a, 0x61, 0x75, 0x74, 0x68, 0x2e, 0x70, 0x72, 0x6f, 0x74, 0x6f, 0x12, 0x04, 0x61, 0x75,
      0x74, 0x68, 0x22, 0x45, 0x0a, 0x0b, 0x52, 0x65, 0x67, 0x69, 0x73, 0x74, 0x65, 0x72, 0x52, 0x65,
      0x71, 0x12, 0x1a, 0x0a, 0x08, 0x75, 0x73, 0x65, 0x72, 0x6e, 0x61, 0x6d, 0x65, 0x18, 0x01, 0x20,
      0x01, 0x28, 0x09, 0x52, 0x08, 0x75, 0x73, 0x65, 0x72, 0x6e, 0x61, 0x6d, 0x65, 0x12, 0x1a, 0x0a,
      0x08, 0x70, 0x61, 0x73, 0x73, 0x77, 0x6f, 0x72, 0x64, 0x18, 0x02, 0x20, 0x01, 0x28, 0x0c, 0x52,
      0x08, 0x70, 0x61, 0x73, 0x73, 0x77, 0x6f, 0x72, 0x64, 0x22, 0x1e, 0x0a, 0x0c, 0x52, 0x65, 0x67,
      0x69, 0x73, 0x74, 0x65, 0x72, 0x52, 0x65, 0x73, 0x70, 0x12, 0x0e, 0x0a, 0x02, 0x6f, 0x6b, 0x18,
      0x01, 0x20, 0x01, 0x28, 0x08, 0x52, 0x02, 0x6f, 0x6b, 0x22, 0x42, 0x0a, 0x08, 0x4c, 0x6f, 0x67,
      0x69, 0x6e, 0x52, 0x65, 0x71, 0x12, 0x1a, 0x0a, 0x08, 0x75, 0x73, 0x65, 0x72, 0x6e, 0x61, 0x6d,
      0x65, 0x18, 0x01, 0x20, 0x01, 0x28, 0x09, 0x52, 0x08, 0x75, 0x73, 0x65, 0x72, 0x6e, 0x61, 0x6d,
      0x65, 0x12, 0x1a, 0x0a, 0x08, 0x70, 0x61, 0x73, 0x73, 0x77, 0x6f, 0x72, 0x64, 0x18, 0x02, 0x20,
      0x01, 0x28, 0x0c, 0x52, 0x08, 0x70, 0x61, 0x73, 0x73, 0x77, 0x6f, 0x72, 0x64, 0x22, 0x35, 0x0a,
      0x09, 0x4c, 0x6f, 0x67, 0x69, 0x6e, 0x52, 0x65, 0x73, 0x70, 0x12, 0x12, 0x0a, 0x04, 0x73, 0x75,
      0x63, 0x63, 0x18, 0x01, 0x20, 0x01, 0x28, 0x08, 0x52, 0x04, 0x73, 0x75, 0x63, 0x63, 0x12, 0x14,
      0x0a, 0x05, 0x74, 0x6f, 0x6b, 0x65, 0x6e, 0x18, 0x02, 0x20, 0x01, 0x28, 0x09, 0x52, 0x05, 0x74,
      0x6f, 0x6b, 0x65, 0x6e, 0x22, 0x26, 0x0a, 0x0e, 0x56, 0x65, 0x72, 0x69, 0x66, 0x79, 0x54, 0x6f,
      0x6b, 0x65, 0x6e, 0x52, 0x65, 0x71, 0x12, 0x14, 0x0a, 0x05, 0x74, 0x6f, 0x6b, 0x65, 0x6e, 0x18,
      0x01, 0x20, 0x01, 0x28, 0x09, 0x52, 0x05, 0x74, 0x6f, 0x6b, 0x65, 0x6e, 0x22, 0x27, 0x0a, 0x0f,
      0x56, 0x65, 0x72, 0x69, 0x66, 0x79, 0x54, 0x6f, 0x6b, 0x65, 0x6e, 0x52, 0x65, 0x73, 0x70, 0x12,
      0x14, 0x0a, 0x05, 0x76, 0x61, 0x6c, 0x69, 0x64, 0x18, 0x01, 0x20, 0x01, 0x28, 0x08, 0x52, 0x05,
      0x76, 0x61, 0x6c, 0x69, 0x64, 0x32, 0x63, 0x0a, 0x04, 0x41, 0x75, 0x74, 0x68, 0x12, 0x31, 0x0a,
      0x08, 0x52, 0x65, 0x67, 0x69, 0x73, 0x74, 0x65, 0x72, 0x12, 0x11, 0x2e, 0x61, 0x75, 0x74, 0x68,
      0x2e, 0x52, 0x65, 0x67, 0x69, 0x73, 0x74, 0x65, 0x72, 0x52, 0x65, 0x71, 0x1a, 0x12, 0x2e, 0x61,
      0x75, 0x74, 0x68, 0x2e, 0x52, 0x65, 0x67, 0x69, 0x73, 0x74, 0x65, 0x72, 0x52, 0x65, 0x73, 0x70,
      0x12, 0x28, 0x0a, 0x05, 0x4c, 0x6f, 0x67, 0x69, 0x6e, 0x12, 0x0e, 0x2e, 0x61, 0x75, 0x74, 0x68,
      0x2e, 0x4c, 0x6f, 0x67, 0x69, 0x6e, 0x52, 0x65, 0x71, 0x1a, 0x0f, 0x2e, 0x61, 0x75, 0x74, 0x68,
      0x2e, 0x4c, 0x6f, 0x67, 0x69, 0x6e, 0x52, 0x65, 0x73, 0x70, 0x42, 0x14, 0x5a, 0x12, 0x75, 0x6e,
      0x69, 0x63, 0x6f, 0x72, 0x65, 0x2f, 0x6d, 0x6f, 0x64, 0x65, 0x6c, 0x2f, 0x61, 0x75, 0x74, 0x68,
      0x62, 0x06, 0x70, 0x72, 0x6f, 0x74, 0x6f, 0x33]"

definition file_auth_proto_goTypes :: "(string \<times> string) list" where
  "file_auth_proto_goTypes =
     [(''auth'', ''RegisterReq''), (''auth'', ''RegisterResp''), (''auth'', ''LoginReq''), (''auth'', ''LoginResp''), (''auth'', ''VerifyTokenReq''), (''auth'', ''VerifyTokenResp'')]"

definition file_auth_proto_depIdxs :: "nat list" where
  "file_auth_proto_depIdxs = [0, 2, 1, 3, 2, 0, 0, 0, 0]"

definition file_auth_proto_builder :: "nat \<Rightarrow> string \<Rightarrow> bytes option \<Rightarrow> (string \<times> string) list option \<Rightarrow> nat list option \<Rightarrow> type_builder" where
  "file_auth_proto_builder infos pkgPath rawDesc goTypes depIdxs =
     \<lparr>GoPackagePath = pkgPath, RawDescriptor = rawDesc, NumEnums = 0, NumMessages = 6,
      NumExtensions = 0, NumServices = 1, GoTypes = goTypes, DependencyIndexes = depIdxs, MessageInfos = infos\<rparr>"

definition file_auth_proto_msgTypes :: nat where
  "file_auth_proto_msgTypes = 6"

definition file_auth_proto_exported :: "string list" where
  "file_auth_proto_exported = [''RegisterReq'', ''RegisterResp'', ''LoginReq'', ''LoginResp'', ''VerifyTokenReq'', ''VerifyTokenResp'']"

end
