(* ===== verification/Proto_Generated.thy ===== *)
theory Proto_Generated
  imports Proto_Messages
begin

text \<open>
  The life of a file that protoc generated: its initialisation, which may be asked for more than
  once, and questions for the descriptors of its messages, in any order.
\<close>

section \<open>The life of a generated file\<close>

datatype file_op = RunInit | AskDescriptor nat

fun file_step ::
  "bool \<Rightarrow> string list \<Rightarrow> (bytes option \<Rightarrow> (string \<times> string) list option \<Rightarrow> nat list option \<Rightarrow> type_builder) \<Rightarrow>
   (type_builder \<Rightarrow> 'f) \<Rightarrow> (bytes option \<Rightarrow> bytes option) \<Rightarrow> file_op \<Rightarrow> 'f file_vars \<Rightarrow> 'f file_vars" where
  "file_step unsafe ms builder build compress RunInit v = file_init unsafe ms builder build v"
| "file_step unsafe ms builder build compress (AskDescriptor i) v = snd (Descriptor compress i v)"

definition file_run ::
  "bool \<Rightarrow> string list \<Rightarrow> (bytes option \<Rightarrow> (string \<times> string) list option \<Rightarrow> nat list option \<Rightarrow> type_builder) \<Rightarrow>
   (type_builder \<Rightarrow> 'f) \<Rightarrow> (bytes option \<Rightarrow> bytes option) \<Rightarrow> file_op list \<Rightarrow>
   bytes \<Rightarrow> (string \<times> string) list \<Rightarrow> nat list \<Rightarrow> 'f file_vars" where
  "file_run unsafe ms builder build compress ops raw types deps =
     fold (file_step unsafe ms builder build compress) ops (file_vars_initially (length ms) raw types deps)"

definition file_ok ::
  "bool \<Rightarrow> string list \<Rightarrow> type_builder \<Rightarrow> (type_builder \<Rightarrow> 'f) \<Rightarrow> (bytes option \<Rightarrow> bytes option) \<Rightarrow>
   bytes \<Rightarrow> (string \<times> string) list \<Rightarrow> nat list \<Rightarrow> 'f file_vars \<Rightarrow> bool" where
  "file_ok unsafe ms b build compress raw types deps v \<longleftrightarrow>
     fv_Exporters v = (if unsafe \<or> fv_File v = None then replicate (length ms) None else map (\<lambda>m. Some (exporter m)) ms) \<and>
     (if fv_rawDescOnce v then fv_rawDescData v = compress (Some raw) else fv_rawDescData v = Some raw) \<and>
     (case fv_File v of
        None \<Rightarrow> fv_rawDesc v = Some raw \<and> fv_goTypes v = Some types \<and> fv_depIdxs v = Some deps
      | Some f \<Rightarrow> f = build b)"

lemma file_ok_step:
  assumes "b = builder (Some raw) (Some types) (Some deps)" and "file_ok unsafe ms b build compress raw types deps v"
  shows "file_ok unsafe ms b build compress raw types deps (file_step unsafe ms builder build compress op v)"
  using assms
  by (cases op) (auto simp: file_ok_def file_init_def Descriptor_def rawDescGZIP_def Let_def split: option.splits)

lemma file_ok_run:
  assumes "b = builder (Some raw) (Some types) (Some deps)"
  shows "file_ok unsafe ms b build compress raw types deps v \<Longrightarrow>
    file_ok unsafe ms b build compress raw types deps (fold (file_step unsafe ms builder build compress) ops v)"
proof (induction ops arbitrary: v)
  case (Cons op ops)
  have "file_ok unsafe ms b build compress raw types deps (file_step unsafe ms builder build compress op v)"
    using assms Cons.prems by (rule file_ok_step)
  then show ?case by (simp add: Cons.IH)
qed simp

lemma step_initialises: "fv_File (file_step unsafe ms builder build compress op v) = None \<longleftrightarrow> fv_File v = None \<and> op \<noteq> RunInit"
  by (cases op) (auto simp: file_init_def Descriptor_def rawDescGZIP_def Let_def)

lemma run_initialises:
  "fv_File (fold (file_step unsafe ms builder build compress) ops v) = None \<longleftrightarrow> fv_File v = None \<and> RunInit \<notin> set ops"
  by (induction ops arbitrary: v) (auto simp: step_initialises)

section \<open>Properties\<close>

text \<open>
  C35.  Over any sequence of initialisations and questions for descriptors, in any order, a
  descriptor is the original bytes compressed once, and the file is built once, from the
  original tables, although the initialisation drops them; where there are no unsafe pointers, every
  message then has an exporter of its own.
\<close>

theorem descriptor_compressed_once:
  "fst (Descriptor compress i (file_run unsafe ms builder build compress ops raw types deps)) = (compress (Some raw), [i]) \<and>
   fv_File (file_run unsafe ms builder build compress ops raw types deps) =
     (if RunInit \<in> set ops then Some (build (builder (Some raw) (Some types) (Some deps))) else None) \<and>
   fv_Exporters (file_run unsafe ms builder build compress ops raw types deps) =
     (if RunInit \<in> set ops \<and> \<not> unsafe then map (\<lambda>m. Some (exporter m)) ms else replicate (length ms) None)"
proof -
  let ?v = "file_run unsafe ms builder build compress ops raw types deps"
    and ?b = "builder (Some raw) (Some types) (Some deps)"
  have "file_ok unsafe ms ?b build compress raw types deps (file_vars_initially (length ms) raw types deps)"
    by (simp add: file_ok_def file_vars_initially_def)
  then have ok: "file_ok unsafe ms ?b build compress raw types deps ?v" unfolding file_run_def
    by (intro file_ok_run) simp_all
  have "fv_File ?v = None \<longleftrightarrow> RunInit \<notin> set ops"
    unfolding file_run_def run_initialises by (simp add: file_vars_initially_def)
  with ok show ?thesis
    by (auto simp: file_ok_def Descriptor_def rawDescGZIP_def Let_def split: option.splits if_splits)
qed

end
