(* ===== verification/Auth_Rpc.thy ===== *)
theory Auth_Rpc
  imports Proto_Generated
begin

text \<open>
  \<open>model/auth/auth\_grpc.pb.go\<close>: the client and the server side of the service \<open>Auth\<close>.  The
  connection (\<open>grpc.ClientConnInterface\<close>), the decoder and the interceptor that the server hands to a
  handler, and the implementation of the server are parameters.  All of them may read and change
  a state of the outside, of any type.  A failed type assertion panics: the result is \<open>None\<close>.
\<close>

section \<open>Messages behind interfaces, errors\<close>

datatype rpc_any =
    AnyNil
  | RegisterReqPtr "RegisterReq option"
  | RegisterRespPtr "RegisterResp option"
  | LoginReqPtr "LoginReq option"
  | LoginRespPtr "LoginResp option"
  | AnyOther

datatype rpc_code = Unimplemented | Unknown | Canceled | DeadlineExceeded | Unavailable | OtherCode nat

datatype rpc_error = Status rpc_code string | RpcError string

type_synonym 's rpc_result = "((rpc_any \<times> rpc_error option) \<times> 's) option"

type_synonym ('c, 's) unary_handler = "'c \<Rightarrow> rpc_any \<Rightarrow> 's \<Rightarrow> 's rpc_result"

text \<open>\<open>AuthServer\<close>.\<close>

record ('c, 's) auth_server =
  srv_Register :: "'c \<Rightarrow> RegisterReq option \<Rightarrow> 's \<Rightarrow> ((RegisterResp option \<times> rpc_error option) \<times> 's) option"
  srv_Login :: "'c \<Rightarrow> LoginReq option \<Rightarrow> 's \<Rightarrow> ((LoginResp option \<times> rpc_error option) \<times> 's) option"

record ('c, 's) server_info =
  ui_Server :: "('c, 's) auth_server"
  ui_FullMethod :: string

type_synonym ('c, 's) interceptor =
  "'c \<Rightarrow> rpc_any \<Rightarrow> ('c, 's) server_info \<Rightarrow> ('c, 's) unary_handler \<Rightarrow> 's \<Rightarrow> 's rpc_result"

text \<open>The decoder fills the message behind the pointer it is given.\<close>

type_synonym decoder = "rpc_any \<Rightarrow> rpc_error option \<times> rpc_any"

section \<open>Names\<close>

definition Auth_Register_FullMethodName :: string where
  "Auth_Register_FullMethodName = ''/auth.Auth/Register''"

definition Auth_Login_FullMethodName :: string where
  "Auth_Login_FullMethodName = ''/auth.Auth/Login''"

section \<open>The client\<close>

datatype 'o call_option = StaticMethod | CallOption 'o

type_synonym ('c, 'o, 's) connection =
  "'c \<Rightarrow> string \<Rightarrow> rpc_any \<Rightarrow> rpc_any \<Rightarrow> 'o call_option list \<Rightarrow> 's \<Rightarrow> ((rpc_error option \<times> rpc_any) \<times> 's) option"

definition authClient_Register ::
  "('c, 'o, 's) connection \<Rightarrow> 'c \<Rightarrow> RegisterReq option \<Rightarrow> 'o call_option list \<Rightarrow> 's \<Rightarrow>
   ((RegisterResp option \<times> rpc_error option) \<times> 's) option" where
  "authClient_Register cc ctx req opts s =
     do {
       let cOpts = [StaticMethod] @ opts;
       ((err, out), s) \<leftarrow> cc ctx Auth_Register_FullMethodName (RegisterReqPtr req)
         (RegisterRespPtr (Some new_RegisterResp)) cOpts s;
       case err of
         Some e \<Rightarrow> Some ((None, Some e), s)
       | None \<Rightarrow> (case out of RegisterRespPtr r \<Rightarrow> Some ((r, None), s) | _ \<Rightarrow> None)
     }"

definition authClient_Login ::
  "('c, 'o, 's) connection \<Rightarrow> 'c \<Rightarrow> LoginReq option \<Rightarrow> 'o call_option list \<Rightarrow> 's \<Rightarrow>
   ((LoginResp option \<times> rpc_error option) \<times> 's) option" where
  "authClient_Login cc ctx req opts s =
     do {
       let cOpts = [StaticMethod] @ opts;
       ((err, out), s) \<leftarrow> cc ctx Auth_Login_FullMethodName (LoginReqPtr req)
         (LoginRespPtr (Some new_LoginResp)) cOpts s;
       case err of
         Some e \<Rightarrow> Some ((None, Some e), s)
       | None \<Rightarrow> (case out of LoginRespPtr r \<Rightarrow> Some ((r, None), s) | _ \<Rightarrow> None)
     }"

section \<open>The server\<close>

definition UnimplementedAuthServer :: "('c, 's) auth_server" where
  "UnimplementedAuthServer =
     \<lparr>srv_Register = (\<lambda>ctx req s. Some ((None, Some (Status Unimplemented ''method Register not implemented'')), s)),
      srv_Login = (\<lambda>ctx req s. Some ((None, Some (Status Unimplemented ''method Login not implemented'')), s))\<rparr>"

definition Auth_Register_Handler ::
  "('c, 's) auth_server \<Rightarrow> 'c \<Rightarrow> decoder \<Rightarrow> ('c, 's) interceptor option \<Rightarrow> 's \<Rightarrow> 's rpc_result" where
  "Auth_Register_Handler srv ctx dec interceptor s =
     (case dec (RegisterReqPtr (Some new_RegisterReq)) of
        (Some err, _) \<Rightarrow> Some ((AnyNil, Some err), s)
      | (None, req) \<Rightarrow>
          let handler = (\<lambda>ctx req s.
                case req of
                  RegisterReqPtr r \<Rightarrow>
                    map_option (\<lambda>((resp, err), s). ((RegisterRespPtr resp, err), s)) (srv_Register srv ctx r s)
                | _ \<Rightarrow> None)
          in case interceptor of
               None \<Rightarrow> handler ctx req s
             | Some i \<Rightarrow>
                 i ctx req \<lparr>ui_Server = srv, ui_FullMethod = Auth_Register_FullMethodName\<rparr> handler s)"

definition Auth_Login_Handler ::
  "('c, 's) auth_server \<Rightarrow> 'c \<Rightarrow> decoder \<Rightarrow> ('c, 's) interceptor option \<Rightarrow> 's \<Rightarrow> 's rpc_result" where
  "Auth_Login_Handler srv ctx dec interceptor s =
     (case dec (LoginReqPtr (Some new_LoginReq)) of
        (Some err, _) \<Rightarrow> Some ((AnyNil, Some err), s)
      | (None, req) \<Rightarrow>
          let handler = (\<lambda>ctx req s.
                case req of
                  LoginReqPtr r \<Rightarrow>
                    map_option (\<lambda>((resp, err), s). ((LoginRespPtr resp, err), s)) (srv_Login srv ctx r s)
                | _ \<Rightarrow> None)
          in case interceptor of
               None \<Rightarrow> handler ctx req s
             | Some i \<Rightarrow>
                 i ctx req \<lparr>ui_Server = srv, ui_FullMethod = Auth_Login_FullMethodName\<rparr> handler s)"

type_synonym ('c, 's) method_handler =
  "('c, 's) auth_server \<Rightarrow> 'c \<Rightarrow> decoder \<Rightarrow> ('c, 's) interceptor option \<Rightarrow> 's \<Rightarrow> 's rpc_result"

record ('c, 's) grpc_service =
  gs_ServiceName :: string
  gs_Methods :: "(string \<times> ('c, 's) method_handler) list"
  gs_Streams :: "string list"
  gs_Metadata :: string

definition Auth_ServiceDesc :: "('c, 's) grpc_service" where
  "Auth_ServiceDesc =
     \<lparr>gs_ServiceName = ''auth.Auth'',
      gs_Methods = [(''Register'', Auth_Register_Handler), (''Login'', Auth_Login_Handler)],
      gs_Streams = [], gs_Metadata = ''auth.proto''\<rparr>"

section \<open>The connection of a client to a server\<close>

text \<open>
  What grpc documents of a call over a connection to a server at which a service is registered.
  The network decides the fate of a call: it may fail before it reaches the server; or it reaches
  the server, in a context of the server's own, and its answer arrives or is lost (say by a
  deadline).  A failure is a status error.  At the server, a method of the service runs its handler once, with
  a decoder that yields the request (a nil request travels as an empty one); a call of any other method
  is answered with \<open>Unimplemented\<close>.  A status error of the handler is the error of the call; another
  error becomes a status error with its text and the code \<open>Unknown\<close>, or, for the errors of a
  context, \<open>Canceled\<close> or \<open>DeadlineExceeded\<close>.  Without an error the reply is copied into the message
  of the caller.  A handler that panics ends the server, and the call fails.
\<close>

fun as_sent :: "rpc_any \<Rightarrow> rpc_any" where
  "as_sent (RegisterReqPtr None) = RegisterReqPtr (Some new_RegisterReq)"
| "as_sent (LoginReqPtr None) = LoginReqPtr (Some new_LoginReq)"
| "as_sent (RegisterRespPtr None) = RegisterRespPtr (Some new_RegisterResp)"
| "as_sent (LoginRespPtr None) = LoginRespPtr (Some new_LoginResp)"
| "as_sent a = a"

fun arrives_as :: "rpc_error \<Rightarrow> rpc_error \<Rightarrow> bool" where
  "arrives_as (Status c t) e \<longleftrightarrow> e = Status c t"
| "arrives_as (RpcError t) e \<longleftrightarrow> e \<in> {Status Unknown t, Status Canceled t, Status DeadlineExceeded t}"

datatype 'c fate = NotDelivered rpc_code string | Delivered 'c | ReplyLost 'c rpc_code string

type_synonym ('c, 's) network = "'c \<Rightarrow> string \<Rightarrow> 's \<Rightarrow> 'c fate"

definition full_method :: "('c, 's) grpc_service \<Rightarrow> string \<Rightarrow> string" where
  "full_method d name = ''/'' @ gs_ServiceName d @ ''/'' @ name"

definition handler_of :: "('c, 's) grpc_service \<Rightarrow> string \<Rightarrow> ('c, 's) method_handler option" where
  "handler_of d m = map_of (map (\<lambda>(name, h). (full_method d name, h)) (gs_Methods d)) m"

text \<open>What a call answers when its handler ran as \<open>r\<close>, and the reply was lost with a status or not.\<close>

definition answered :: "(rpc_code \<times> string) option \<Rightarrow> 's rpc_result \<Rightarrow> (rpc_error option \<times> rpc_any) \<times> 's \<Rightarrow> bool" where
  "answered lost r a \<longleftrightarrow>
     (case r of
        None \<Rightarrow> (\<exists>c t. fst (fst a) = Some (Status c t))
      | Some ((reply, err), s) \<Rightarrow> snd a = s \<and>
          (case (lost, err) of
             (Some (c, t), _) \<Rightarrow> fst (fst a) = Some (Status c t)
           | (None, Some e) \<Rightarrow> (\<exists>e'. fst (fst a) = Some e' \<and> arrives_as e e')
           | (None, None) \<Rightarrow> fst a = (None, as_sent reply)))"

definition connects ::
  "('c, 's) grpc_service \<Rightarrow> ('c, 's) auth_server \<Rightarrow> ('c, 's) interceptor option \<Rightarrow> ('c, 's) network \<Rightarrow>
   ('c, 'o, 's) connection \<Rightarrow> bool" where
  "connects d srv i net cc \<longleftrightarrow>
     (\<forall>ctx m req out opts s. \<exists>a. cc ctx m req out opts s = Some a \<and>
        (case (net ctx m s, handler_of d m) of
           (NotDelivered c t, _) \<Rightarrow> fst (fst a) = Some (Status c t) \<and> snd a = s
         | (Delivered ctx', None) \<Rightarrow> (\<exists>t. fst (fst a) = Some (Status Unimplemented t)) \<and> snd a = s
         | (ReplyLost ctx' c t, None) \<Rightarrow> fst (fst a) = Some (Status c t) \<and> snd a = s
         | (Delivered ctx', Some h) \<Rightarrow> answered None (h srv ctx' (\<lambda>_. (None, as_sent req)) i s) a
         | (ReplyLost ctx' c t, Some h) \<Rightarrow> answered (Some (c, t)) (h srv ctx' (\<lambda>_. (None, as_sent req)) i s) a))"

text \<open>A connection that keeps these promises, over any network; every error of a handler that has no status is \<open>Unknown\<close>.\<close>

fun status_of :: "rpc_error \<Rightarrow> rpc_error" where
  "status_of (Status c t) = Status c t"
| "status_of (RpcError t) = Status Unknown t"

definition handler_answer :: "rpc_any \<Rightarrow> 's \<Rightarrow> (rpc_code \<times> string) option \<Rightarrow> 's rpc_result \<Rightarrow> (rpc_error option \<times> rpc_any) \<times> 's" where
  "handler_answer out s lost r =
     (case r of
        None \<Rightarrow> ((Some (Status Unavailable ''connection reset''), out), s)
      | Some ((reply, err), s) \<Rightarrow>
          (case (lost, err) of
             (Some (c, t), _) \<Rightarrow> ((Some (Status c t), out), s)
           | (None, Some e) \<Rightarrow> ((Some (status_of e), out), s)
           | (None, None) \<Rightarrow> ((None, as_sent reply), s)))"

definition simulated ::
  "('c, 's) grpc_service \<Rightarrow> ('c, 's) auth_server \<Rightarrow> ('c, 's) interceptor option \<Rightarrow> ('c, 's) network \<Rightarrow>
   ('c, 'o, 's) connection" where
  "simulated d srv i net ctx m req out opts s =
     Some (case (net ctx m s, handler_of d m) of
         (NotDelivered c t, _) \<Rightarrow> ((Some (Status c t), out), s)
       | (Delivered ctx', None) \<Rightarrow> ((Some (Status Unimplemented ''unknown method''), out), s)
       | (ReplyLost ctx' c t, None) \<Rightarrow> ((Some (Status c t), out), s)
       | (Delivered ctx', Some h) \<Rightarrow> handler_answer out s None (h srv ctx' (\<lambda>_. (None, as_sent req)) i s)
       | (ReplyLost ctx' c t, Some h) \<Rightarrow> handler_answer out s (Some (c, t)) (h srv ctx' (\<lambda>_. (None, as_sent req)) i s))"

lemma arrives_status_of: "arrives_as e (status_of e)"
  by (cases e) simp_all

lemma answered_handler_answer: "answered lost r (handler_answer out s lost r)"
  by (auto simp: answered_def handler_answer_def arrives_status_of split: option.splits)

lemma simulated_connects: "connects d srv i net (simulated d srv i net)"
  unfolding connects_def simulated_def
  by (auto simp: answered_handler_answer split: fate.splits option.splits)

lemma service_handlers:
  "handler_of Auth_ServiceDesc ''/auth.Auth/Register'' = Some Auth_Register_Handler"
  "handler_of Auth_ServiceDesc ''/auth.Auth/Login'' = Some Auth_Login_Handler"
  "handler_of Auth_ServiceDesc ''/auth.Auth/VerifyToken'' = None"
  by (simp_all add: handler_of_def full_method_def Auth_ServiceDesc_def)

lemma connected:
  assumes "connects Auth_ServiceDesc srv i net cc" and "handler_of Auth_ServiceDesc m = Some h"
  shows "\<exists>a. cc ctx m req out opts s = Some a \<and>
      (case net ctx m s of
         NotDelivered c t \<Rightarrow> fst (fst a) = Some (Status c t) \<and> snd a = s
       | Delivered ctx' \<Rightarrow> answered None (h srv ctx' (\<lambda>_. (None, as_sent req)) i s) a
       | ReplyLost ctx' c t \<Rightarrow> answered (Some (c, t)) (h srv ctx' (\<lambda>_. (None, as_sent req)) i s) a)"
proof -
  from assms(1) [unfolded connects_def, rule_format, of ctx m req out opts s] assms(2)
  show ?thesis by (cases "net ctx m s") auto
qed

section \<open>Properties\<close>

text \<open>
  The specification: what a caller gets and what becomes of the state, by the fate of the call and
  by what the server's method does when it \<open>run\<close>s in a context: a failure of the network, or the
  response or error of the method, no message with an error, no nil without one.
\<close>

definition client_sees :: "'m \<Rightarrow> 's \<Rightarrow> 'c fate \<Rightarrow> ('c \<Rightarrow> (('m option \<times> rpc_error option) \<times> 's) option) \<Rightarrow>
    (('m option \<times> rpc_error option) \<times> 's) option \<Rightarrow> bool" where
  "client_sees empty_message s fate run result \<longleftrightarrow>
     (case fate of
        NotDelivered c t \<Rightarrow> result = Some ((None, Some (Status c t)), s)
      | Delivered ctx \<Rightarrow> (case run ctx of
            None \<Rightarrow> (\<exists>c t s'. result = Some ((None, Some (Status c t)), s'))
          | Some ((resp, None), s') \<Rightarrow>
              result = Some ((Some (case resp of Some m \<Rightarrow> m | None \<Rightarrow> empty_message), None), s')
          | Some ((resp, Some e), s') \<Rightarrow> (\<exists>e'. arrives_as e e' \<and> result = Some ((None, Some e'), s')))
      | ReplyLost ctx c t \<Rightarrow> (case run ctx of
            None \<Rightarrow> (\<exists>c t s'. result = Some ((None, Some (Status c t)), s'))
          | Some (_, s') \<Rightarrow> result = Some ((None, Some (Status c t)), s')))"

definition passes_on :: "('c, 's) interceptor \<Rightarrow> bool" where
  "passes_on i \<longleftrightarrow> (\<forall>ctx req info h s. i ctx req info h s = h ctx req s)"

lemma register_handled:
  "case i of None \<Rightarrow> True | Some f \<Rightarrow> passes_on f \<Longrightarrow>
     Auth_Register_Handler srv ctx (\<lambda>_. (None, RegisterReqPtr (Some req))) i s =
       map_option (\<lambda>((resp, err), s). ((RegisterRespPtr resp, err), s)) (srv_Register srv ctx (Some req) s)"
  by (simp add: Auth_Register_Handler_def passes_on_def split: option.splits)

lemma login_handled:
  "case i of None \<Rightarrow> True | Some f \<Rightarrow> passes_on f \<Longrightarrow>
     Auth_Login_Handler srv ctx (\<lambda>_. (None, LoginReqPtr (Some req))) i s =
       map_option (\<lambda>((resp, err), s). ((LoginRespPtr resp, err), s)) (srv_Login srv ctx (Some req) s)"
  by (simp add: Auth_Login_Handler_def passes_on_def split: option.splits)

lemma register_call:
  assumes "connects Auth_ServiceDesc srv i net cc" and "case i of None \<Rightarrow> True | Some f \<Rightarrow> passes_on f"
  shows "client_sees new_RegisterResp s (net ctx ''/auth.Auth/Register'' s) (\<lambda>ctx. srv_Register srv ctx (Some req) s)
    (authClient_Register cc ctx (Some req) opts s)"
proof -
  obtain a where "cc ctx Auth_Register_FullMethodName (RegisterReqPtr (Some req)) (RegisterRespPtr (Some new_RegisterResp))
      ([StaticMethod] @ opts) s = Some a"
    "case net ctx ''/auth.Auth/Register'' s of
       NotDelivered c t \<Rightarrow> fst (fst a) = Some (Status c t) \<and> snd a = s
     | Delivered ctx' \<Rightarrow> answered None (Auth_Register_Handler srv ctx' (\<lambda>_. (None, RegisterReqPtr (Some req))) i s) a
     | ReplyLost ctx' c t \<Rightarrow> answered (Some (c, t)) (Auth_Register_Handler srv ctx' (\<lambda>_. (None, RegisterReqPtr (Some req))) i s) a"
    using connected [OF assms(1) service_handlers(1), of ctx "RegisterReqPtr (Some req)"
        "RegisterRespPtr (Some new_RegisterResp)" "[StaticMethod] @ opts" s] unfolding Auth_Register_FullMethodName_def as_sent.simps by blast
  then show ?thesis
    by (cases a) (auto simp: client_sees_def authClient_Register_def answered_def register_handled [OF assms(2)]
        split: fate.splits option.splits)
qed

lemma login_call:
  assumes "connects Auth_ServiceDesc srv i net cc" and "case i of None \<Rightarrow> True | Some f \<Rightarrow> passes_on f"
  shows "client_sees new_LoginResp s (net ctx ''/auth.Auth/Login'' s) (\<lambda>ctx. srv_Login srv ctx (Some req) s)
    (authClient_Login cc ctx (Some req) opts s)"
proof -
  obtain a where "cc ctx Auth_Login_FullMethodName (LoginReqPtr (Some req)) (LoginRespPtr (Some new_LoginResp))
      ([StaticMethod] @ opts) s = Some a"
    "case net ctx ''/auth.Auth/Login'' s of
       NotDelivered c t \<Rightarrow> fst (fst a) = Some (Status c t) \<and> snd a = s
     | Delivered ctx' \<Rightarrow> answered None (Auth_Login_Handler srv ctx' (\<lambda>_. (None, LoginReqPtr (Some req))) i s) a
     | ReplyLost ctx' c t \<Rightarrow> answered (Some (c, t)) (Auth_Login_Handler srv ctx' (\<lambda>_. (None, LoginReqPtr (Some req))) i s) a"
    using connected [OF assms(1) service_handlers(2), of ctx "LoginReqPtr (Some req)"
        "LoginRespPtr (Some new_LoginResp)" "[StaticMethod] @ opts" s] unfolding Auth_Login_FullMethodName_def as_sent.simps by blast
  then show ?thesis
    by (cases a) (auto simp: client_sees_def authClient_Login_def answered_def login_handled [OF assms(2)]
        split: fate.splits option.splits)
qed

text \<open>
  C24.  A call of the generated client is, unless the network fails, one call of the server's method of
  the same name with the same request, over any connection that keeps grpc's promises and with no interceptor
  or one that passes on.  The request goes to the path of the method; a call that is not delivered
  leaves the server alone and is an error; a delivered one makes the method's change of state, and the
  client gets its response, or its error as a status without a message; and when the answer is lost
  the method ran all the same.  The context in which it runs is the server's own.
\<close>

theorem client_reaches_server:
  assumes "connects Auth_ServiceDesc srv i net cc" and "case i of None \<Rightarrow> True | Some f \<Rightarrow> passes_on f"
  shows "client_sees new_RegisterResp s (net ctx ''/auth.Auth/Register'' s) (\<lambda>ctx. srv_Register srv ctx (Some req) s)
      (authClient_Register cc ctx (Some req) opts s) \<and>
    client_sees new_LoginResp s (net ctx ''/auth.Auth/Login'' s) (\<lambda>ctx. srv_Login srv ctx (Some req') s)
      (authClient_Login cc ctx (Some req') opts s)"
  using register_call [OF assms] login_call [OF assms] by blast

text \<open>
  A server that counts its calls and refuses to log in; its fifth call is answered too late, and
  the network is down afterwards.
\<close>

definition counting_server :: "(nat, nat) auth_server" where
  "counting_server =
     \<lparr>srv_Register = (\<lambda>ctx req n. Some ((Some (new_RegisterResp\<lparr>RegisterResp_Ok := True\<rparr>), None), Suc n)),
      srv_Login = (\<lambda>ctx req n. Some ((None, Some (RpcError ''denied'')), Suc n))\<rparr>"

definition tired_network :: "(nat, nat) network" where
  "tired_network ctx m n =
     (if n < 4 then Delivered (ctx + 100) else if n = 4 then ReplyLost (ctx + 100) DeadlineExceeded ''context deadline exceeded''
      else NotDelivered Unavailable ''connection refused'')"

theorem client_reaches_server_witness:
  "(let cc = simulated Auth_ServiceDesc counting_server None tired_network;
        register = (\<lambda>n. authClient_Register cc 1 (Some new_RegisterReq) ([] :: unit call_option list) n) in
    register 3 = Some ((Some (new_RegisterResp\<lparr>RegisterResp_Ok := True\<rparr>), None), 4) \<and>
    register 4 = Some ((None, Some (Status DeadlineExceeded ''context deadline exceeded'')), 5) \<and>
    register 5 = Some ((None, Some (Status Unavailable ''connection refused'')), 5)) \<and>
   (\<exists>c. authClient_Login (simulated Auth_ServiceDesc counting_server None tired_network) 1 (Some new_LoginReq)
      ([] :: unit call_option list) 3 = Some ((None, Some (Status c ''denied'')), 4) \<and> c \<in> {Unknown, Canceled, DeadlineExceeded})"
proof -
  have "connects Auth_ServiceDesc counting_server None tired_network
      (simulated Auth_ServiceDesc counting_server None tired_network :: (nat, unit, nat) connection)"
    by (rule simulated_connects)
  note calls = client_reaches_server [OF this, of _ 1 new_RegisterReq "[]" new_LoginReq]
  show ?thesis
    using calls [of 3] calls [of 4] calls [of 5]
    by (auto simp: client_sees_def tired_network_def counting_server_def Let_def)
qed

text \<open>
  \<open>auth.proto\<close> declares a third method, \<open>VerifyToken\<close>, which the generated code does not have: a
  delivered call of it is answered with \<open>Unimplemented\<close> and changes nothing, whatever the server is.
\<close>

lemma verify_token_unimplemented:
  assumes "connects Auth_ServiceDesc srv i net cc" and "net ctx ''/auth.Auth/VerifyToken'' s = Delivered ctx'"
  shows "\<exists>t out'. cc ctx ''/auth.Auth/VerifyToken'' req out opts s = Some ((Some (Status Unimplemented t), out'), s)"
  using assms(1) [unfolded connects_def, rule_format, of ctx "''/auth.Auth/VerifyToken''" req out opts s] assms(2)
  by (auto simp: service_handlers)

end
