(* ===== verification/Spec2Isabelle.thy ===== *)
theory Spec2Isabelle
  imports App_Reconciler Gang_Scheduler Reserve_Scheduler Image_Daemon Deep_Copy Informer_Factory Fake_Client Program_Start Rollout_Liveness Teardown
    Type_Registry Plugin_Start Proto_Generated Auth_Rpc
begin

text \<open>
  A verification development of unicore, a Kubernetes operator for stateful applications with
  two scheduler plugins and a daemon on every node.  Paths below are relative to
  \<open>src/deployer\<close>, except those of the control plane and of its messages in \<open>src/model\<close>.

  \<^bold>\<open>The program and its parts.\<close>
  \<^item> The controller manager runs \<open>Reconcile\<close> for each App
    (\<open>internal/controller/app\_controller.go\<close>).  It reads the App from a lister, guards it with
    a finalizer, adopts revisions, claims pods, and hands both to the state controller
    (\<open>internal/controller/app/state\_controller.go\<close>).  That one chooses the update revision,
    makes one pass over the pods (\<open>applyUpdate\<close>), writes the status and truncates the history.
    The pass creates, updates and deletes pods and claims through the pod controller
    (\<open>pod\_controller.go\<close>) and updates images in place (\<open>inplace\_update.go\<close>); a delay it
    wants goes through the process-wide store of \<open>requeue\_duration/duration.go\<close>, which
    \<open>Reconcile\<close> pops.
  \<^item> The scheduler runs the gang plugin
    (\<open>schedule\_plugin/pkg/plugin/gang/gang.go\<close>), which lets the pods of a gang start together,
    and the reservation plugin (\<open>schedule\_plugin/pkg/plugin/reserve/reserve.go\<close>), which
    keeps resources of nodes for pods that are still to come, in a config map.
  \<^item> The image daemon (\<open>pkg/daemon\<close>) pulls the images of its node's ImageList through the
    interface \<open>CRI\<close>, which containerd implements.
  \<^item> All of them reach the API server through the generated client set, listers and informers
    (\<open>pkg/generated\<close>), and copy what they read from a cache with the generated deep copies
    (\<open>api/deployer/v1/zz\_generated.deepcopy.go\<close>).  The programs are started by \<open>cmd/main.go\<close>,
    \<open>schedule\_plugin/cmd/main.go\<close> and \<open>cmd/unicore\_daemon/main.go\<close>; a web server with three
    skeletons of handlers is \<open>control\_plane\<close>.  The messages and the service it is meant to speak
    are generated by protoc in \<open>model\<close>.

  \<^bold>\<open>Which theory models what.\<close>
  \<^item> \<open>Prelude\<close>: integers at their width, times, Go maps, errors, the retry loop, list lemmas.
    \<open>Go\_Strings\<close>, \<open>Go\_Sort\<close>, \<open>Go\_Regexp\<close>: what the program uses of Go's library:
    \<open>Split\<close>, \<open>Join\<close>, \<open>Atoi\<close>, \<open>Itoa\<close>, \<open>sort.Sort\<close> with the contract of \<open>Less\<close> (the locales
    \<open>strict\_order\<close> and \<open>sort\_less\<close>), regular expressions with a verified matcher.
  \<^item> \<open>Api\_Types\<close>: the App, its status, the in-place status, the ImageList
    (\<open>api/deployer/v1\<close>) and the fields of the Kubernetes types that the program uses.
  \<^item> \<open>Requeue\_Duration\<close>: \<open>Push\<close> and \<open>Pop\<close>.
  \<^item> \<open>Pod\_Identity\<close>, \<open>Pod\_Status\<close>: \<open>utils.go\<close> and \<open>replica\_status.go\<close>; names, ordinals, claims,
    volumes, readiness, availability, counters.
  \<^item> \<open>App\_Status\<close>, \<open>Revision\_History\<close>, \<open>Apply\_Update\<close>, \<open>State\_Controller\<close>:
    \<open>state\_controller.go\<close>.  \<open>Apply\_Update\<close> is \<open>applyUpdate\<close> cut at its loops: \<open>arrange\_pods\<close>
    puts the pods into slots, \<open>sync\_loop\<close> works on each slot, \<open>scale\_down\<close> removes surplus pods,
    \<open>roll\_loop\<close> updates from the highest ordinal down to the partition.
  \<^item> \<open>Cluster\_Env\<close>: what lies outside, as the record \<open>env\<close>: the API server, the caches, the
    clock, the codecs, the policy of retries.  Every answer may depend on all calls made
    before.  The state is \<open>sys\<close>: the trace of calls and the requeue store.
  \<^item> \<open>Pod\_Controller\<close>, \<open>In\_Place\_Update\<close>: the files of these names.  The operations that the
    state controller calls on pods are the record \<open>pod\_ops\<close>, with \<open>PodController\<close> as the
    program's instance.
  \<^item> \<open>Update\_Safety\<close>, \<open>Update\_Progress\<close>: the theorems on whole passes.  \<open>Rollout\<close>: passes in
    alternation with a cluster that carries out their calls; \<open>round\<close> is one pass without an
    error and what the cluster makes of it, \<open>remaining\<close> what is left to do.
    \<open>Rollout\_Liveness\<close>: there is always a next round.  \<open>Teardown\<close>: the same for an App that is
    being deleted, one level higher: a \<open>turn\<close> is a run of the reconciler over the claimed pods,
    with what it makes of the pods and of the App.
  \<^item> \<open>App\_Reconciler\<close>: \<open>app\_controller.go\<close>.
  \<^item> \<open>Gang\_Scheduler\<close>: \<open>gang.go\<close>.  The maps of the plugin are the record \<open>gang\_state\<close>; \<open>Permit\<close>
    is the decision, taken without the lock, and the commitment under it, each with the state it
    finds; \<open>gang\_step\<close> is the plugin as a transition system, \<open>compare\_all\<close> a sequence of
    comparisons by the queue.
  \<^item> \<open>Reserve\_Scheduler\<close>: \<open>reserve.go\<close>.  \<open>Filter\<close> on 64-bit words, \<open>Reserve\<close>, a round of
    \<open>cleanExpired\<close>, \<open>updateCM\<close> with its retries, the informer's handlers.
  \<^item> \<open>Image\_Daemon\<close>: \<open>daemon.go\<close>, \<open>containerd.go\<close>, \<open>cri.go\<close>.  The locale \<open>cri\_contract\<close> is what
    the daemon needs of a CRI, and \<open>CheckAndPull\<close> over containerd is its interpretation;
    \<open>daemon\_step\<close> is the daemon with its loops and goroutines.
  \<^item> \<open>Go\_Memory\<close>: pointers, slices and maps as cells of a memory, types of values, the meaning
    and the footprint of a value, and the ways in which generated code copies; the locale
    \<open>deep\_copier\<close> is the contract of a deep copy.  \<open>Deep\_Copy\<close>: \<open>zz\_generated.deepcopy.go\<close>, every
    \<open>DeepCopyInto\<close>, \<open>DeepCopy\<close> and \<open>DeepCopyObject\<close>.  The other theories treat an App as a
    value, for which a copy is the App itself; this theory is the reason why they may.
  \<^item> \<open>Rest\_Client\<close>: the typed clients, the client set and the listers of
    \<open>pkg/generated/clientset\<close> and \<open>pkg/generated/listers\<close>, over a REST client and an indexer as
    parameters.  \<open>Fake\_Client\<close>: the test double \<open>fake\_app.go\<close>.
  \<^item> \<open>Informer\_Factory\<close>: \<open>pkg/generated/informers\<close>; \<open>factory\_step\<close> is the factory under any
    sequence of its methods, with the goroutines it starts.
  \<^item> \<open>Program\_Start\<close>: the \<open>main\<close> functions, \<open>NewAppReconciler\<close>, both \<open>SetupWithManager\<close>, the
    constructor of the daemon as sequences of calls that may fail, panic or end the process, and
    the handlers of \<open>control\_plane\<close>.
  \<^item> \<open>Plugin\_Start\<close>: the constructors of the scheduler plugins; \<open>plugin\_step\<close> is the
    reservation plugin: handlers of whatever the informer delivers, releases by \<open>Reserve\<close> and
    \<open>cleanExpired\<close>, attempts to write, and changes of the cache, which such attempts write into.
  \<^item> \<open>Type\_Registry\<close>: the API group, the \<open>init\<close> functions that register its types with the
    schemes, and the constructors of the fake client set (\<open>fake/clientset\_generated.go\<close>) as they
    are written; their package does not compile at this commit, since \<open>FakeImageLists\<close> is declared
    nowhere, and no theorem speaks of its use.
  \<^item> \<open>Proto\_Messages\<close>: the Go files of \<open>model\<close> as they are written, structs with their tags,
    constructors, getters, tables and the bytes of the descriptors.  \<open>Proto\_Generated\<close>: the life of
    such a file, its initialisation and the compression of its descriptor.  \<open>Auth\_Rpc\<close>: client,
    server and service table of \<open>auth\_grpc.pb.go\<close> over a connection with a network.
  \<^item> \<open>Samples\<close>, \<open>Samples\_Env\<close>: concrete objects for the witnesses.

  \<^bold>\<open>What the lemmas show.\<close>
  \<^item> The pass: with ordered management at most one pod is created or deleted per pass and per
    reconciliation, in the order of ordinals; every creation and deletion is one of four
    justified ones; exactly when a pass panics; and an App that has settled makes
    progress, one outdated replica per pass, from the top.  Rounds of passes lead an ordered
    roll-out by deletion to the specified replicas and revisions within \<open>remaining\<close> rounds,
    and these rounds take place when the API server grants what is asked for.  A deleted App
    is scaled to zero, loses its pods from the top and then the finalizer, and not before.
  \<^item> Pods: a new pod belongs to its App; names are parsed back; claims come before the pod.
    In-place updates change images only, and only after the pod was marked not ready and the
    grace period is over.
  \<^item> Status and history: counters are the numbers of pods, with bounds in 32 bits; only
    computed statuses are written; the update revision is found or created without
    duplicates; truncation removes the oldest unused revisions only.
  \<^item> Gang: the waiting pods are allowed together, and only when the count is reached; the
    recorded pods count once; pods of one gang stay together in the queue; but a rejection is
    never forgotten.
  \<^item> Reservations: \<open>Filter\<close> equals a formula over the integers while nothing overflows, and
    protects the reservations of other pods; \<open>Reserve\<close> and \<open>cleanExpired\<close> send something when there
    is something to release, and what they send is read back as exactly the table without the
    released or expired reservations; but a retry may bring a released one back.
  \<^item> Daemon: its maps implement two sets of images; it touches listed images only; after a run
    every missing image failed or is stored; the names it lets through are described without the
    regular expression.
  \<^item> Deep copies: the copy of an App has the type and the meaning of the original and new cells
    only, so that neither sees what is written to the other; the copy of an ImageList shares
    its map.
  \<^item> Clients: over a REST client that serves Apps, the typed client is the environment of the
    reconciler; a lister's \<open>Get\<close> and \<open>List\<close> agree.  The factory launches each
    informer once, and nothing after a shutdown.
  \<^item> Start: the manager makes its calls in a fixed order up to the first that does not succeed and
    starts when everything was set up, and not otherwise; the types are registered under the group
    version that all clients name; the table of the reservation plugin is what the last event
    says, but pods may be scheduled before the first.
  \<^item> Messages: a descriptor is compressed once; a request of the generated client arrives at the
    method of its name, or nowhere.
  Some theorems show what the code does although its comments, or the rest of the code, say
  otherwise; they say so in their text.

  \<^bold>\<open>Conventions, bounds and fuel.\<close>  A definition that can panic returns an option, and \<open>None\<close> is
  the panic.  Errors are values.  The only fuel is the number of steps of the retry loop,
  a field of the environment (the library's own bound), and its theorems hold for every such
  number; every other loop is structural recursion.  Endless loops are modelled by one round
  and, where rounds interleave, by a step relation.  Times are nanoseconds as integers; the
  conversions that can wrap around or saturate are written out.  A Go map that is ranged over
  is a list with distinct keys in the order of that range, so that statements hold for every
  order.  Hypotheses on the outside are named: \<open>range\_visits\_all\<close> (a range visits every key),
  \<open>codec\_restores\<close> (JSON reads back what it wrote), \<open>keeps\_images\<close> (a pull stores its image and
  removes none), \<open>serves\_apps\<close> (the API server answers requests for Apps), \<open>connects\<close> (what grpc
  promises of a call), and those explained where they are used.

  \<^bold>\<open>Not modelled.\<close>  Logging; the texts of framework statuses; which client or lister a
  constructor stores in which field; \<open>image\_pre\_load.go\<close>, which is empty; the \<open>.proto\<close> files and what
  the bytes of the descriptors mean; the informer of the reservation plugin, the object tracker
  behind the fake client set, the schemes, the runtime of protocol buffers and gRPC, which are
  libraries and parameters here.  A call of the CRI, a body under one lock
  and each of \<open>Push\<close> and \<open>Pop\<close> are atomic steps.
\<close>

end
